(* ===== verification/Prelude.thy ===== *)
theory Prelude
  imports Main "HOL-Library.Word" "HOL-Library.AList" "HOL-Library.Sublist" "HOL-Library.List_Lexorder" "HOL-Library.Code_Target_Nat"
begin

text \<open>
  Shared vocabulary of the development: JavaScript strings as lists of UTF-16 code units, the
  operations of \<open>String\<close>, \<open>Map\<close> and \<open>Set\<close> the sources use, and the collections of facts the
  component theories share.

  A JavaScript string is a list of 16-bit code units; \<open>js ''...''\<close> embeds a literal. The order on
  strings is the lexicographic order of code units (\<open>List_Lexorder\<close>), which is what \<open><\<close> and
  \<open>Array.prototype.sort\<close> compare. A \<open>Map\<close> or a plain object is an association list in insertion
  order: reading is \<^const>\<open>map_of\<close>, \<open>set\<close> is \<^const>\<open>AList.update\<close> (an existing key keeps its
  place, a new one goes last) and \<open>delete\<close> is \<^const>\<open>AList.delete\<close>.
\<close>

named_theorems str_simps \<open>evaluation of string literals and templates\<close>
named_theorems gate_defs \<open>definitions unfolded by the decision proofs\<close>

section \<open>Strings\<close>

type_synonym u16 = "16 word"
type_synonym jstr = "u16 list"
type_synonym u8 = "8 word"
type_synonym bytes = "u8 list"

definition unit_of :: "char \<Rightarrow> u16" where
  "unit_of c = word_of_nat (of_char c)"

definition js :: "string \<Rightarrow> jstr" where
  "js s = map unit_of s"

lemma unat_unit_of: "unat (unit_of c) = of_char c"
proof -
  have "(of_char c :: nat) < 65536"
    using nat_of_char_less_256[of c] by linarith
  then show ?thesis by (simp add: unit_of_def unat_of_nat)
qed

lemma unit_of_eq [simp]: "unit_of c = unit_of d \<longleftrightarrow> c = d"
  by (metis of_char_eq_iff unat_unit_of)

lemma unit_of_Char [str_simps]: "unit_of (Char b0 b1 b2 b3 b4 b5 b6 b7) =
    word_of_nat (horner_sum of_bool 2 [b0, b1, b2, b3, b4, b5, b6, b7])"
  by (simp add: unit_of_def)

lemma inj_unit_of: "inj unit_of"
  by (simp add: inj_def)

lemma js_eq [simp]: "js s = js t \<longleftrightarrow> s = t"
  by (simp add: js_def inj_map_eq_map[OF inj_unit_of])

lemma js_Nil [str_simps]: "js [] = []"
  and js_Cons [str_simps]: "js (c # cs) = unit_of c # js cs"
  by (simp_all add: js_def)

lemma js_empty_iff [simp]: "js s = [] \<longleftrightarrow> s = []" "[] = js s \<longleftrightarrow> s = []"
  by (auto simp: js_def)

lemma js_append: "js s @ js t = js (s @ t)"
  by (simp add: js_def)

lemma length_js [simp]: "length (js s) = length s"
  by (simp add: js_def)

text \<open>
  Templates are concatenations. Two templates that start with different literals differ; the
  literals are compared unit by unit.
\<close>

lemma js_Cons_append_eq [str_simps]:
  "js (c # cs) @ xs = js (d # ds) @ ys \<longleftrightarrow> c = d \<and> js cs @ xs = js ds @ ys"
  by (simp add: js_Cons)

lemma js_Cons_append_eq_js [str_simps]:
  "js (c # cs) @ xs = js (d # ds) \<longleftrightarrow> c = d \<and> js cs @ xs = js ds"
  "js (d # ds) = js (c # cs) @ xs \<longleftrightarrow> c = d \<and> js cs @ xs = js ds"
  by (auto simp: js_Cons)

lemma js_Nil_append [simp]: "js [] @ xs = xs"
  by (simp add: js_Nil)

text \<open>\<open>endsWith\<close> one literal unit, \<open>startsWith\<close> (\<^const>\<open>prefix\<close>) and \<open>slice(0, -1)\<close>.\<close>

definition star :: u16 where
  "star = unit_of (CHR ''*'')"

definition ends_with_star :: "jstr \<Rightarrow> bool" where
  "ends_with_star s \<longleftrightarrow> s \<noteq> [] \<and> last s = star"

lemma ends_with_star_iff: "ends_with_star s \<longleftrightarrow> (\<exists>p. s = p @ [star])"
  by (cases s rule: rev_cases) (auto simp: ends_with_star_def)

lemma ends_with_star_snoc [simp]: "ends_with_star (p @ [star])"
  by (simp add: ends_with_star_def)

lemma not_ends_with_star_Nil [simp]: "\<not> ends_with_star []"
  by (simp add: ends_with_star_def)

text \<open>A value between single quotes in a message.\<close>

definition quoted :: "jstr \<Rightarrow> jstr" where
  "quoted s = js [CHR 0x27] @ s @ js [CHR 0x27]"

text \<open>\<open>s.split(c)\<close> on a one-unit separator, and the inverse \<open>join\<close>.\<close>

fun split_on :: "'a \<Rightarrow> 'a list \<Rightarrow> 'a list list" where
  "split_on c [] = [[]]"
| "split_on c (x # xs) =
     (if x = c then [] # split_on c xs
      else case split_on c xs of [] \<Rightarrow> [[x]] | s # ss \<Rightarrow> (x # s) # ss)"

fun join_with :: "'a list \<Rightarrow> 'a list list \<Rightarrow> 'a list" where
  "join_with sep [] = []"
| "join_with sep [s] = s"
| "join_with sep (s # ss) = s @ sep @ join_with sep ss"

lemma split_on_not_Nil [simp]: "split_on c xs \<noteq> []"
  by (cases xs) (auto split: list.splits)

lemma join_split [simp]: "join_with [c] (split_on c xs) = xs"
proof (induction xs)
  case (Cons x xs)
  obtain s ss where s: "split_on c xs = s # ss"
    by (cases "split_on c xs") auto
  show ?case
    using Cons s by (cases ss) auto
qed simp

lemma split_on_no_sep: "s \<in> set (split_on c xs) \<Longrightarrow> c \<notin> set s"
  by (induction xs arbitrary: s) (force split: if_splits list.splits)+

lemma split_on_single: "c \<notin> set s \<Longrightarrow> split_on c s = [s]"
  by (induction s) auto

lemma split_on_append: "c \<notin> set s \<Longrightarrow> split_on c (s @ c # t) = s # split_on c t"
  by (induction s) auto

lemma split_join:
  "ss \<noteq> [] \<Longrightarrow> \<forall>s \<in> set ss. c \<notin> set s \<Longrightarrow> split_on c (join_with [c] ss) = ss"
  by (induction "[c]" ss rule: join_with.induct) (auto simp: split_on_single split_on_append)

text \<open>\<open>indexOf(needle)\<close>: the start of the first occurrence.\<close>

fun index_of :: "'a list \<Rightarrow> 'a list \<Rightarrow> nat option" where
  "index_of pat [] = (if pat = [] then Some 0 else None)"
| "index_of pat (x # xs) =
     (if prefix pat (x # xs) then Some 0 else map_option Suc (index_of pat xs))"

lemma index_of_Some:
  "index_of pat xs = Some i \<Longrightarrow> prefix pat (drop i xs) \<and> (\<forall>j < i. \<not> prefix pat (drop j xs))"
proof (induction xs arbitrary: i)
  case (Cons x xs)
  show ?case
  proof (cases "prefix pat (x # xs)")
    case False
    with Cons.prems obtain k where k: "index_of pat xs = Some k" "i = Suc k" by auto
    show ?thesis
    proof (intro conjI allI impI)
      fix j assume "j < i"
      with False Cons.IH[OF k(1)] k(2) show "\<not> prefix pat (drop j (x # xs))"
        by (cases j) auto
    qed (use Cons.IH[OF k(1)] k(2) in simp)
  qed (use Cons.prems in auto)
qed (auto split: if_splits)

lemma index_of_None: "index_of pat xs = None \<longleftrightarrow> \<not> sublist pat xs"
  by (induction xs) (auto simp: sublist_Cons_right)

lemma index_of_first:
  assumes "prefix pat (drop i xs)" and "i \<le> length xs" and "\<forall>j < i. \<not> prefix pat (drop j xs)"
  shows "index_of pat xs = Some i"
  using assms
proof (induction xs arbitrary: i)
  case (Cons x xs)
  show ?case
  proof (cases i)
    case (Suc k)
    have "\<forall>j < k. \<not> prefix pat (drop j xs)"
      using Cons.prems(3) Suc by (metis Suc_less_eq drop_Suc_Cons)
    then have "index_of pat xs = Some k"
      using Cons.IH Cons.prems(1,2) Suc by auto
    moreover have "\<not> prefix pat (x # xs)" using Cons.prems(3) Suc by (metis drop0 zero_less_Suc)
    ultimately show ?thesis using Suc by simp
  qed (use Cons.prems in simp)
qed auto

section \<open>Sets and maps\<close>

text \<open>\<open>[...new Set(xs)].sort(compareAsText)\<close>.\<close>

definition sort_unique :: "'a::linorder list \<Rightarrow> 'a list" where
  "sort_unique xs = sort (remdups xs)"

lemma set_sort_unique [simp]: "set (sort_unique xs) = set xs"
  by (simp add: sort_unique_def)

lemma sorted_sort_unique [simp]: "sorted (sort_unique xs)"
  and distinct_sort_unique [simp]: "distinct (sort_unique xs)"
  by (simp_all add: sort_unique_def)

lemma sort_unique_cong: "set xs = set ys \<Longrightarrow> sort_unique xs = sort_unique ys"
  by (rule sorted_distinct_set_unique) (auto simp: sort_unique_def)

lemma sort_unique_Nil_iff [simp]: "sort_unique xs = [] \<longleftrightarrow> xs = []"
  by (metis set_empty2 set_sort_unique)

lemma sort_unique_id: "sorted xs \<Longrightarrow> distinct xs \<Longrightarrow> sort_unique xs = xs"
  by (simp add: sort_unique_def distinct_remdups_id sorted_sort_id)

abbreviation has_own :: "('k \<times> 'v) list \<Rightarrow> 'k \<Rightarrow> bool" where
  "has_own m k \<equiv> map_of m k \<noteq> None"

text \<open>\<open>x !== undefined && P(x)\<close>.\<close>

definition some_with :: "'a option \<Rightarrow> ('a \<Rightarrow> bool) \<Rightarrow> bool" where
  "some_with x P = (case x of None \<Rightarrow> False | Some a \<Rightarrow> P a)"

lemma some_with_iff [simp]: "some_with x P \<longleftrightarrow> (\<exists>a. x = Some a \<and> P a)"
  by (simp add: some_with_def split: option.split)

definition keys :: "('k \<times> 'v) list \<Rightarrow> 'k list" where
  "keys m = map fst m"

abbreviation wf_map :: "('k \<times> 'v) list \<Rightarrow> bool" where
  "wf_map m \<equiv> distinct (map fst m)"

lemma in_keys_iff: "k \<in> set (keys m) \<longleftrightarrow> map_of m k \<noteq> None"
  by (simp add: keys_def map_of_eq_None_iff)

lemma keys_update: "k \<in> set (map fst m) \<Longrightarrow> map fst (AList.update k v m) = map fst m"
  by (simp add: update_keys)

lemma keys_update_new: "k \<notin> set (map fst m) \<Longrightarrow> AList.update k v m = m @ [(k, v)]"
  by (induction m) auto

lemma length_update: "wf_map m \<Longrightarrow>
    length (AList.update k v m) = (if has_own m k then length m else Suc (length m))"
  by (induction m) (auto dest: map_of_SomeD simp: image_iff)

lemma map_of_update [simp]: "map_of (AList.update k v m) = (map_of m)(k \<mapsto> v)"
  by (simp add: update_conv')

lemma map_of_delete [simp]: "map_of (AList.delete k m) = (map_of m)(k := None)"
  by (simp add: delete_conv')

lemma wf_map_update [simp]: "wf_map m \<Longrightarrow> wf_map (AList.update k v m)"
  by (rule distinct_update)

lemma wf_map_delete [simp]: "wf_map m \<Longrightarrow> wf_map (AList.delete k m)"
  by (rule distinct_delete)

lemma find_Some_first: "find P xs = Some x \<Longrightarrow> P x \<and> x \<in> set xs"
  by (induction xs) (auto split: if_splits)

lemma list_ex_map_filter [simp]: "list_ex P (map f xs) = list_ex (P \<circ> f) xs"
  by (induction xs) auto

text \<open>The literals that templates and comparisons use unfold with these.\<close>

lemmas js_unfold = js_def unit_of_Char

end
