(* ===== verification/Policy_Types.thy ===== *)
theory Policy_Types
  imports Prelude
begin

text \<open>
  The parsed policy document (\<open>policy/schema.ts\<close>), the tool classes and the quarantine states, with
  the literals they print as. \<open>onQuarantined\<close> keeps the whole outcome type and its absence, as
  \<open>decide.ts\<close> reads it, although the schema only admits two of the values.
\<close>

datatype outcome = Allow | Deny | RequireApproval

datatype tool_class = ReadClass | WriteClass | DestructiveClass

datatype quarantine_state = Known | New | Changed | Unknown

datatype surface_delta = Widened | Narrowed | DChanged | Neutral

fun outcome_str :: "outcome \<Rightarrow> jstr" where
  "outcome_str Allow = js ''allow''"
| "outcome_str Deny = js ''deny''"
| "outcome_str RequireApproval = js ''require-approval''"

fun class_str :: "tool_class \<Rightarrow> jstr" where
  "class_str ReadClass = js ''read''"
| "class_str WriteClass = js ''write''"
| "class_str DestructiveClass = js ''destructive''"

fun state_str :: "quarantine_state \<Rightarrow> jstr" where
  "state_str Known = js ''known''"
| "state_str New = js ''new''"
| "state_str Changed = js ''changed''"
| "state_str Unknown = js ''unknown''"

fun delta_str :: "surface_delta \<Rightarrow> jstr" where
  "delta_str Widened = js ''widened''"
| "delta_str Narrowed = js ''narrowed''"
| "delta_str DChanged = js ''changed''"
| "delta_str Neutral = js ''neutral''"

record class_defaults =
  cd_read :: "outcome option"
  cd_write :: "outcome option"
  cd_destructive :: "outcome option"

fun class_default :: "class_defaults \<Rightarrow> tool_class \<Rightarrow> outcome option" where
  "class_default d ReadClass = cd_read d"
| "class_default d WriteClass = cd_write d"
| "class_default d DestructiveClass = cd_destructive d"

record server_policy =
  sp_default :: "outcome option"
  sp_class_overrides :: "(jstr \<times> tool_class) list option"
  sp_tools :: "(jstr \<times> outcome) list option"
  sp_confirm :: "(jstr \<times> jstr list) list option"

record policy =
  default_decision :: outcome
  class_defaults :: "class_defaults option"
  quarantine_enabled :: bool
  on_quarantined :: "outcome option"
  hide_denied :: bool
  approval_timeout :: "nat option"
  fail_closed :: bool
  servers :: "(jstr \<times> server_policy) list option"

text \<open>\<open>policy.servers?.[serverName]\<close> and its optional members.\<close>

definition server_entry :: "policy \<Rightarrow> jstr \<Rightarrow> server_policy option" where
  "server_entry p s = Option.bind (servers p) (\<lambda>m. map_of m s)"

definition tool_rules :: "policy \<Rightarrow> jstr \<Rightarrow> (jstr \<times> outcome) list option" where
  "tool_rules p s = Option.bind (server_entry p s) sp_tools"

definition class_overrides :: "policy \<Rightarrow> jstr \<Rightarrow> (jstr \<times> tool_class) list option" where
  "class_overrides p s = Option.bind (server_entry p s) sp_class_overrides"

text \<open>Tool classes ordered by risk, and outcomes by strictness.\<close>

fun class_rank :: "tool_class \<Rightarrow> nat" where
  "class_rank ReadClass = 0"
| "class_rank WriteClass = 1"
| "class_rank DestructiveClass = 2"

fun outcome_rank :: "outcome \<Rightarrow> nat" where
  "outcome_rank Allow = 0"
| "outcome_rank RequireApproval = 1"
| "outcome_rank Deny = 2"

instantiation tool_class :: linorder
begin

definition less_eq_tool_class :: "tool_class \<Rightarrow> tool_class \<Rightarrow> bool" where
  "a \<le> b \<longleftrightarrow> class_rank a \<le> class_rank b"

definition less_tool_class :: "tool_class \<Rightarrow> tool_class \<Rightarrow> bool" where
  "a < b \<longleftrightarrow> class_rank a < class_rank b"

instance
proof
  fix a b :: tool_class
  show "a \<le> b \<Longrightarrow> b \<le> a \<Longrightarrow> a = b"
    by (cases a; cases b) (simp_all add: less_eq_tool_class_def)
qed (auto simp: less_eq_tool_class_def less_tool_class_def)

end

instantiation outcome :: linorder
begin

definition less_eq_outcome :: "outcome \<Rightarrow> outcome \<Rightarrow> bool" where
  "a \<le> b \<longleftrightarrow> outcome_rank a \<le> outcome_rank b"

definition less_outcome :: "outcome \<Rightarrow> outcome \<Rightarrow> bool" where
  "a < b \<longleftrightarrow> outcome_rank a < outcome_rank b"

instance
proof
  fix a b :: outcome
  show "a \<le> b \<Longrightarrow> b \<le> a \<Longrightarrow> a = b"
    by (cases a; cases b) (simp_all add: less_eq_outcome_def)
qed (auto simp: less_eq_outcome_def less_outcome_def)

end

lemma outcome_not_allow: "o' \<noteq> Allow \<longleftrightarrow> RequireApproval \<le> o'"
  by (cases o') (simp_all add: less_eq_outcome_def)

lemma outcome_str_inject [simp]: "outcome_str a = outcome_str b \<longleftrightarrow> a = b"
  by (cases a; cases b) simp_all

lemma class_str_inject [simp]: "class_str a = class_str b \<longleftrightarrow> a = b"
  by (cases a; cases b) simp_all

end
