(* ===== verification/Policy_Match.thy ===== *)
theory Policy_Match
  imports Prelude
begin

text \<open>
  Rule matching by tool name: \<open>policy/match.ts\<close> (\<open>matchToolRule\<close>), the private copy of it in
  \<open>policy/classify-tool.ts\<close> (\<open>matchOverride\<close>) and the pattern test of
  \<open>policy/confirm-in-client.ts\<close> (\<open>coversTool\<close>). The longest-prefix rule is stated against an
  order-free description, and the two implementations are shown to agree.
\<close>

section \<open>The matcher\<close>

record 'a rule_match =
  rm_value :: 'a
  rm_pattern :: jstr

text \<open>
  The loop of \<open>matchToolRule\<close>: \<open>best\<close> with the length of its prefix, \<open>bestPrefixLength\<close>
  starting at -1.
\<close>

fun match_loop ::
  "jstr \<Rightarrow> (jstr \<times> 'a) list \<Rightarrow> 'a rule_match option \<Rightarrow> int \<Rightarrow> 'a rule_match option" where
  "match_loop tool [] best len = best"
| "match_loop tool ((pattern, value) # rest) best len =
     (if \<not> ends_with_star pattern then match_loop tool rest best len
      else let pre = butlast pattern in
        if \<not> prefix pre tool then match_loop tool rest best len
        else if int (length pre) \<le> len then match_loop tool rest best len
        else match_loop tool rest (Some \<lparr>rm_value = value, rm_pattern = pattern\<rparr>) (int (length pre)))"

definition matchToolRule :: "(jstr \<times> 'a) list option \<Rightarrow> jstr \<Rightarrow> 'a rule_match option" where
  "matchToolRule rules tool =
     (case rules of
        None \<Rightarrow> None
      | Some rs \<Rightarrow>
          (case map_of rs tool of
             Some v \<Rightarrow> Some \<lparr>rm_value = v, rm_pattern = tool\<rparr>
           | None \<Rightarrow> match_loop tool rs None (- 1)))"

text \<open>\<open>coversTool\<close>: an exact name, or one trailing star matching a prefix.\<close>

definition coversTool :: "jstr \<Rightarrow> jstr \<Rightarrow> bool" where
  "coversTool pattern tool \<longleftrightarrow>
     (if ends_with_star pattern then prefix (butlast pattern) tool else pattern = tool)"

text \<open>\<open>matchOverride\<close>: the same search, keeping the value only.\<close>

fun override_loop :: "jstr \<Rightarrow> (jstr \<times> 'a) list \<Rightarrow> int \<Rightarrow> 'a option \<Rightarrow> 'a option" where
  "override_loop tool [] len best = best"
| "override_loop tool ((key, value) # rest) len best =
     (if \<not> ends_with_star key then override_loop tool rest len best
      else let pre = butlast key in
        if prefix pre tool \<and> int (length pre) > len
        then override_loop tool rest (int (length pre)) (Some value)
        else override_loop tool rest len best)"

definition matchOverride :: "(jstr \<times> 'a) list option \<Rightarrow> jstr \<Rightarrow> 'a option" where
  "matchOverride overrides tool =
     (case overrides of
        None \<Rightarrow> None
      | Some os \<Rightarrow>
          (case map_of os tool of
             Some v \<Rightarrow> Some v
           | None \<Rightarrow> override_loop tool os (- 1) None))"

section \<open>The order-free description\<close>

text \<open>A glob entry that covers the tool, and the best of them.\<close>

definition glob_covers :: "jstr \<Rightarrow> jstr \<Rightarrow> bool" where
  "glob_covers tool pattern \<longleftrightarrow> ends_with_star pattern \<and> prefix (butlast pattern) tool"

lemma glob_covers_eq_length:
  assumes "glob_covers tool p" and "glob_covers tool q" and "length p = length q"
  shows "p = q"
proof -
  from assms(1,2) obtain a b where ab: "p = a @ [star]" "q = b @ [star]"
    by (auto simp: glob_covers_def ends_with_star_iff)
  with assms have "prefix a tool" "prefix b tool" "length a = length b"
    by (auto simp: glob_covers_def)
  then have "a = b" by (metis prefix_length_prefix prefix_order.antisym order_refl)
  with ab show ?thesis by simp
qed

lemma match_loop_Cons:
  "match_loop tool ((p, v) # rest) best len =
     (if glob_covers tool p \<and> int (length p) - 1 > len
      then match_loop tool rest (Some \<lparr>rm_value = v, rm_pattern = p\<rparr>) (int (length p) - 1)
      else match_loop tool rest best len)"
  by (auto simp: glob_covers_def Let_def ends_with_star_iff)

lemma override_loop_Cons:
  "override_loop tool ((p, v) # rest) len best =
     (if glob_covers tool p \<and> int (length p) - 1 > len
      then override_loop tool rest (int (length p) - 1) (Some v)
      else override_loop tool rest len best)"
  by (auto simp: glob_covers_def Let_def ends_with_star_iff)

declare match_loop.simps(2) [simp del] match_loop_Cons [simp]
declare override_loop.simps(2) [simp del] override_loop_Cons [simp]

lemma override_loop_eq:
  "override_loop tool rs len (map_option rm_value best) = map_option rm_value (match_loop tool rs best len)"
proof (induction rs arbitrary: best len)
  case (Cons r rs)
  obtain p v where r: "r = (p, v)" by (cases r)
  show ?case
    using Cons[where best = "Some \<lparr>rm_value = v, rm_pattern = p\<rparr>" and len = "int (length p) - 1"]
      Cons[where best = best and len = len] by (simp add: r)
qed simp

lemma match_loop_sound:
  "match_loop tool rs best len = Some m \<Longrightarrow>
    best = Some m \<or>
    (rm_pattern m, rm_value m) \<in> set rs \<and> glob_covers tool (rm_pattern m)"
  by (induction rs arbitrary: best len) (simp, fastforce split: if_splits)

lemma match_loop_found [simp]: "match_loop tool rs (Some b) len \<noteq> None"
  by (induction rs arbitrary: b len) (auto split: if_splits)

lemma match_loop_None:
  "match_loop tool rs None len = None \<Longrightarrow>
    (p, v) \<in> set rs \<Longrightarrow> glob_covers tool p \<Longrightarrow> int (length p) - 1 \<le> len"
  by (induction rs) (auto split: if_splits)

lemma match_loop_longest:
  "match_loop tool rs best len = Some m \<Longrightarrow>
    \<forall>b. best = Some b \<longrightarrow> int (length (rm_pattern b)) - 1 = len \<Longrightarrow>
    (\<forall>(p, v) \<in> set rs. glob_covers tool p \<longrightarrow> int (length p) - 1 \<le> len \<or> length p \<le> length (rm_pattern m))
    \<and> (best \<noteq> None \<longrightarrow> len \<le> int (length (rm_pattern m)) - 1)"
proof (induction rs arbitrary: best len)
  case (Cons r rs)
  obtain p v where r: "r = (p, v)" by (cases r)
  show ?case
  proof (cases "glob_covers tool p \<and> int (length p) - 1 > len")
    case True
    with Cons.prems(1) r have
      "match_loop tool rs (Some \<lparr>rm_value = v, rm_pattern = p\<rparr>) (int (length p) - 1) = Some m" by simp
    from Cons.IH[OF this] have
      "(\<forall>(q, w) \<in> set rs. glob_covers tool q \<longrightarrow> int (length q) - 1 \<le> int (length p) - 1
          \<or> length q \<le> length (rm_pattern m))
       \<and> int (length p) - 1 \<le> int (length (rm_pattern m)) - 1" by simp
    with True r show ?thesis by force
  next
    case False
    with Cons r show ?thesis by auto
  qed
qed simp

lemma length_butlast_ge: "glob_covers tool p \<Longrightarrow> 0 \<le> int (length p) - 1"
  by (auto simp: glob_covers_def ends_with_star_iff)

text \<open>
  The declarative description: an exact entry wins; otherwise the value belongs to a covering glob
  entry and no covering glob entry has a longer pattern.
\<close>

definition best_rule :: "(jstr \<times> 'a) list \<Rightarrow> jstr \<Rightarrow> 'a rule_match \<Rightarrow> bool" where
  "best_rule rs tool m \<longleftrightarrow>
     (if tool \<in> fst ` set rs then rm_pattern m = tool \<and> map_of rs tool = Some (rm_value m)
      else (rm_pattern m, rm_value m) \<in> set rs \<and> glob_covers tool (rm_pattern m)
        \<and> (\<forall>(p, v) \<in> set rs. glob_covers tool p \<longrightarrow> length p \<le> length (rm_pattern m)))"

definition some_rule :: "(jstr \<times> 'a) list \<Rightarrow> jstr \<Rightarrow> bool" where
  "some_rule rs tool \<longleftrightarrow> (\<exists>p \<in> fst ` set rs. p = tool \<or> glob_covers tool p)"

lemma matchToolRule_best: "matchToolRule (Some rs) tool = Some m \<Longrightarrow> best_rule rs tool m"
proof (cases "map_of rs tool")
  case None
  assume "matchToolRule (Some rs) tool = Some m"
  with None have *: "match_loop tool rs None (- 1) = Some m" by (simp add: matchToolRule_def)
  have "tool \<notin> fst ` set rs" using None by (simp add: map_of_eq_None_iff)
  with match_loop_sound[OF *] match_loop_longest[OF *] show ?thesis
    by (force simp: best_rule_def dest: length_butlast_ge)
next
  case (Some v)
  assume "matchToolRule (Some rs) tool = Some m"
  with Some show ?thesis
    by (auto simp: matchToolRule_def best_rule_def dest: map_of_SomeD intro: rev_image_eqI)
qed

lemma matchToolRule_None_iff: "matchToolRule (Some rs) tool = None \<longleftrightarrow> \<not> some_rule rs tool"
proof
  assume none: "matchToolRule (Some rs) tool = None"
  then have "map_of rs tool = None" and "match_loop tool rs None (- 1) = None"
    by (auto simp: matchToolRule_def split: option.splits)
  with match_loop_None[of tool rs "- 1"] show "\<not> some_rule rs tool"
    by (force simp: some_rule_def map_of_eq_None_iff dest: length_butlast_ge)
next
  assume "\<not> some_rule rs tool"
  then have "map_of rs tool = None" and none: "\<forall>(p, v) \<in> set rs. \<not> glob_covers tool p"
    by (auto simp: some_rule_def map_of_eq_None_iff)
  moreover have "match_loop tool rs None (- 1) = None"
    using match_loop_sound[of tool rs None "- 1"] none by (cases "match_loop tool rs None (- 1)") auto
  ultimately show "matchToolRule (Some rs) tool = None" by (simp add: matchToolRule_def)
qed

lemma best_rule_unique:
  assumes "wf_map rs" and "best_rule rs tool m" and "best_rule rs tool m'"
  shows "m = m'"
proof -
  have pat: "rm_pattern m = rm_pattern m'"
  proof (cases "tool \<in> fst ` set rs")
    case False
    with assms(2,3) have g: "glob_covers tool (rm_pattern m)" "glob_covers tool (rm_pattern m')"
      and mem: "(rm_pattern m, rm_value m) \<in> set rs" "(rm_pattern m', rm_value m') \<in> set rs"
      by (auto simp: best_rule_def)
    have "length (rm_pattern m') \<le> length (rm_pattern m)" "length (rm_pattern m) \<le> length (rm_pattern m')"
      using assms(2,3) False g mem by (fastforce simp: best_rule_def)+
    with g show ?thesis by (auto intro: glob_covers_eq_length)
  qed (use assms in \<open>simp add: best_rule_def\<close>)
  have "rm_value m = rm_value m'"
    using assms pat by (auto simp: best_rule_def split: if_splits dest: eq_key_imp_eq_value)
  with pat show ?thesis by simp
qed

text \<open>
  So the result does not depend on the order of the keys, although the loop reads them in order:
  two well-formed maps with the same entries give the same match.
\<close>

lemma matchToolRule_order_free:
  assumes "wf_map rs" and "wf_map rs'" and "set rs = set rs'"
  shows "matchToolRule (Some rs) tool = matchToolRule (Some rs') tool"
proof -
  have same: "some_rule rs tool = some_rule rs' tool" using assms(3) by (simp add: some_rule_def)
  have best: "best_rule rs' tool m = best_rule rs tool m" for m
    using assms map_of_inject_set[OF assms(1,2)] by (auto simp: best_rule_def)
  show ?thesis
  proof (cases "matchToolRule (Some rs) tool")
    case None
    with same show ?thesis by (metis matchToolRule_None_iff)
  next
    case (Some m)
    with same obtain m' where m': "matchToolRule (Some rs') tool = Some m'"
      by (metis matchToolRule_None_iff not_None_eq)
    from matchToolRule_best[OF Some] matchToolRule_best[OF m'] best assms(1)
    have "m = m'" by (auto intro: best_rule_unique)
    with Some m' show ?thesis by simp
  qed
qed

lemma matchToolRule_exact: "map_of rs tool = Some v \<Longrightarrow>
    matchToolRule (Some rs) tool = Some \<lparr>rm_value = v, rm_pattern = tool\<rparr>"
  by (simp add: matchToolRule_def)

lemma matchToolRule_pattern:
  "matchToolRule (Some rs) tool = Some m \<Longrightarrow> rm_pattern m = tool \<or> ends_with_star (rm_pattern m)"
  by (drule matchToolRule_best) (auto simp: best_rule_def glob_covers_def split: if_splits)

lemma matchToolRule_entry:
  "matchToolRule (Some rs) tool = Some m \<Longrightarrow> (rm_pattern m, rm_value m) \<in> set rs"
  by (drule matchToolRule_best) (auto simp: best_rule_def split: if_splits dest: map_of_SomeD)

lemma matchToolRule_covers:
  "matchToolRule (Some rs) tool = Some m \<Longrightarrow> rm_pattern m = tool \<or> glob_covers tool (rm_pattern m)"
  by (drule matchToolRule_best) (auto simp: best_rule_def split: if_splits)

lemma matchToolRule_undefined [simp]: "matchToolRule None tool = None"
  by (simp add: matchToolRule_def)

text \<open>The private copy in the classifier agrees with the shared matcher on every map.\<close>

lemma matchOverride_eq: "matchOverride os tool = map_option rm_value (matchToolRule os tool)"
  using override_loop_eq[of tool _ "- 1" None]
  by (auto simp: matchOverride_def matchToolRule_def split: option.splits)

end
