(* ===== verification/Text.thy ===== *)
theory Text
  imports Prelude
begin

text \<open>
  Operations on strings that several components share: character classes of their regular
  expressions, insertion at camel-case steps and splitting at runs of separators. The Unicode tables
  behind \<open>normalize('NFKC')\<close>, \<open>toLowerCase()\<close> and \<open>\p{...}\<close> belong to the runtime and come in
  as the record \<open>unicode\<close>.
\<close>

record unicode =
  nfkc :: "jstr \<Rightarrow> jstr"
  strip_evasion :: "jstr \<Rightarrow> jstr"
  to_lower :: "jstr \<Rightarrow> jstr"

section \<open>Definitions\<close>

definition in_range :: "char \<Rightarrow> char \<Rightarrow> u16 \<Rightarrow> bool" where
  "in_range a b c \<longleftrightarrow> unit_of a \<le> c \<and> c \<le> unit_of b"

definition lower_or_digit :: "u16 \<Rightarrow> bool" where
  "lower_or_digit c \<longleftrightarrow> in_range (CHR ''a'') (CHR ''z'') c \<or> in_range (CHR ''0'') (CHR ''9'') c"

definition upper :: "u16 \<Rightarrow> bool" where
  "upper c \<longleftrightarrow> in_range (CHR ''A'') (CHR ''Z'') c"

text \<open>The units \<open>\s\<close> matches.\<close>

definition js_space :: "u16 \<Rightarrow> bool" where
  "js_space c \<longleftrightarrow> 9 \<le> c \<and> c \<le> 13 \<or> c = 32 \<or> c = 0xa0 \<or> c = 0x1680 \<or> 0x2000 \<le> c \<and> c \<le> 0x200a
     \<or> c = 0x2028 \<or> c = 0x2029 \<or> c = 0x202f \<or> c = 0x205f \<or> c = 0x3000 \<or> c = 0xfeff"

text \<open>
  \<open>replace(/([a-z0-9])([A-Z])/g, '$1_$2')\<close> with the unit that is inserted; matches do not overlap.
\<close>

fun camel_with :: "u16 \<Rightarrow> jstr \<Rightarrow> jstr" where
  "camel_with sep (x # y # rest) =
     (if lower_or_digit x \<and> upper y then x # sep # y # camel_with sep rest
      else x # camel_with sep (y # rest))"
| "camel_with sep xs = xs"

text \<open>\<open>split(/[_\-.:\s]+/)\<close>: a maximal run of separators is one split point.\<close>

function split_runs :: "(u16 \<Rightarrow> bool) \<Rightarrow> jstr \<Rightarrow> jstr list" where
  "split_runs sep xs =
     (case dropWhile (\<lambda>c. \<not> sep c) xs of
        [] \<Rightarrow> [xs]
      | _ # rest \<Rightarrow> takeWhile (\<lambda>c. \<not> sep c) xs # split_runs sep (dropWhile sep rest))"
  by pat_completeness auto
termination
proof (relation "measure (length \<circ> snd)", goal_cases)
  case (2 sep xs x rest)
  have "length (dropWhile sep rest) \<le> length rest" by (rule length_dropWhile_le)
  also have "length rest < length (dropWhile (\<lambda>c. \<not> sep c) xs)" using 2 by simp
  also have "\<dots> \<le> length xs" by (rule length_dropWhile_le)
  finally show ?case by simp
qed simp

declare split_runs.simps [simp del]

definition ascii_lower :: "u16 \<Rightarrow> u16" where
  "ascii_lower c = (if upper c then c + 32 else c)"

text \<open>The Unicode operations restricted to what the examples need.\<close>

definition ascii_unicode :: unicode where
  "ascii_unicode = \<lparr>nfkc = (\<lambda>s. s), strip_evasion = filter (\<lambda>c. \<not> (0x300 \<le> c \<and> c \<le> 0x36f \<or> c = 0x200b)),
     to_lower = map ascii_lower\<rparr>"

definition js_trim :: "jstr \<Rightarrow> jstr" where
  "js_trim s = rev (dropWhile js_space (rev (dropWhile js_space s)))"

text \<open>\<open>text.split(needle).join(replacement)\<close> for a nonempty needle: every occurrence, from the left.\<close>

function replace_all :: "'a list \<Rightarrow> 'a list \<Rightarrow> 'a list \<Rightarrow> 'a list" where
  "replace_all needle rep [] = []"
| "replace_all needle rep (x # xs) =
     (if needle \<noteq> [] \<and> prefix needle (x # xs)
      then rep @ replace_all needle rep (drop (length needle) (x # xs))
      else x # replace_all needle rep xs)"
  by pat_completeness auto
termination
  by (relation "measure (\<lambda>(needle, rep, xs). length xs)") (auto simp: neq_Nil_conv)

text \<open>\<open>String(n)\<close> for a nonnegative integer, and reading it back.\<close>

definition digit :: "nat \<Rightarrow> u16" where
  "digit d = word_of_nat (48 + d)"

fun decimal :: "nat \<Rightarrow> jstr" where
  "decimal n = (if n < 10 then [digit n] else decimal (n div 10) @ [digit (n mod 10)])"

declare decimal.simps [simp del]

definition decimal_value :: "jstr \<Rightarrow> nat" where
  "decimal_value s = foldl (\<lambda>a c. 10 * a + (unat c - 48)) 0 s"

lemma unat_digit: "d < 10 \<Longrightarrow> unat (digit d) = 48 + d"
proof -
  assume "d < 10"
  then have "(48 + d) mod 2 ^ 16 = 48 + d" by simp
  then show ?thesis unfolding digit_def by (simp only: unat_of_nat len_num0 len_of_numeral_defs) simp
qed

lemma decimal_value_decimal [simp]: "decimal_value (decimal n) = n"
  by (induction n rule: decimal.induct)
    (subst decimal.simps, auto simp: decimal_value_def unat_digit)

lemma decimal_eq_iff [simp]: "decimal m = decimal n \<longleftrightarrow> m = n"
  by (metis decimal_value_decimal)

section \<open>Splitting and camel-case steps\<close>

lemma split_runs_no_sep: "\<forall>c \<in> set xs. \<not> sep c \<Longrightarrow> split_runs sep xs = [xs]"
proof -
  assume "\<forall>c \<in> set xs. \<not> sep c"
  then have "dropWhile (\<lambda>c. \<not> sep c) xs = []" by simp
  then show ?thesis by (simp add: split_runs.simps[of sep xs] del: dropWhile_eq_Nil_conv)
qed

text \<open>The nonempty pieces are those of the split at every single separator.\<close>

fun pieces :: "('a \<Rightarrow> bool) \<Rightarrow> 'a list \<Rightarrow> 'a list \<Rightarrow> 'a list list" where
  "pieces sep cur [] = (if cur = [] then [] else [cur])"
| "pieces sep cur (x # xs) =
     (if sep x then (if cur = [] then [] else [cur]) @ pieces sep [] xs
      else pieces sep (cur @ [x]) xs)"

lemma pieces_take: "pieces sep cur xs =
    (case dropWhile (\<lambda>c. \<not> sep c) xs of
       [] \<Rightarrow> (if cur @ xs = [] then [] else [cur @ xs])
     | _ # rest \<Rightarrow> (let t = cur @ takeWhile (\<lambda>c. \<not> sep c) xs in (if t = [] then [] else [t]) @ pieces sep [] rest))"
  by (induction sep cur xs rule: pieces.induct)
    (auto simp: Let_def simp del: dropWhile_eq_Nil_conv split: list.split)

lemma pieces_dropWhile: "pieces sep [] (dropWhile sep xs) = pieces sep [] xs"
  by (induction xs) auto

lemma filter_split_runs: "filter (\<lambda>t. t \<noteq> []) (split_runs sep xs) = pieces sep [] xs"
proof (induction sep xs rule: split_runs.induct)
  case (1 sep xs)
  show ?case
  proof (cases "dropWhile (\<lambda>c. \<not> sep c) xs")
    case Nil
    then show ?thesis
      by (simp add: split_runs.simps[of sep xs] pieces_take[of sep "[]" xs] del: dropWhile_eq_Nil_conv)
  next
    case (Cons y rest)
    with 1 have "filter (\<lambda>t. t \<noteq> []) (split_runs sep (dropWhile sep rest)) = pieces sep [] rest"
      by (simp add: pieces_dropWhile)
    with Cons show ?thesis
      by (simp add: split_runs.simps[of sep xs] pieces_take[of sep "[]" xs] Let_def)
  qed
qed

lemma pieces_no_sep: "\<forall>c \<in> set t. \<not> sep c \<Longrightarrow> pieces sep cur (t @ xs) = pieces sep (cur @ t) xs"
  by (induction t arbitrary: cur) auto

lemma pieces_middle:
  assumes "t \<noteq> []" and "\<forall>c \<in> set t. \<not> sep c" and "xs = [] \<or> sep (hd xs)"
  shows "t \<in> set (pieces sep [] (t @ xs))"
proof (cases xs)
  case Nil
  then show ?thesis using assms pieces_no_sep[of t sep "[]" "[]"] by simp
qed (use assms in \<open>auto simp: pieces_no_sep\<close>)

lemma pieces_after:
  assumes "sep (last a)" and "a \<noteq> []"
  shows "set (pieces sep [] xs) \<subseteq> set (pieces sep cur (a @ xs))"
  using assms
proof (induction sep cur a rule: pieces.induct)
  case (2 sep cur x as)
  then show ?case by (cases "as = []") auto
qed simp

lemma token_between:
  assumes "t \<noteq> []" and "\<forall>c \<in> set t. \<not> sep c"
    and "a = [] \<or> sep (last a)" and "b = [] \<or> sep (hd b)"
  shows "t \<in> set (split_runs sep (a @ t @ b))"
proof -
  have "t \<in> set (pieces sep [] (t @ b))" using assms by (intro pieces_middle)
  moreover have "a \<noteq> [] \<Longrightarrow> set (pieces sep [] (t @ b)) \<subseteq> set (pieces sep [] (a @ t @ b))"
    using assms(3) by (intro pieces_after) auto
  ultimately have "t \<in> set (pieces sep [] (a @ t @ b))" by (cases "a = []") (simp, blast)
  then have "t \<in> set (filter (\<lambda>t. t \<noteq> []) (split_runs sep (a @ t @ b)))"
    by (simp only: filter_split_runs)
  then show ?thesis by simp
qed

lemma upper_not_lower: "upper c \<Longrightarrow> \<not> lower_or_digit c"
proof -
  have "unit_of (CHR ''A'') = 65" "unit_of (CHR ''Z'') = 90" "unit_of (CHR ''a'') = 97"
    "unit_of (CHR ''0'') = 48" "unit_of (CHR ''9'') = 57"
    by (simp_all add: unit_of_def)
  then show "upper c \<Longrightarrow> \<not> lower_or_digit c"
    by (auto simp: upper_def lower_or_digit_def in_range_def word_le_nat_alt)
qed

text \<open>The boundary between two parts of a name, and insertion as a homomorphism.\<close>

definition boundary :: "u16 \<Rightarrow> jstr \<Rightarrow> jstr \<Rightarrow> jstr" where
  "boundary sep xs ys =
     (if xs \<noteq> [] \<and> ys \<noteq> [] \<and> lower_or_digit (last xs) \<and> upper (hd ys) then [sep] else [])"

lemma camel_Cons: "camel_with sep (x # ys) = x # boundary sep [x] ys @ camel_with sep ys"
proof (cases ys)
  case (Cons y rest)
  then show ?thesis
    by (cases rest) (auto simp: boundary_def upper_not_lower)
qed (simp add: boundary_def)

lemma camel_append:
  "camel_with sep (xs @ ys) = camel_with sep xs @ boundary sep xs ys @ camel_with sep ys"
proof (induction xs)
  case (Cons x xs)
  show ?case
  proof (cases "xs = []")
    case True
    then show ?thesis using camel_Cons[of sep x ys] by simp
  next
    case False
    then have "boundary sep [x] (xs @ ys) = boundary sep [x] xs" "boundary sep (x # xs) ys = boundary sep xs ys"
      by (auto simp: boundary_def)
    with Cons show ?thesis using camel_Cons[of sep x "xs @ ys"] camel_Cons[of sep x xs] by simp
  qed
qed (simp add: boundary_def)

lemma camel_last: "xs \<noteq> [] \<Longrightarrow> camel_with sep xs \<noteq> [] \<and> last (camel_with sep xs) = last xs"
  by (induction sep xs rule: camel_with.induct) (auto simp: last_append)

lemma camel_hd: "xs \<noteq> [] \<Longrightarrow> hd (camel_with sep xs) = hd xs"
  by (cases xs) (auto simp: camel_Cons)

end
