(* ===== verification/Policy_Classify.thy ===== *)
theory Policy_Classify
  imports Policy_Types Policy_Match Text
begin

text \<open>
  \<open>policy/classify-tool.ts\<close>: the risk class of a tool from its name, its annotations and the
  operator's overrides. The Unicode tables behind \<open>normalize('NFKC')\<close>, \<open>toLowerCase()\<close> and the
  property classes of \<open>EVASION_CHARS_REGEX\<close> belong to the runtime and come in as the record
  \<open>unicode\<close>. The name is walked by UTF-16 code unit: every key of \<open>CONFUSABLE_FOLD\<close> is one unit,
  and a code point lies above \<open>0x7f\<close> exactly when one of its units does.
\<close>

record annotations =
  read_only_hint :: "bool option"
  destructive_hint :: "bool option"

record tool =
  t_name :: jstr
  t_annotations :: "annotations option"

section \<open>Character classes and tables\<close>

text \<open>The separators \<open>/[_\-.:\s]+/\<close>.\<close>

definition token_sep :: "u16 \<Rightarrow> bool" where
  "token_sep c \<longleftrightarrow> c \<in> set (js ''_-.:'') \<or> js_space c"

definition destructive_name_heuristics :: "jstr list" where
  "destructive_name_heuristics = map js
     [''delete'', ''drop'', ''remove'', ''purge'', ''truncate'', ''revoke'', ''destroy'', ''reset'',
      ''wipe'', ''erase'', ''rm'', ''overwrite'', ''kill'', ''shutdown'', ''chmod'', ''exec'',
      ''transfer'', ''send'', ''terminate'', ''force_'']"

definition confusable_fold :: "(u16 \<times> u16) list" where
  "confusable_fold =
     [(0x430, unit_of (CHR ''a'')), (0x435, unit_of (CHR ''e'')), (0x43e, unit_of (CHR ''o'')),
      (0x440, unit_of (CHR ''p'')), (0x441, unit_of (CHR ''c'')), (0x445, unit_of (CHR ''x'')),
      (0x443, unit_of (CHR ''y'')), (0x456, unit_of (CHR ''i'')), (0x455, unit_of (CHR ''s'')),
      (0x43a, unit_of (CHR ''k'')), (0x43c, unit_of (CHR ''m'')), (0x442, unit_of (CHR ''t'')),
      (0x3bd, unit_of (CHR ''v'')), (0x3bf, unit_of (CHR ''o'')), (0x3c1, unit_of (CHR ''p'')),
      (0x3c4, unit_of (CHR ''t'')), (0x3b9, unit_of (CHR ''i'')), (0x3ba, unit_of (CHR ''k''))]"

section \<open>The classifier\<close>

definition foldConfusables :: "jstr \<Rightarrow> jstr" where
  "foldConfusables name = map (\<lambda>c. case map_of confusable_fold c of Some a \<Rightarrow> a | None \<Rightarrow> c) name"

definition hasNonAsciiLetter :: "jstr \<Rightarrow> bool" where
  "hasNonAsciiLetter name \<longleftrightarrow> list_ex (\<lambda>c. c > 0x7f) name"

abbreviation underscore :: u16 where
  "underscore \<equiv> unit_of (CHR ''_'')"

abbreviation camel_boundaries :: "jstr \<Rightarrow> jstr" where
  "camel_boundaries \<equiv> camel_with (unit_of (CHR ''_''))"

definition tokenizeToolName :: "unicode \<Rightarrow> jstr \<Rightarrow> jstr list" where
  "tokenizeToolName u name =
     filter (\<lambda>t. length t > 0) (map (to_lower u) (split_runs token_sep (camel_boundaries name)))"

definition normalizeHeuristic :: "unicode \<Rightarrow> jstr \<Rightarrow> jstr" where
  "normalizeHeuristic u h =
     (if h \<noteq> [] \<and> last h = unit_of (CHR ''_'') then to_lower u (butlast h) else to_lower u h)"

definition tokensMatchHeuristic :: "unicode \<Rightarrow> jstr list \<Rightarrow> bool" where
  "tokensMatchHeuristic u tokens \<longleftrightarrow>
     list_ex (\<lambda>h. normalizeHeuristic u h \<in> set tokens) destructive_name_heuristics"

definition nameMatchesDestructiveHeuristic :: "unicode \<Rightarrow> jstr \<Rightarrow> bool" where
  "nameMatchesDestructiveHeuristic u normalized \<longleftrightarrow>
     (let stripped = strip_evasion u normalized in
      tokensMatchHeuristic u (tokenizeToolName u stripped) \<or>
      tokensMatchHeuristic u (tokenizeToolName u (foldConfusables stripped)))"

definition hinted :: "(annotations \<Rightarrow> bool option) \<Rightarrow> tool \<Rightarrow> bool" where
  "hinted field t \<longleftrightarrow> Option.bind (t_annotations t) field = Some True"

definition classifyTool :: "unicode \<Rightarrow> tool \<Rightarrow> (jstr \<times> tool_class) list option \<Rightarrow> tool_class" where
  "classifyTool u t overrides =
     (case matchOverride overrides (t_name t) of
        Some c \<Rightarrow> c
      | None \<Rightarrow>
          let normalized = nfkc u (t_name t);
              is_destructive = hinted destructive_hint t \<or> nameMatchesDestructiveHeuristic u normalized
          in if is_destructive then DestructiveClass
             else if hinted read_only_hint t \<and> \<not> hasNonAsciiLetter normalized then ReadClass
             else WriteClass)"

section \<open>Tokens\<close>

lemma underscore_sep [simp]: "token_sep (unit_of (CHR ''_''))"
  by (simp add: token_sep_def js_def)

text \<open>
  A word stands by itself in a name when a separator, an end of the name or a camel-case step
  bounds it on both sides.
\<close>

definition bounded_left :: "jstr \<Rightarrow> jstr \<Rightarrow> bool" where
  "bounded_left p w \<longleftrightarrow> p = [] \<or> token_sep (last p) \<or> boundary underscore p w \<noteq> []"

definition bounded_right :: "jstr \<Rightarrow> jstr \<Rightarrow> bool" where
  "bounded_right w s \<longleftrightarrow> s = [] \<or> token_sep (hd s) \<or> boundary underscore w s \<noteq> []"

lemma tokenize_word:
  assumes "w \<noteq> []" and "\<forall>c \<in> set w. \<not> token_sep c" and "camel_boundaries w = w"
    and "bounded_left p w" and "bounded_right w s" and "to_lower u w \<noteq> []"
  shows "to_lower u w \<in> set (tokenizeToolName u (p @ w @ s))"
proof -
  have bw: "boundary underscore p (w @ s) = boundary underscore p w" using assms(1) by (simp add: boundary_def)
  define a where "a = camel_boundaries p @ boundary underscore p w"
  define b where "b = boundary underscore w s @ camel_boundaries s"
  have eq: "camel_boundaries (p @ w @ s) = a @ w @ b"
    using assms(3) by (simp add: camel_append bw a_def b_def)
  have "a = [] \<or> token_sep (last a)"
  proof (cases "boundary underscore p w = []")
    case True
    then show ?thesis using assms(4) camel_last[of p] by (cases "p = []") (auto simp: bounded_left_def a_def)
  next
    case False
    then have "boundary underscore p w = [unit_of (CHR ''_'')]" by (auto simp: boundary_def split: if_splits)
    then show ?thesis by (simp add: a_def)
  qed
  moreover have "b = [] \<or> token_sep (hd b)"
  proof (cases "boundary underscore w s = []")
    case True
    then show ?thesis using assms(5) camel_hd[of s] by (cases "s = []") (auto simp: bounded_right_def b_def)
  next
    case False
    then have "boundary underscore w s = [unit_of (CHR ''_'')]" by (auto simp: boundary_def split: if_splits)
    then show ?thesis by (simp add: b_def)
  qed
  ultimately have "w \<in> set (split_runs token_sep (a @ w @ b))"
    using assms(1,2) by (intro token_between)
  then show ?thesis
    using assms(6) by (simp add: tokenizeToolName_def eq)
qed

section \<open>Properties\<close>

text \<open>What the classifier uses of \<open>toLowerCase()\<close>: on ASCII it maps A-Z to a-z.\<close>

definition ascii :: "jstr \<Rightarrow> bool" where
  "ascii s \<longleftrightarrow> \<not> hasNonAsciiLetter s"

definition lowers_ascii :: "unicode \<Rightarrow> bool" where
  "lowers_ascii u \<longleftrightarrow> (\<forall>s. ascii s \<longrightarrow> to_lower u s = map ascii_lower s)"

text \<open>The heuristic words with the trailing underscore of \<open>force_\<close> removed.\<close>

definition destructive_words :: "jstr list" where
  "destructive_words =
     map (\<lambda>h. if last h = unit_of (CHR ''_'') then butlast h else h) destructive_name_heuristics"

lemma destructive_words_ascii:
  "h \<in> set destructive_words \<Longrightarrow> h \<noteq> [] \<and> ascii h \<and> map ascii_lower h = h"
proof -
  have "list_all (\<lambda>h. h \<noteq> [] \<and> ascii h \<and> map ascii_lower h = h) destructive_words"
    by code_simp
  then show "h \<in> set destructive_words \<Longrightarrow> h \<noteq> [] \<and> ascii h \<and> map ascii_lower h = h"
    by (simp add: list_all_iff)
qed

lemma normalizeHeuristic_words:
  assumes "lowers_ascii u" and "h \<in> set destructive_words"
  shows "\<exists>k \<in> set destructive_name_heuristics. normalizeHeuristic u k = h"
proof -
  from assms(2) obtain k where k: "k \<in> set destructive_name_heuristics"
      "h = (if last k = unit_of (CHR ''_'') then butlast k else k)"
    by (auto simp: destructive_words_def)
  have "k \<noteq> []" using k(1) by (auto simp: destructive_name_heuristics_def)
  moreover have "to_lower u h = h"
    using assms destructive_words_ascii by (simp add: lowers_ascii_def)
  ultimately have "normalizeHeuristic u k = h" using k(2) by (auto simp: normalizeHeuristic_def)
  with k(1) show ?thesis by blast
qed

text \<open>
  C18. A destructive word cannot be hidden: when the tool's name, once normalized, stripped of
  invisible code points and folded to its ASCII look-alikes, contains one of the heuristic words in
  any capitalization that is not itself split by a camel-case step, delimited by separators, the
  ends of the name or camel-case steps, the tool is classified destructive whatever annotations the
  server sends, unless the operator overrides its class.
\<close>

theorem destructive_word_detected:
  assumes "lowers_ascii u" and "matchOverride overrides (t_name t) = None"
    and "foldConfusables (strip_evasion u (nfkc u (t_name t))) = p @ w @ s"
    and "ascii w" and "map ascii_lower w \<in> set destructive_words"
    and "\<forall>c \<in> set w. \<not> token_sep c" and "camel_boundaries w = w"
    and "bounded_left p w" and "bounded_right w s"
  shows "classifyTool u t overrides = DestructiveClass"
proof -
  have low: "to_lower u w = map ascii_lower w" using assms(1,4) by (simp add: lowers_ascii_def)
  have ne: "w \<noteq> []" using assms(5) destructive_words_ascii by fastforce
  with low assms have tok: "map ascii_lower w \<in> set (tokenizeToolName u (p @ w @ s))"
    using tokenize_word[of w p s u] by simp
  obtain k where "k \<in> set destructive_name_heuristics" "normalizeHeuristic u k = map ascii_lower w"
    using normalizeHeuristic_words[OF assms(1,5)] by blast
  with tok have "tokensMatchHeuristic u (tokenizeToolName u (p @ w @ s))"
    unfolding tokensMatchHeuristic_def list_ex_iff by metis
  with assms(2,3) show ?thesis
    by (simp add: classifyTool_def nameMatchesDestructiveHeuristic_def Let_def)
qed

definition homoglyph_tool :: tool where
  "homoglyph_tool = \<lparr>t_name = js ''repoD'' @ [0x435] @ js ''let'' @ [0x435] @ js ''All'',
     t_annotations = Some \<lparr>read_only_hint = Some True, destructive_hint = Some False\<rparr>\<rparr>"

theorem destructive_word_detected_witness:
  "classifyTool ascii_unicode homoglyph_tool None = DestructiveClass"
proof (rule destructive_word_detected[where p = "js ''repo''" and w = "js ''Delete''" and s = "js ''All''"])
  show "lowers_ascii ascii_unicode" by (simp add: lowers_ascii_def ascii_unicode_def)
  show "matchOverride None (t_name homoglyph_tool) = None" by (simp add: matchOverride_def)
  show "foldConfusables (strip_evasion ascii_unicode (nfkc ascii_unicode (t_name homoglyph_tool)))
      = js ''repo'' @ js ''Delete'' @ js ''All''" by code_simp
  show "ascii (js ''Delete'')" by code_simp
  show "map ascii_lower (js ''Delete'') \<in> set destructive_words" by code_simp
  show "\<forall>c \<in> set (js ''Delete''). \<not> token_sep c" by code_simp
  show "camel_boundaries (js ''Delete'') = js ''Delete''" by code_simp
  show "bounded_left (js ''repo'') (js ''Delete'')" by code_simp
  show "bounded_right (js ''Delete'') (js ''All'')" by code_simp
qed

text \<open>
  Server annotations cannot lower a class below what the name warrants: without an override a
  tool is \<open>read\<close> only when its normalized name is plain ASCII and carries no destructive word, and
  dropping or flipping \<open>destructiveHint\<close> and \<open>readOnlyHint\<close> never makes a destructive-named tool
  anything else.
\<close>

lemma annotations_never_downgrade:
  assumes "matchOverride overrides (t_name t) = None"
  shows "(classifyTool u t overrides = ReadClass \<longrightarrow>
      ascii (nfkc u (t_name t)) \<and> \<not> nameMatchesDestructiveHeuristic u (nfkc u (t_name t)))
    \<and> (nameMatchesDestructiveHeuristic u (nfkc u (t_name t)) \<longrightarrow>
      classifyTool u (t\<lparr>t_annotations := a\<rparr>) overrides = DestructiveClass)
    \<and> (hasNonAsciiLetter (nfkc u (t_name t)) \<longrightarrow>
      WriteClass \<le> classifyTool u (t\<lparr>t_annotations := a\<rparr>) overrides)"
  using assms by (auto simp: classifyTool_def ascii_def Let_def less_eq_tool_class_def)

lemma annotations_never_downgrade_witness:
  "WriteClass \<le> classifyTool ascii_unicode
     (homoglyph_tool\<lparr>t_annotations := Some \<lparr>read_only_hint = Some True, destructive_hint = None\<rparr>\<rparr>) None"
proof -
  have "hasNonAsciiLetter (nfkc ascii_unicode (t_name homoglyph_tool))" by code_simp
  then show ?thesis
    using annotations_never_downgrade[of None homoglyph_tool ascii_unicode
        "Some \<lparr>read_only_hint = Some True, destructive_hint = None\<rparr>"]
    by (simp add: matchOverride_def)
qed

end
