(* ===== verification/Policy_Decide.thy ===== *)
theory Policy_Decide
  imports Policy_Types Policy_Match
begin

text \<open>
  \<open>policy/decide.ts\<close>: the resolution of one tool call to an outcome, a rule name and a reason, as
  the chain of seven partial deciders the source composes with \<open>??\<close>.
\<close>

section \<open>Inputs and outputs\<close>

datatype grant_status = Granted | NotGranted

record decide_input =
  di_policy :: policy
  di_server :: jstr
  di_tool :: jstr
  di_class :: tool_class
  di_state :: quarantine_state
  di_observed :: bool
  di_trusted :: bool
  di_grant :: "grant_status option"
  di_delta :: "surface_delta option"

record decision =
  d_outcome :: outcome
  d_rule :: jstr
  d_reason :: jstr

section \<open>The deciders\<close>

definition quarantined_states :: "quarantine_state list" where
  "quarantined_states = [New, Changed]"

definition allow_surviving_deltas :: "surface_delta list" where
  "allow_surviving_deltas = [Narrowed, Neutral]"

definition surface_changed_rule :: jstr where
  "surface_changed_rule = js ''surface-changed''"

definition failClosedQuarantineOutcome :: "policy \<Rightarrow> outcome" where
  "failClosedQuarantineOutcome p =
     (let configured = (case on_quarantined p of Some c \<Rightarrow> c | None \<Rightarrow> RequireApproval)
      in if configured = Allow then RequireApproval else configured)"

definition decideByAgentGrant :: "decide_input \<Rightarrow> decision option" where
  "decideByAgentGrant i =
     (if di_grant i \<noteq> Some NotGranted then None
      else Some \<lparr>d_outcome = Deny,
        d_rule = js ''agent: no grant for '' @ di_server i @ js ''/'' @ di_tool i,
        d_reason = js ''the agent has no grant covering tool '' @ quoted (di_tool i)
          @ js '' on server '' @ quoted (di_server i) @ js ''; denied before policy evaluation''\<rparr>)"

definition withdrawnBySurfaceChange :: "decide_input \<Rightarrow> outcome \<Rightarrow> jstr \<Rightarrow> decision option" where
  "withdrawnBySurfaceChange i rule_outcome path =
     (if rule_outcome \<noteq> Allow then None
      else if \<not> quarantine_enabled (di_policy i) then None
      else if di_state i \<noteq> Changed then None
      else if (case di_delta i of None \<Rightarrow> False | Some d \<Rightarrow> d \<in> set allow_surviving_deltas) then None
      else let surface = (case di_delta i of
              None \<Rightarrow> js ''the direction of the change could not be determined''
            | Some d \<Rightarrow> js ''the accepted-input surface is '' @ quoted (delta_str d))
        in Some \<lparr>d_outcome = failClosedQuarantineOutcome (di_policy i),
          d_rule = surface_changed_rule,
          d_reason = js ''tool '' @ quoted (di_tool i) @ js '' on server '' @ quoted (di_server i)
            @ js '' changed after it was approved, and '' @ surface
            @ js ''; the explicit rule '' @ quoted path
            @ js '' was written against the earlier surface and no longer covers this call''\<rparr>)"

definition tool_rule_path :: "jstr \<Rightarrow> jstr \<Rightarrow> jstr" where
  "tool_rule_path server pattern = js ''servers.'' @ server @ js ''.tools.'' @ pattern"

definition decideByToolRule :: "decide_input \<Rightarrow> decision option" where
  "decideByToolRule i =
     (case matchToolRule (tool_rules (di_policy i) (di_server i)) (di_tool i) of
        None \<Rightarrow> None
      | Some m \<Rightarrow>
          let path = tool_rule_path (di_server i) (rm_pattern m) in
          (case withdrawnBySurfaceChange i (rm_value m) path of
             Some d \<Rightarrow> Some d
           | None \<Rightarrow> Some \<lparr>d_outcome = rm_value m, d_rule = path,
               d_reason = js ''explicit tool rule '' @ quoted (rm_pattern m) @ js '' on server ''
                 @ quoted (di_server i) @ js '' resolved to '' @ quoted (outcome_str (rm_value m))\<rparr>))"

definition catalog_untrusted_rule :: jstr where
  "catalog_untrusted_rule = js ''catalog-untrusted''"

definition decideByCatalogUntrusted :: "decide_input \<Rightarrow> decision option" where
  "decideByCatalogUntrusted i =
     (if di_trusted i then None
      else Some \<lparr>d_outcome = failClosedQuarantineOutcome (di_policy i),
        d_rule = catalog_untrusted_rule,
        d_reason = js ''tool inventory is untrusted (corrupt/unavailable store or oversized catalog); failing closed''\<rparr>)"

definition decideByQuarantine :: "decide_input \<Rightarrow> decision option" where
  "decideByQuarantine i =
     (if \<not> quarantine_enabled (di_policy i) then None
      else let is_quarantined = di_state i \<in> set quarantined_states;
               is_shadow = di_state i = Unknown \<and> di_observed i
        in if \<not> is_quarantined \<and> \<not> is_shadow then None
           else Some \<lparr>d_outcome = failClosedQuarantineOutcome (di_policy i),
             d_rule = (if is_shadow then js ''shadow-tool'' else js ''quarantine''),
             d_reason = (if is_shadow
               then js ''tool '' @ quoted (di_tool i) @ js '' was never advertised in tools/list (shadow tool)''
               else js ''tool schema quarantine state is '' @ quoted (state_str (di_state i)))\<rparr>)"

definition server_default_rule :: "jstr \<Rightarrow> jstr" where
  "server_default_rule server = js ''servers.'' @ server @ js ''.defaultDecision''"

definition decideByServerDefault :: "decide_input \<Rightarrow> decision option" where
  "decideByServerDefault i =
     (case Option.bind (server_entry (di_policy i) (di_server i)) sp_default of
        None \<Rightarrow> None
      | Some d \<Rightarrow> Some \<lparr>d_outcome = d, d_rule = server_default_rule (di_server i),
          d_reason = js ''server '' @ quoted (di_server i) @ js '' default decision is ''
            @ quoted (outcome_str d)\<rparr>)"

definition class_default_rule :: "tool_class \<Rightarrow> jstr" where
  "class_default_rule c = js ''classDefaults.'' @ class_str c"

definition decideByClassDefault :: "decide_input \<Rightarrow> decision option" where
  "decideByClassDefault i =
     (case Option.bind (class_defaults (di_policy i)) (\<lambda>d. class_default d (di_class i)) of
        None \<Rightarrow> None
      | Some d \<Rightarrow> Some \<lparr>d_outcome = d, d_rule = class_default_rule (di_class i),
          d_reason = js ''class default for '' @ quoted (class_str (di_class i)) @ js '' is ''
            @ quoted (outcome_str d)\<rparr>)"

definition decideByGlobalDefault :: "decide_input \<Rightarrow> decision" where
  "decideByGlobalDefault i =
     \<lparr>d_outcome = default_decision (di_policy i), d_rule = js ''defaultDecision'',
      d_reason = js ''policy default decision is '' @ quoted (outcome_str (default_decision (di_policy i)))\<rparr>"

text \<open>\<open>a ?? b\<close> on partial results.\<close>

fun first_of :: "'a option list \<Rightarrow> 'a \<Rightarrow> 'a" where
  "first_of [] d = d"
| "first_of (Some x # _) d = x"
| "first_of (None # rest) d = first_of rest d"

definition decide :: "decide_input \<Rightarrow> decision" where
  "decide i = first_of
     [decideByAgentGrant i, decideByToolRule i, decideByCatalogUntrusted i, decideByQuarantine i,
      decideByServerDefault i, decideByClassDefault i] (decideByGlobalDefault i)"

lemmas decider_defs [gate_defs] =
  decideByAgentGrant_def decideByToolRule_def decideByCatalogUntrusted_def decideByQuarantine_def
  decideByServerDefault_def decideByClassDefault_def decideByGlobalDefault_def

section \<open>The deciders one by one\<close>

lemma failClosed_not_allow [simp]: "failClosedQuarantineOutcome p \<noteq> Allow"
  by (auto simp: failClosedQuarantineOutcome_def Let_def)

text \<open>The tool rule that decides, when one does: its outcome and whether it was withdrawn.\<close>

lemma decideByToolRule_Some:
  assumes "decideByToolRule i = Some d"
  obtains m where "matchToolRule (tool_rules (di_policy i) (di_server i)) (di_tool i) = Some m"
    and "d_outcome d = rm_value m \<and> d_rule d = tool_rule_path (di_server i) (rm_pattern m)
      \<or> rm_value m = Allow \<and> d_outcome d = failClosedQuarantineOutcome (di_policy i)
         \<and> d_rule d = surface_changed_rule"
  using assms
  by (auto simp: decideByToolRule_def withdrawnBySurfaceChange_def Let_def
      split: option.splits if_splits)

text \<open>When an explicit \<open>allow\<close> survives.\<close>

definition allow_stands :: "decide_input \<Rightarrow> bool" where
  "allow_stands i \<longleftrightarrow> quarantine_enabled (di_policy i) \<longrightarrow> di_state i = Changed \<longrightarrow>
     di_delta i \<in> {Some Narrowed, Some Neutral}"

lemma withdrawn_iff: "withdrawnBySurfaceChange i r path = None \<longleftrightarrow> r \<noteq> Allow \<or> allow_stands i"
  by (auto simp: withdrawnBySurfaceChange_def allow_stands_def allow_surviving_deltas_def Let_def
      split: option.splits if_splits)

lemma decideByToolRule_allow:
  assumes "decideByToolRule i = Some d" and "d_outcome d = Allow"
  shows "\<exists>m. matchToolRule (tool_rules (di_policy i) (di_server i)) (di_tool i) = Some m
    \<and> rm_value m = Allow \<and> allow_stands i"
proof -
  obtain m where m: "matchToolRule (tool_rules (di_policy i) (di_server i)) (di_tool i) = Some m"
    using assms(1) by (auto simp: decideByToolRule_def split: option.splits)
  let ?w = "withdrawnBySurfaceChange i (rm_value m) (tool_rule_path (di_server i) (rm_pattern m))"
  show ?thesis
  proof (cases ?w)
    case None
    with assms m have "rm_value m = Allow" by (auto simp: decideByToolRule_def Let_def)
    with None m show ?thesis by (auto simp: withdrawn_iff)
  next
    case (Some d')
    with assms(1) m have "d = d'" by (simp add: decideByToolRule_def Let_def)
    with Some assms(2) show ?thesis
      by (auto simp: withdrawnBySurfaceChange_def Let_def split: if_splits)
  qed
qed

lemma decideByToolRule_None_iff: "decideByToolRule i = None \<longleftrightarrow>
    matchToolRule (tool_rules (di_policy i) (di_server i)) (di_tool i) = None"
  by (auto simp: decideByToolRule_def Let_def split: option.splits)

section \<open>What the chain computes\<close>

text \<open>The part of the chain below the explicit rule, as one outcome.\<close>

definition default_outcome :: "decide_input \<Rightarrow> outcome" where
  "default_outcome i =
     (case Option.bind (server_entry (di_policy i) (di_server i)) sp_default of
        Some d \<Rightarrow> d
      | None \<Rightarrow>
          (case Option.bind (class_defaults (di_policy i)) (\<lambda>d. class_default d (di_class i)) of
             Some d \<Rightarrow> d
           | None \<Rightarrow> default_decision (di_policy i)))"

definition gated_by_quarantine :: "decide_input \<Rightarrow> bool" where
  "gated_by_quarantine i \<longleftrightarrow> quarantine_enabled (di_policy i) \<and>
     (di_state i = New \<or> di_state i = Changed \<or> di_state i = Unknown \<and> di_observed i)"

lemma decideByQuarantine_None_iff: "decideByQuarantine i = None \<longleftrightarrow> \<not> gated_by_quarantine i"
  by (auto simp: decideByQuarantine_def gated_by_quarantine_def quarantined_states_def Let_def)

text \<open>The chain after the agent and the explicit rule have both passed.\<close>

lemma decide_without_rule:
  assumes "decideByAgentGrant i = None" and "decideByToolRule i = None"
  shows "d_outcome (decide i) =
    (if \<not> di_trusted i \<or> gated_by_quarantine i then failClosedQuarantineOutcome (di_policy i)
     else default_outcome i)"
proof (cases "di_trusted i \<and> \<not> gated_by_quarantine i")
  case True
  with assms show ?thesis
    using decideByQuarantine_None_iff[of i]
    by (simp add: decide_def decideByCatalogUntrusted_def decideByServerDefault_def
        decideByClassDefault_def decideByGlobalDefault_def default_outcome_def split: option.split)
next
  case False
  show ?thesis
  proof (cases "di_trusted i")
    case True
    with False have "decideByQuarantine i \<noteq> None" by (simp add: decideByQuarantine_None_iff)
    then obtain d where d: "decideByQuarantine i = Some d" by blast
    then have "d_outcome d = failClosedQuarantineOutcome (di_policy i)"
      by (auto simp: decideByQuarantine_def Let_def split: if_splits)
    with d assms True False show ?thesis by (simp add: decide_def decideByCatalogUntrusted_def)
  next
    case untrusted: False
    with assms show ?thesis by (simp add: decide_def decideByCatalogUntrusted_def)
  qed
qed

lemma decide_with_rule:
  assumes "decideByAgentGrant i = None" and "decideByToolRule i = Some d"
  shows "decide i = d"
  using assms by (simp add: decide_def)

lemma decideByAgentGrant_None_iff: "decideByAgentGrant i = None \<longleftrightarrow> di_grant i \<noteq> Some NotGranted"
  by (simp add: decideByAgentGrant_def)

text \<open>
  A tool the agent was never granted is denied whatever the rest of the policy says, under a
  rule that names the pair.
\<close>

lemma decide_ungranted:
  assumes "di_grant i = Some NotGranted"
  shows "d_outcome (decide i) = Deny \<and>
    d_rule (decide i) = js ''agent: no grant for '' @ di_server i @ js ''/'' @ di_tool i"
  using assms by (simp_all add: decide_def decideByAgentGrant_def)

text \<open>A policy with every kind of entry, for the examples.\<close>

definition sample_server :: server_policy where
  "sample_server = \<lparr>sp_default = Some Allow, sp_class_overrides = None,
     sp_tools = Some [(js ''get_*'', Allow), (js ''get_secret'', Deny), (js ''*'', RequireApproval)],
     sp_confirm = Some [(js ''push*'', [js ''ci'']), (js ''push_file'', [js ''bot''])]\<rparr>"

definition sample_policy :: policy where
  "sample_policy = \<lparr>default_decision = Allow, class_defaults = None, quarantine_enabled = True,
     on_quarantined = None, hide_denied = True, approval_timeout = None, fail_closed = False,
     servers = Some [(js ''gh'', sample_server)]\<rparr>"

definition sample_input :: "jstr \<Rightarrow> grant_status option \<Rightarrow> decide_input" where
  "sample_input tool grant = \<lparr>di_policy = sample_policy, di_server = js ''gh'', di_tool = tool,
     di_class = WriteClass, di_state = Known, di_observed = True, di_trusted = False,
     di_grant = grant, di_delta = None\<rparr>"

lemma decide_ungranted_witness:
  "d_outcome (decide (sample_input (js ''get_user'') (Some NotGranted))) = Deny"
  using decide_ungranted[of "sample_input (js ''get_user'') (Some NotGranted)"]
  by (simp add: sample_input_def)

text \<open>
  C5. Exactly when a call is allowed: the agent dimension does not deny it, and either an explicit
  rule says \<open>allow\<close> and still covers the advertised surface, or no explicit rule matches, the
  inventory is trusted, quarantine does not gate the tool and the first default that is set (the
  server's, the class's, the policy's) says \<open>allow\<close>.
\<close>

theorem decide_allow_iff:
  "d_outcome (decide i) = Allow \<longleftrightarrow>
     di_grant i \<noteq> Some NotGranted \<and>
     (case matchToolRule (tool_rules (di_policy i) (di_server i)) (di_tool i) of
        Some m \<Rightarrow> rm_value m = Allow \<and> allow_stands i
      | None \<Rightarrow> di_trusted i \<and> \<not> gated_by_quarantine i \<and> default_outcome i = Allow)"
proof (cases "di_grant i = Some NotGranted")
  case True
  then show ?thesis by (simp add: decide_def decideByAgentGrant_def)
next
  case False
  then have grant: "decideByAgentGrant i = None" by (simp add: decideByAgentGrant_None_iff)
  show ?thesis
  proof (cases "matchToolRule (tool_rules (di_policy i) (di_server i)) (di_tool i)")
    case None
    with grant show ?thesis
      using decide_without_rule[OF grant] False by (auto simp: decideByToolRule_None_iff)
  next
    case (Some m)
    then obtain d where d: "decideByToolRule i = Some d"
      using decideByToolRule_None_iff[of i] by (cases "decideByToolRule i") auto
    have "d_outcome d = Allow \<longleftrightarrow> rm_value m = Allow \<and> allow_stands i"
    proof
      assume "d_outcome d = Allow"
      from decideByToolRule_allow[OF d this] Some show "rm_value m = Allow \<and> allow_stands i" by simp
    next
      assume "rm_value m = Allow \<and> allow_stands i"
      then have "withdrawnBySurfaceChange i (rm_value m) (tool_rule_path (di_server i) (rm_pattern m)) = None"
        by (simp add: withdrawn_iff)
      with d Some \<open>rm_value m = Allow \<and> allow_stands i\<close> show "d_outcome d = Allow"
        by (auto simp: decideByToolRule_def Let_def)
    qed
    with decide_with_rule[OF grant d] Some False show ?thesis by simp
  qed
qed

text \<open>
  An explicit \<open>deny\<close> or \<open>require-approval\<close> of the operator is applied as written, whatever
  the inventory, quarantine and the defaults say, and the decision names the rule's own path.
\<close>

lemma decide_explicit_rule:
  assumes "di_grant i \<noteq> Some NotGranted"
    and "matchToolRule (tool_rules (di_policy i) (di_server i)) (di_tool i) = Some m"
    and "rm_value m \<noteq> Allow"
  shows "d_outcome (decide i) = rm_value m \<and>
    d_rule (decide i) = tool_rule_path (di_server i) (rm_pattern m)"
proof -
  have w: "withdrawnBySurfaceChange i (rm_value m) (tool_rule_path (di_server i) (rm_pattern m)) = None"
    using assms(3) by (simp add: withdrawn_iff)
  have "decide i = \<lparr>d_outcome = rm_value m, d_rule = tool_rule_path (di_server i) (rm_pattern m),
      d_reason = js ''explicit tool rule '' @ quoted (rm_pattern m) @ js '' on server ''
        @ quoted (di_server i) @ js '' resolved to '' @ quoted (outcome_str (rm_value m))\<rparr>"
    using assms w by (intro decide_with_rule) (simp_all add: decideByAgentGrant_None_iff decideByToolRule_def Let_def)
  then show ?thesis by simp
qed

end
