(* ===== verification/Policy_Effective.thy ===== *)
theory Policy_Effective
  imports Policy_Decide
begin

text \<open>
  \<open>policy/confirm-in-client.ts\<close> and \<open>policy/effective.ts\<close>: which calls a person at the client must
  confirm, and the projection of \<open>decide\<close> that the servers page shows, with the source of the rule
  read back from the rule string. A rule string the projection does not know is the thrown
  \<open>UnmappedPolicyRuleError\<close>, the left value here.
\<close>

section \<open>Confirmation in the client\<close>

definition confirm_any_agent :: jstr where
  "confirm_any_agent = js ''*''"

definition isConfirmInClient :: "policy \<Rightarrow> jstr \<Rightarrow> jstr \<Rightarrow> jstr option \<Rightarrow> bool" where
  "isConfirmInClient p server tool agent =
     (case Option.bind (server_entry p server) sp_confirm of
        None \<Rightarrow> False
      | Some entries \<Rightarrow>
          list_ex (\<lambda>(pattern, agents).
            coversTool pattern tool \<and>
            (confirm_any_agent \<in> set agents \<or>
             (case agent of None \<Rightarrow> False | Some a \<Rightarrow> a \<in> set agents))) entries)"

section \<open>The effective rule\<close>

datatype rule_source =
    Explicit | Wildcard | SurfaceChangedSource | QuarantineSource | ShadowTool
  | ServerDefault | ClassDefault | GlobalDefault

record resolved_source =
  rs_source :: rule_source
  rs_pattern :: "jstr option"

record effective_rule =
  er_outcome :: outcome
  er_source :: rule_source
  er_rule_path :: jstr
  er_pattern :: "jstr option"
  er_class :: tool_class

datatype unmapped_rule = UnmappedPolicyRuleError jstr

definition fixed_rule_sources :: "(jstr \<times> rule_source) list" where
  "fixed_rule_sources =
     [(surface_changed_rule, SurfaceChangedSource), (js ''quarantine'', QuarantineSource),
      (js ''shadow-tool'', ShadowTool), (js ''defaultDecision'', GlobalDefault)]"

definition toolRuleSource :: "jstr \<Rightarrow> jstr \<Rightarrow> unmapped_rule + resolved_source" where
  "toolRuleSource pattern tool =
     (if pattern = tool then Inr \<lparr>rs_source = Explicit, rs_pattern = Some pattern\<rparr>
      else if ends_with_star pattern then Inr \<lparr>rs_source = Wildcard, rs_pattern = Some pattern\<rparr>
      else Inl (UnmappedPolicyRuleError (js ''servers.*.tools.'' @ pattern)))"

definition sourceOfRule :: "jstr \<Rightarrow> decide_input \<Rightarrow> unmapped_rule + resolved_source" where
  "sourceOfRule rule i =
     (case map_of fixed_rule_sources rule of
        Some s \<Rightarrow> Inr \<lparr>rs_source = s, rs_pattern = None\<rparr>
      | None \<Rightarrow>
          if rule = server_default_rule (di_server i)
          then Inr \<lparr>rs_source = ServerDefault, rs_pattern = None\<rparr>
          else if rule = class_default_rule (di_class i)
          then Inr \<lparr>rs_source = ClassDefault, rs_pattern = None\<rparr>
          else let pre = tool_rule_path (di_server i) [] in
            if prefix pre rule then toolRuleSource (drop (length pre) rule) (di_tool i)
            else Inl (UnmappedPolicyRuleError rule))"

text \<open>
  \<open>plainViewDecideInput\<close>: a call with no agent and an observed, trusted catalog. The class comes
  from the classifier, an argument here (\<open>Policy_Classify.classifyTool\<close> on the stored descriptor).
\<close>

definition plainViewDecideInput ::
  "((jstr \<times> tool_class) list option \<Rightarrow> tool_class) \<Rightarrow> policy \<Rightarrow> jstr \<Rightarrow> jstr \<Rightarrow>
     quarantine_state \<Rightarrow> surface_delta option \<Rightarrow> decide_input" where
  "plainViewDecideInput classify p server tool state delta =
     \<lparr>di_policy = p, di_server = server, di_tool = tool,
      di_class = classify (class_overrides p server), di_state = state,
      di_observed = True, di_trusted = True, di_grant = None, di_delta = delta\<rparr>"

definition effectiveToolRule ::
  "((jstr \<times> tool_class) list option \<Rightarrow> tool_class) \<Rightarrow> policy \<Rightarrow> jstr \<Rightarrow> jstr \<Rightarrow>
     quarantine_state \<Rightarrow> surface_delta option \<Rightarrow> unmapped_rule + effective_rule" where
  "effectiveToolRule classify p server tool state delta =
     (let i = plainViewDecideInput classify p server tool state delta;
          d = decide i
      in case sourceOfRule (d_rule d) i of
           Inl e \<Rightarrow> Inl e
         | Inr r \<Rightarrow> Inr \<lparr>er_outcome = d_outcome d, er_source = rs_source r, er_rule_path = d_rule d,
             er_pattern = rs_pattern r, er_class = di_class i\<rparr>)"

definition hasExplicitRule :: "policy \<Rightarrow> jstr \<Rightarrow> jstr \<Rightarrow> bool" where
  "hasExplicitRule p server tool =
     (case tool_rules p server of None \<Rightarrow> False | Some rules \<Rightarrow> has_own rules tool)"

section \<open>Rule strings do not collide\<close>

lemmas rule_string_defs = surface_changed_rule_def server_default_rule_def class_default_rule_def
  tool_rule_path_def

lemma fixed_rule_other:
  "map_of fixed_rule_sources (server_default_rule s) = None"
  "map_of fixed_rule_sources (class_default_rule c) = None"
  "map_of fixed_rule_sources (tool_rule_path s p) = None"
  by (simp_all add: fixed_rule_sources_def rule_string_defs str_simps)

lemma rule_strings_differ [simp]:
  "class_default_rule c \<noteq> server_default_rule s"
  "tool_rule_path s p \<noteq> server_default_rule s"
  "tool_rule_path s p \<noteq> class_default_rule c"
  by (simp_all add: rule_string_defs str_simps)

lemma sourceOfRule_fixed [simp]:
  "sourceOfRule surface_changed_rule i = Inr \<lparr>rs_source = SurfaceChangedSource, rs_pattern = None\<rparr>"
  "sourceOfRule (js ''quarantine'') i = Inr \<lparr>rs_source = QuarantineSource, rs_pattern = None\<rparr>"
  "sourceOfRule (js ''shadow-tool'') i = Inr \<lparr>rs_source = ShadowTool, rs_pattern = None\<rparr>"
  "sourceOfRule (js ''defaultDecision'') i = Inr \<lparr>rs_source = GlobalDefault, rs_pattern = None\<rparr>"
  by (simp_all add: sourceOfRule_def fixed_rule_sources_def surface_changed_rule_def)

lemma sourceOfRule_default [simp]:
  "sourceOfRule (server_default_rule (di_server i)) i = Inr \<lparr>rs_source = ServerDefault, rs_pattern = None\<rparr>"
  "sourceOfRule (class_default_rule (di_class i)) i = Inr \<lparr>rs_source = ClassDefault, rs_pattern = None\<rparr>"
  by (simp_all add: sourceOfRule_def fixed_rule_other)

lemma tool_rule_path_split: "tool_rule_path s p = tool_rule_path s [] @ p"
  by (simp add: tool_rule_path_def)

lemma sourceOfRule_tool [simp]:
  "sourceOfRule (tool_rule_path (di_server i) p) i = toolRuleSource p (di_tool i)"
proof -
  have "prefix (tool_rule_path (di_server i) []) (tool_rule_path (di_server i) p)"
    and "drop (length (tool_rule_path (di_server i) [])) (tool_rule_path (di_server i) p) = p"
    using tool_rule_path_split[of "di_server i" p] by simp_all
  then show ?thesis by (simp add: sourceOfRule_def fixed_rule_other Let_def)
qed

text \<open>
  Which source a decision of the chain has, for a call with no agent and a trusted catalog. The
  specification goes by the conditions of the chain, not by the rule string.
\<close>

definition source_spec :: "decide_input \<Rightarrow> resolved_source" where
  "source_spec i =
     (let plain = (\<lambda>s. \<lparr>rs_source = s, rs_pattern = None\<rparr>) in
      case matchToolRule (tool_rules (di_policy i) (di_server i)) (di_tool i) of
        Some m \<Rightarrow>
          if rm_value m = Allow \<and> \<not> allow_stands i then plain SurfaceChangedSource
          else \<lparr>rs_source = (if rm_pattern m = di_tool i then Explicit else Wildcard),
                rs_pattern = Some (rm_pattern m)\<rparr>
      | None \<Rightarrow>
          if gated_by_quarantine i
          then plain (if di_state i = Unknown then ShadowTool else QuarantineSource)
          else if Option.bind (server_entry (di_policy i) (di_server i)) sp_default \<noteq> None
          then plain ServerDefault
          else if Option.bind (class_defaults (di_policy i)) (\<lambda>d. class_default d (di_class i)) \<noteq> None
          then plain ClassDefault
          else plain GlobalDefault)"

lemma sourceOfRule_decide:
  assumes grant: "di_grant i \<noteq> Some NotGranted" and trusted: "di_trusted i"
  shows "sourceOfRule (d_rule (decide i)) i = Inr (source_spec i)"
proof (cases "matchToolRule (tool_rules (di_policy i) (di_server i)) (di_tool i)")
  case (Some m)
  have ag: "decideByAgentGrant i = None" using grant by (simp add: decideByAgentGrant_None_iff)
  let ?w = "withdrawnBySurfaceChange i (rm_value m) (tool_rule_path (di_server i) (rm_pattern m))"
  show ?thesis
  proof (cases ?w)
    case None
    then have "d_rule (decide i) = tool_rule_path (di_server i) (rm_pattern m)"
      using Some ag by (simp add: decide_def decideByToolRule_def Let_def)
    moreover have "toolRuleSource (rm_pattern m) (di_tool i) = Inr \<lparr>rs_source =
        (if rm_pattern m = di_tool i then Explicit else Wildcard), rs_pattern = Some (rm_pattern m)\<rparr>"
      using matchToolRule_pattern Some
      by (cases "tool_rules (di_policy i) (di_server i)") (auto simp: toolRuleSource_def)
    moreover have "\<not> (rm_value m = Allow \<and> \<not> allow_stands i)" using None by (simp add: withdrawn_iff)
    ultimately show ?thesis using Some by (simp add: source_spec_def)
  next
    case w: (Some d)
    then have "decide i = d" and "d_rule d = surface_changed_rule"
      using Some ag
      by (auto simp: decide_def decideByToolRule_def withdrawnBySurfaceChange_def Let_def split: if_splits)
    moreover have "rm_value m = Allow \<and> \<not> allow_stands i"
      using w withdrawn_iff[of i "rm_value m" "tool_rule_path (di_server i) (rm_pattern m)"] by simp
    ultimately show ?thesis using Some by (simp add: source_spec_def)
  qed
next
  case None
  have pre: "decideByAgentGrant i = None" "decideByToolRule i = None" "decideByCatalogUntrusted i = None"
    using grant trusted None
    by (simp_all add: decideByAgentGrant_None_iff decideByToolRule_None_iff decideByCatalogUntrusted_def)
  show ?thesis
  proof (cases "decideByQuarantine i")
    case (Some d)
    then have "gated_by_quarantine i" using decideByQuarantine_None_iff[of i] by force
    moreover have "d_rule d = (if di_state i = Unknown then js ''shadow-tool'' else js ''quarantine'')"
      using Some by (auto simp: decideByQuarantine_def quarantined_states_def Let_def split: if_splits)
    ultimately show ?thesis using pre Some None by (simp add: decide_def source_spec_def)
  next
    case no: None
    then have "\<not> gated_by_quarantine i" by (simp add: decideByQuarantine_None_iff)
    with pre no None show ?thesis
      by (simp add: decide_def source_spec_def decideByServerDefault_def decideByClassDefault_def
          decideByGlobalDefault_def split: option.split)
  qed
qed

section \<open>Properties\<close>

text \<open>
  C17. The projection of the servers page is total and exact: for every policy, server and tool it
  returns (no rule string of \<open>decide\<close> is unmapped), its outcome is the gate's outcome for a call
  without an agent, and the source it shows is the one the chain's conditions select.
\<close>

theorem effectiveToolRule_exact:
  "effectiveToolRule classify p server tool state delta =
     (let i = plainViewDecideInput classify p server tool state delta
      in Inr \<lparr>er_outcome = d_outcome (decide i), er_source = rs_source (source_spec i),
              er_rule_path = d_rule (decide i), er_pattern = rs_pattern (source_spec i),
              er_class = classify (class_overrides p server)\<rparr>)"
proof -
  let ?i = "plainViewDecideInput classify p server tool state delta"
  have "sourceOfRule (d_rule (decide ?i)) ?i = Inr (source_spec ?i)"
    by (rule sourceOfRule_decide) (simp_all add: plainViewDecideInput_def)
  moreover have "di_class ?i = classify (class_overrides p server)" by (simp add: plainViewDecideInput_def)
  ultimately show ?thesis by (simp add: effectiveToolRule_def Let_def)
qed

text \<open>Adding entries to \<open>confirmInClient\<close> and agents to an entry.\<close>

definition confirm_extends :: "(jstr \<times> jstr list) list \<Rightarrow> (jstr \<times> jstr list) list \<Rightarrow> bool" where
  "confirm_extends es es' \<longleftrightarrow>
     (\<forall>(p, as) \<in> set es. \<exists>as'. (p, as') \<in> set es' \<and> set as \<subseteq> set as')"

text \<open>
  Client confirmations add up: extending the entries of a server, or an entry's agent list,
  never lifts a confirmation that was required; in particular an exact entry never lifts the
  confirmation a pattern asks for.
\<close>

lemma confirm_monotone:
  assumes "Option.bind (server_entry p server) sp_confirm = Some es"
    and "Option.bind (server_entry p' server) sp_confirm = Some es'"
    and "confirm_extends es es'"
    and "isConfirmInClient p server tool agent"
  shows "isConfirmInClient p' server tool agent"
proof -
  from assms(1,4) obtain pat as where e: "(pat, as) \<in> set es" "coversTool pat tool"
      "confirm_any_agent \<in> set as \<or> (\<exists>a. agent = Some a \<and> a \<in> set as)"
    by (auto simp: isConfirmInClient_def list_ex_iff split: option.splits)
  with assms(3) obtain as' where "(pat, as') \<in> set es'" "set as \<subseteq> set as'"
    by (fastforce simp: confirm_extends_def)
  with e have "coversTool pat tool \<and> (confirm_any_agent \<in> set as' \<or>
      (case agent of None \<Rightarrow> False | Some a \<Rightarrow> a \<in> set as'))" by auto
  with assms(2) \<open>(pat, as') \<in> set es'\<close> show ?thesis
    by (force simp: isConfirmInClient_def list_ex_iff)
qed

end
