(* ===== verification/Json.thy ===== *)
theory Json
  imports Prelude
begin

text \<open>
  The values \<open>JSON.parse\<close> returns. An object is its own enumerable properties in insertion order;
  a number is an IEEE-754 double, kept as its 64-bit pattern, so that a number is carried through
  unchanged and two numbers are \<open>Object.is\<close>-equal exactly when they are equal here (\<open>JSON.parse\<close>
  never returns a NaN). \<open>undefined\<close>, which JSON has no value for, is \<^const>\<open>None\<close> of
  \<open>json option\<close>. \<open>JSON.parse\<close> and \<open>JSON.stringify\<close> themselves belong to the runtime: the
  definitions that call them take \<open>parse\<close> (\<^const>\<open>None\<close> for a thrown SyntaxError) and
  \<open>stringify\<close> as arguments.
\<close>

datatype json =
    JNull
  | JBool bool
  | JNum "64 word"
  | JStr jstr
  | JArr "json list"
  | JObj "(jstr \<times> json) list"

type_synonym obj = "(jstr \<times> json) list"

text \<open>\<open>isPlainObject\<close> and the narrowing it gives: the properties, or nothing.\<close>

fun as_obj :: "json option \<Rightarrow> obj option" where
  "as_obj (Some (JObj ps)) = Some ps"
| "as_obj _ = None"

fun as_arr :: "json option \<Rightarrow> json list option" where
  "as_arr (Some (JArr xs)) = Some xs"
| "as_arr _ = None"

fun as_str :: "json option \<Rightarrow> jstr option" where
  "as_str (Some (JStr s)) = Some s"
| "as_str _ = None"

lemma as_obj_Some [simp]: "as_obj v = Some ps \<longleftrightarrow> v = Some (JObj ps)"
  by (cases v rule: as_obj.cases) auto

lemma as_arr_Some [simp]: "as_arr v = Some xs \<longleftrightarrow> v = Some (JArr xs)"
  by (cases v rule: as_arr.cases) auto

lemma as_str_Some [simp]: "as_str v = Some s \<longleftrightarrow> v = Some (JStr s)"
  by (cases v rule: as_str.cases) auto

text \<open>\<open>o['key']\<close> for a key that \<open>Object.prototype\<close> does not define, and \<open>'key' in o\<close>.\<close>

definition get_prop :: "obj \<Rightarrow> jstr \<Rightarrow> json option" where
  "get_prop ps k = map_of ps k"

text \<open>\<open>{ ...o, key: v }\<close>.\<close>

definition with_prop :: "obj \<Rightarrow> jstr \<Rightarrow> json \<Rightarrow> obj" where
  "with_prop ps k v = AList.update k v ps"

lemma get_prop_with_prop [simp]: "get_prop (with_prop ps k v) k' = (if k' = k then Some v else get_prop ps k')"
  by (simp add: get_prop_def with_prop_def)

text \<open>
  \<open>typeof n === 'number' && Number.isFinite(n)\<close>: the exponent field is not all ones.
\<close>

definition is_finite_num :: "64 word \<Rightarrow> bool" where
  "is_finite_num n \<longleftrightarrow> take_bit 11 (drop_bit 52 n) \<noteq> 2047"

text \<open>\<open>tryParseObject(raw)\<close>: the parsed value when it is a plain object.\<close>

definition try_parse_object :: "(jstr \<Rightarrow> json option) \<Rightarrow> jstr \<Rightarrow> obj option" where
  "try_parse_object parse raw = as_obj (parse raw)"

lemma try_parse_object_Some [simp]:
  "try_parse_object parse raw = Some ps \<longleftrightarrow> parse raw = Some (JObj ps)"
  by (simp add: try_parse_object_def)

text \<open>The properties of an object have distinct names, at every depth.\<close>

fun wf_json :: "json \<Rightarrow> bool" where
  "wf_json (JArr xs) \<longleftrightarrow> (\<forall>x \<in> set xs. wf_json x)"
| "wf_json (JObj ps) \<longleftrightarrow> wf_map ps \<and> (\<forall>p \<in> set ps. wf_json (snd p))"
| "wf_json _ \<longleftrightarrow> True"

section \<open>Reading properties through the prototype\<close>

datatype jsv = Undef | Val json | Fn jstr

definition prototype_functions :: "jstr list" where
  "prototype_functions = map js [''constructor'', ''__defineGetter__'', ''__defineSetter__'',
     ''hasOwnProperty'', ''__lookupGetter__'', ''__lookupSetter__'', ''isPrototypeOf'',
     ''propertyIsEnumerable'', ''toString'', ''valueOf'', ''toLocaleString'']"

definition js_get :: "obj \<Rightarrow> jstr \<Rightarrow> jsv" where
  "js_get ps k = (case map_of ps k of
     Some v \<Rightarrow> Val v
   | None \<Rightarrow> if k = js ''__proto__'' then Val (JObj [])
             else if k \<in> set prototype_functions then Fn k else Undef)"

fun plain_object :: "jsv \<Rightarrow> obj option" where
  "plain_object (Val (JObj ps)) = Some ps"
| "plain_object _ = None"

fun array_of :: "jsv \<Rightarrow> json list option" where
  "array_of (Val (JArr xs)) = Some xs"
| "array_of _ = None"

lemma plain_object_Some [simp]: "plain_object v = Some ps \<longleftrightarrow> v = Val (JObj ps)"
  by (cases v rule: plain_object.cases) auto

lemma array_of_Some [simp]: "array_of v = Some xs \<longleftrightarrow> v = Val (JArr xs)"
  by (cases v rule: array_of.cases) auto

end
