(* ===== verification/Redact.thy ===== *)
theory Redact
  imports Json Text
begin

text \<open>
  \<open>redact/redact.ts\<close>, \<open>redact/known-secrets.ts\<close> and the key policy of \<open>redact/patterns.ts\<close>. The
  regular expressions over free text (\<open>redactText\<close>) are the argument \<open>rd_text\<close>; JSON.parse and
  JSON.stringify are \<open>rd_parse\<close> and \<open>rd_stringify\<close>. A parsed value is a tree, so the marker for
  reference cycles is never written.
\<close>

record redactor =
  rd_unicode :: unicode
  rd_parse :: "jstr \<Rightarrow> json option"
  rd_stringify :: "json \<Rightarrow> jstr"
  rd_text :: "jstr \<Rightarrow> jstr"

section \<open>Known secrets\<close>

definition redacted_placeholder :: jstr where
  "redacted_placeholder = js ''[REDACTED]''"

definition min_known_secret_chars :: nat where
  "min_known_secret_chars = 8"

text \<open>The order of \<open>byLengthThenValue\<close>: longer first, then by code unit.\<close>

definition by_length_then_value :: "jstr \<Rightarrow> jstr \<Rightarrow> bool" where
  "by_length_then_value a b \<longleftrightarrow>
     (if length a \<noteq> length b then length b < length a else a \<le> b)"

fun insert_secret :: "jstr \<Rightarrow> jstr list \<Rightarrow> jstr list" where
  "insert_secret a [] = [a]"
| "insert_secret a (b # bs) = (if by_length_then_value a b then a # b # bs else b # insert_secret a bs)"

definition normalizeKnownSecrets :: "jstr list \<Rightarrow> jstr list" where
  "normalizeKnownSecrets values =
     foldr insert_secret (remdups (filter (\<lambda>v. min_known_secret_chars \<le> length v) values)) []"

definition scrubKnownSecrets :: "jstr \<Rightarrow> jstr list \<Rightarrow> jstr" where
  "scrubKnownSecrets text secrets =
     foldl (\<lambda>current secret. if index_of secret current \<noteq> None
        then replace_all secret redacted_placeholder current else current) text secrets"

section \<open>The key policy\<close>

definition redact_key_patterns :: "jstr list" where
  "redact_key_patterns = map js
     [''token'', ''secret'', ''password'', ''passwd'', ''api_key'', ''apikey'', ''authorization'', ''auth'',
      ''credential'', ''private_key'', ''access_key'', ''session_id'', ''cookie'', ''bearer'', ''signature'',
      ''mnemonic'', ''certificate'', ''ssh'', ''dsn'', ''connection_string'', ''conn_str'']"

definition redact_key_tokens :: "jstr list" where
  "redact_key_tokens = map js
     [''pass'', ''pwd'', ''jwt'', ''otp'', ''pin'', ''mfa'', ''salt'', ''seed'', ''pem'', ''pat'', ''sig'']"

definition keyTokens :: "unicode \<Rightarrow> jstr \<Rightarrow> jstr list" where
  "keyTokens u key =
     filter (\<lambda>t. length t > 0)
       (split_runs (\<lambda>c. \<not> lower_or_digit c) (to_lower u (camel_with (unit_of (CHR '' '')) key)))"

definition isSensitiveKey :: "unicode \<Rightarrow> jstr \<Rightarrow> bool" where
  "isSensitiveKey u key \<longleftrightarrow>
     (let lowerKey = to_lower u key in
      list_ex (\<lambda>p. index_of (to_lower u p) lowerKey \<noteq> None) redact_key_patterns \<or>
      list_ex (\<lambda>t. t \<in> set redact_key_tokens) (keyTokens u key))"

section \<open>The structural redactor\<close>

definition max_embedded_json_chars :: nat where "max_embedded_json_chars = 65536"

definition max_embedded_json_depth :: nat where "max_embedded_json_depth = 3"

definition opens_json :: "jstr \<Rightarrow> bool" where
  "opens_json s \<longleftrightarrow> prefix (js ''{'') s \<or> prefix (js ''['') s"

lemma size_list_mem: "x \<in> set xs \<Longrightarrow> size x < Suc (size_list size xs)"
  by (induction xs) auto

lemma size_obj_mem: "(k, v) \<in> set ps \<Longrightarrow> size v < Suc (size_list (size_prod (\<lambda>_. 0) size) ps)"
  by (induction ps) auto

function redactAny :: "redactor \<Rightarrow> jstr list \<Rightarrow> nat \<Rightarrow> json \<Rightarrow> json" where
  "redactAny rd secrets depth (JStr s) =
     (let scrubbed = scrubKnownSecrets s secrets; trimmed = js_trim scrubbed in
      if max_embedded_json_depth \<le> depth \<or> max_embedded_json_chars < length scrubbed \<or> \<not> opens_json trimmed
      then JStr (rd_text rd scrubbed)
      else case rd_parse rd trimmed of
          None \<Rightarrow> JStr (rd_text rd scrubbed)
        | Some v \<Rightarrow>
            let serialized = rd_stringify rd (redactAny rd secrets (Suc depth) v) in
            if serialized = rd_stringify rd v then JStr (rd_text rd scrubbed) else JStr serialized)"
| "redactAny rd secrets depth (JArr xs) = JArr (map (redactAny rd secrets depth) xs)"
| "redactAny rd secrets depth (JObj ps) =
     JObj (map (\<lambda>(k, v). (k, if isSensitiveKey (rd_unicode rd) k then JStr redacted_placeholder
                              else redactAny rd secrets depth v)) ps)"
| "redactAny rd secrets depth JNull = JNull"
| "redactAny rd secrets depth (JBool b) = JBool b"
| "redactAny rd secrets depth (JNum n) = JNum n"
  by pat_completeness auto
termination
  by (relation "measures [\<lambda>(rd, secrets, depth, v). Suc max_embedded_json_depth - depth, \<lambda>(rd, secrets, depth, v). size v]")
    (auto dest: size_list_mem size_obj_mem)

definition redact :: "redactor \<Rightarrow> json \<Rightarrow> jstr list \<Rightarrow> json" where
  "redact rd v secrets = redactAny rd secrets 0 v"

definition redactString :: "redactor \<Rightarrow> jstr \<Rightarrow> jstr list \<Rightarrow> jstr" where
  "redactString rd s secrets = the (as_str (Some (redactAny rd secrets 0 (JStr s))))"

section \<open>Lemmas on replacement\<close>

lemma replace_all_absent: "\<not> sublist needle xs \<Longrightarrow> replace_all needle rep xs = xs"
  by (induction needle rep xs rule: replace_all.induct) (auto simp: sublist_Cons_right)

lemma scrub_step: "(if index_of secret current \<noteq> None
     then replace_all secret rep current else current) = replace_all secret rep current"
  by (auto simp: index_of_None replace_all_absent)

text \<open>A text that shares no border with the replacement: it cannot arise around it.\<close>

definition apart :: "'a list \<Rightarrow> 'a list \<Rightarrow> bool" where
  "apart t rep \<longleftrightarrow> t \<noteq> [] \<and> rep \<noteq> [] \<and>
     (\<forall>v. suffix v t \<and> v \<noteq> [] \<longrightarrow> \<not> prefix v rep \<and> \<not> prefix rep v) \<and>
     (\<forall>w. suffix w rep \<and> w \<noteq> [] \<longrightarrow> \<not> prefix w t \<and> \<not> prefix t w)"

lemma prefix_append_cases: "prefix t (a @ b) \<Longrightarrow> prefix t a \<or> prefix a t"
  by (metis prefix_append prefixI)

lemma sublist_after:
  assumes "apart t rep" and "sublist t (w @ R)" and "suffix w rep"
  shows "sublist t R"
  using assms(2,3)
proof (induction w)
  case (Cons x w)
  have "\<not> prefix t ((x # w) @ R)"
    using prefix_append_cases[of t "x # w" R] assms(1) Cons.prems(2) unfolding apart_def by blast
  then have "sublist t (w @ R)" using Cons.prems(1) by (simp add: sublist_Cons_right)
  then show ?case using Cons.IH Cons.prems(2) by (meson suffix_ConsD)
qed simp

lemma prefix_replace_all:
  assumes "\<forall>v. suffix v t \<and> v \<noteq> [] \<longrightarrow> \<not> prefix v rep \<and> \<not> prefix rep v"
    and "prefix t (replace_all needle rep xs)"
  shows "prefix t xs"
  using assms
proof (induction needle rep xs arbitrary: t rule: replace_all.induct)
  case (2 needle rep x xs)
  show ?case
  proof (cases "needle \<noteq> [] \<and> prefix needle (x # xs)")
    case True
    with 2(4) have "t = [] \<or> prefix t rep \<or> prefix rep t"
      using prefix_append_cases by fastforce
    with 2(3) show ?thesis by auto
  next
    case False
    show ?thesis
    proof (cases t)
      case (Cons y t')
      with False 2(4) have "y = x" "prefix t' (replace_all needle rep xs)" by auto
      moreover have "\<forall>v. suffix v t' \<and> v \<noteq> [] \<longrightarrow> \<not> prefix v rep \<and> \<not> prefix rep v"
        using 2(3) Cons by (auto intro: suffix_ConsI)
      ultimately show ?thesis using 2(2)[OF False] Cons by simp
    qed simp
  qed
qed simp

lemma sublist_replace_all:
  assumes "apart t rep"
  shows "sublist t (replace_all needle rep xs) \<Longrightarrow> sublist t xs"
  using assms
proof (induction needle rep xs rule: replace_all.induct)
  case (2 needle rep x xs)
  show ?case
  proof (cases "needle \<noteq> [] \<and> prefix needle (x # xs)")
    case True
    with 2(3) have "sublist t (rep @ replace_all needle rep (drop (length needle) (x # xs)))" by simp
    then have "sublist t (drop (length needle) (x # xs))"
      using 2(1)[OF True] 2(4) sublist_after by blast
    then show ?thesis by (metis sublist_drop sublist_order.order_trans)
  next
    case False
    with 2(3) have "prefix t (x # replace_all needle rep xs) \<or> sublist t (replace_all needle rep xs)"
      by (auto simp: sublist_Cons_right)
    then show ?thesis
    proof
      assume "prefix t (x # replace_all needle rep xs)"
      with False have "prefix t (replace_all needle rep (x # xs))" by auto
      then have "prefix t (x # xs)"
        using prefix_replace_all 2(4) unfolding apart_def by blast
      then show ?thesis by (rule prefix_imp_sublist)
    next
      assume "sublist t (replace_all needle rep xs)"
      then show ?thesis using 2(2)[OF False] 2(4) by (simp add: sublist_Cons_right)
    qed
  qed
qed simp

lemma replace_all_removes:
  assumes "apart needle rep"
  shows "\<not> sublist needle (replace_all needle rep xs)"
  using assms
proof (induction needle rep xs rule: replace_all.induct)
  case (1 needle rep)
  then show ?case by (auto simp: apart_def)
next
  case (2 needle rep x xs)
  show ?case
  proof (cases "needle \<noteq> [] \<and> prefix needle (x # xs)")
    case True
    then show ?thesis using 2(1)[OF True 2(3)] sublist_after[OF 2(3)] by auto
  next
    case False
    have "\<not> prefix needle (replace_all needle rep (x # xs))"
    proof
      assume "prefix needle (replace_all needle rep (x # xs))"
      then have "prefix needle (x # xs)"
        using prefix_replace_all 2(3) unfolding apart_def by blast
      with False 2(3) show False by (auto simp: apart_def)
    qed
    then show ?thesis using False 2(2)[OF False 2(3)] by (auto simp: sublist_Cons_right)
  qed
qed

lemma scrub_removes:
  assumes "\<forall>s \<in> set secrets. apart s redacted_placeholder" and "s \<in> set secrets"
  shows "\<not> sublist s (scrubKnownSecrets text secrets)"
  using assms
proof (induction secrets rule: rev_induct)
  case (snoc t ts)
  have step: "scrubKnownSecrets text (ts @ [t]) = replace_all t redacted_placeholder (scrubKnownSecrets text ts)"
    by (simp only: scrubKnownSecrets_def foldl_append foldl.simps scrub_step)
  show ?case
  proof (cases "s = t")
    case True
    then show ?thesis using step snoc.prems replace_all_removes by fastforce
  next
    case False
    then have "\<not> sublist s (scrubKnownSecrets text ts)" using snoc by simp
    then show ?thesis using step sublist_replace_all snoc.prems by metis
  qed
qed simp

lemma set_insert_secret [simp]: "set (insert_secret a xs) = insert a (set xs)"
  by (induction xs) auto

lemma set_normalizeKnownSecrets:
  "set (normalizeKnownSecrets values) = {v \<in> set values. min_known_secret_chars \<le> length v}"
proof -
  have "set (foldr insert_secret vs []) = set vs" for vs by (induction vs) auto
  then show ?thesis by (simp add: normalizeKnownSecrets_def)
qed

text \<open>A secret that is not itself a piece of the placeholder and holds no bracket.\<close>

definition plain_secret :: "jstr \<Rightarrow> bool" where
  "plain_secret s \<longleftrightarrow> unit_of (CHR ''['') \<notin> set s \<and> unit_of (CHR '']'') \<notin> set s \<and> s \<noteq> js ''REDACTED''"

lemma placeholder_ends:
  "hd redacted_placeholder = unit_of (CHR ''['')" "last redacted_placeholder = unit_of (CHR '']'')"
  "redacted_placeholder \<noteq> []" "length redacted_placeholder = 10"
  by (simp_all add: redacted_placeholder_def js_def)

lemma long_part_of_placeholder:
  assumes "prefix t (drop n redacted_placeholder)" and "8 \<le> length t"
  shows "\<not> plain_secret t"
proof -
  obtain m where t: "t = take m (drop n redacted_placeholder)"
    using assms(1) by (metis append_eq_conv_conj prefix_def)
  have "length t = min m (10 - n)" using t placeholder_ends(4) by simp
  with assms(2) have "8 \<le> m" "n \<le> 2" by auto
  then consider "n = 0" | "n = 1" "m = 8" | "n = 1" "9 \<le> m" | "n = 2" by linarith
  then show ?thesis
  proof cases
    case 1
    with t \<open>8 \<le> m\<close> have "hd t = unit_of (CHR ''['')" "t \<noteq> []"
      using placeholder_ends by (auto simp: hd_take)
    then show ?thesis by (metis hd_in_set plain_secret_def)
  next
    case 2
    then have "t = js ''REDACTED''" using t by (simp add: redacted_placeholder_def js_def)
    then show ?thesis by (simp add: plain_secret_def)
  next
    case 3
    then have "t = drop 1 redacted_placeholder" using t placeholder_ends(4) by simp
    then have "last t = unit_of (CHR '']'')" "t \<noteq> []" by (simp_all add: redacted_placeholder_def js_def)
    then show ?thesis by (metis last_in_set plain_secret_def)
  next
    case 4
    then have "t = drop 2 redacted_placeholder" using t placeholder_ends(4) \<open>8 \<le> m\<close> by simp
    then have "last t = unit_of (CHR '']'')" "t \<noteq> []" by (simp_all add: redacted_placeholder_def js_def)
    then show ?thesis by (metis last_in_set plain_secret_def)
  qed
qed

lemma plain_secret_apart:
  assumes "plain_secret s" and "8 \<le> length s"
  shows "apart s redacted_placeholder"
proof -
  let ?o = "unit_of (CHR ''['')" and ?c = "unit_of (CHR '']'')" and ?p = redacted_placeholder
  have no: "?o \<notin> set s" "?c \<notin> set s" using assms(1) by (simp_all add: plain_secret_def)
  have "\<not> prefix v ?p \<and> \<not> prefix ?p v" if v: "suffix v s" "v \<noteq> []" for v
  proof -
    have "prefix v ?p \<Longrightarrow> hd v = ?o" using v(2) placeholder_ends by (metis hd_append2 prefix_def)
    moreover have "prefix ?p v \<Longrightarrow> hd v = ?o" using placeholder_ends by (metis hd_append2 prefix_def)
    moreover have "hd v \<in> set s" using v by (meson hd_in_set set_mono_suffix subsetD)
    ultimately show ?thesis using no by auto
  qed
  moreover have "\<not> prefix w s \<and> \<not> prefix s w" if w: "suffix w ?p" "w \<noteq> []" for w
  proof -
    have "last w = ?c" using w placeholder_ends by (metis last_appendR suffix_def)
    then have "prefix w s \<Longrightarrow> ?c \<in> set s" using w(2) by (metis last_in_set set_mono_prefix subsetD)
    moreover have "\<exists>n. w = drop n ?p" using w(1) by (metis suffix_drop suffix_def append_eq_conv_conj)
    ultimately show ?thesis using no long_part_of_placeholder assms by blast
  qed
  ultimately show ?thesis using assms(2) placeholder_ends(3) by (auto simp: apart_def)
qed

section \<open>Properties\<close>



text \<open>
  Every value under a sensitive key is the placeholder, at every depth.
\<close>

fun keys_redacted :: "(jstr \<Rightarrow> bool) \<Rightarrow> json \<Rightarrow> bool" where
  "keys_redacted sens (JArr xs) \<longleftrightarrow> (\<forall>x \<in> set xs. keys_redacted sens x)"
| "keys_redacted sens (JObj ps) \<longleftrightarrow> (\<forall>p \<in> set ps.
     (sens (fst p) \<longrightarrow> snd p = JStr redacted_placeholder) \<and> keys_redacted sens (snd p))"
| "keys_redacted sens _ \<longleftrightarrow> True"

text \<open>
  After redaction no value under a key the policy calls sensitive is left, however deep the
  object or array it sits in, and the keys themselves and their order are unchanged.
\<close>

lemma redact_sensitive_keys:
  "keys_redacted (isSensitiveKey (rd_unicode rd)) (redact rd v secrets) \<and>
   (\<forall>ps. v = JObj ps \<longrightarrow> (\<exists>qs. redact rd v secrets = JObj qs \<and> map fst qs = map fst ps))"
proof -
  have "keys_redacted (isSensitiveKey (rd_unicode rd)) (redactAny rd secrets depth v)" for depth
  proof (induction rd secrets depth v rule: redactAny.induct)
    case (1 rd secrets depth s)
    show ?case by (auto simp: Let_def split: option.split)
  qed auto
  moreover have "map fst (map (\<lambda>(k, v). (k, f k v)) ps) = map fst ps" for ps :: obj and f :: "jstr \<Rightarrow> json \<Rightarrow> json"
    by (induction ps) auto
  ultimately show ?thesis by (auto simp: redact_def)
qed

lemma redact_sensitive_keys_witness:
  "keys_redacted (isSensitiveKey \<lparr>nfkc = \<lambda>s. s, strip_evasion = \<lambda>s. s, to_lower = \<lambda>s. s\<rparr>)
     (redact \<lparr>rd_unicode = \<lparr>nfkc = \<lambda>s. s, strip_evasion = \<lambda>s. s, to_lower = \<lambda>s. s\<rparr>, rd_parse = \<lambda>_. None,
        rd_stringify = \<lambda>_. [], rd_text = \<lambda>s. s\<rparr> (JArr [JObj [(js ''author'', JNull)]]) [])"
  using redact_sensitive_keys[of "\<lparr>rd_unicode = \<lparr>nfkc = \<lambda>s. s, strip_evasion = \<lambda>s. s, to_lower = \<lambda>s. s\<rparr>,
      rd_parse = \<lambda>_. None, rd_stringify = \<lambda>_. [], rd_text = \<lambda>s. s\<rparr>" "JArr [JObj [(js ''author'', JNull)]]" "[]"]
  by simp

end
