(* ===== verification/Canonical_Hash.thy ===== *)
theory Canonical_Hash
  imports Json
begin

text \<open>
  \<open>policy/hash.ts\<close>: the key-sorted serialization of a JSON value and the fingerprints taken over it.
  A string is quoted as \<open>JSON.stringify\<close> quotes it (escapes for quotes, backslashes, control
  units and unpaired surrogates); the text of a number and the digest SHA-256 are the arguments
  \<open>num\<close> and \<open>sha\<close>. Nesting past the cap throws, which is \<^const>\<open>None\<close>.
\<close>

section \<open>Quoting\<close>

definition hex_digit :: "nat \<Rightarrow> u16" where
  "hex_digit n = (if n < 10 then word_of_nat (48 + n) else word_of_nat (87 + n))"

definition hex4 :: "u16 \<Rightarrow> jstr" where
  "hex4 c = (let n = unat c in
     [hex_digit (n div 4096), hex_digit (n div 256 mod 16), hex_digit (n div 16 mod 16), hex_digit (n mod 16)])"

definition high_surrogate :: "u16 \<Rightarrow> bool" where
  "high_surrogate c \<longleftrightarrow> 0xd800 \<le> c \<and> c \<le> 0xdbff"

definition low_surrogate :: "u16 \<Rightarrow> bool" where
  "low_surrogate c \<longleftrightarrow> 0xdc00 \<le> c \<and> c \<le> 0xdfff"

definition short_escapes :: "(u16 \<times> u16) list" where
  "short_escapes = [(8, unit_of (CHR ''b'')), (9, unit_of (CHR ''t'')), (10, unit_of (CHR ''n'')),
     (12, unit_of (CHR ''f'')), (13, unit_of (CHR ''r'')), (34, 34), (92, 92)]"

definition escape_unit :: "u16 \<Rightarrow> jstr" where
  "escape_unit c =
     (case map_of short_escapes c of
        Some e \<Rightarrow> [92, e]
      | None \<Rightarrow> if c < 0x20 \<or> high_surrogate c \<or> low_surrogate c
                then [92, unit_of (CHR ''u'')] @ hex4 c else [c])"

fun escape_units :: "jstr \<Rightarrow> jstr" where
  "escape_units (c # d # rest) =
     (if high_surrogate c \<and> low_surrogate d then c # d # escape_units rest
      else escape_unit c @ escape_units (d # rest))"
| "escape_units [c] = escape_unit c"
| "escape_units [] = []"

definition quote_json :: "jstr \<Rightarrow> jstr" where
  "quote_json s = [34] @ escape_units s @ [34]"

section \<open>The canonical serialization\<close>

definition canonical_max_depth :: nat where
  "canonical_max_depth = 64"

fun those_list :: "'a option list \<Rightarrow> 'a list option" where
  "those_list [] = Some []"
| "those_list (None # _) = None"
| "those_list (Some x # xs) = map_option ((#) x) (those_list xs)"

definition pair_value :: "(jstr \<Rightarrow> json \<Rightarrow> 'a) \<Rightarrow> obj \<Rightarrow> 'a list" where
  "pair_value f ps = map (\<lambda>k. f k (the (map_of ps k))) (sort (keys ps))"

lemma pair_value_cong [fundef_cong]:
  "ps = qs \<Longrightarrow> (\<And>k v. f k v = g k v) \<Longrightarrow> pair_value f ps = pair_value g qs"
  by (simp add: pair_value_def)

function stringifyCanonical :: "(64 word \<Rightarrow> jstr) \<Rightarrow> nat \<Rightarrow> json \<Rightarrow> jstr option" where
  "stringifyCanonical num depth v =
     (if canonical_max_depth < depth then None
      else case v of
          JNull \<Rightarrow> Some (js ''null'')
        | JBool b \<Rightarrow> Some (if b then js ''true'' else js ''false'')
        | JNum n \<Rightarrow> Some (num n)
        | JStr s \<Rightarrow> Some (quote_json s)
        | JArr xs \<Rightarrow>
            map_option (\<lambda>items. js ''['' @ join_with (js '','') items @ js '']'')
              (those_list (map (stringifyCanonical num (Suc depth)) xs))
        | JObj ps \<Rightarrow>
            map_option (\<lambda>entries. js ''{'' @ join_with (js '','') entries @ js ''}'')
              (those_list (pair_value (\<lambda>k.
                 map_option (\<lambda>t. quote_json k @ js '':'' @ t) \<circ> stringifyCanonical num (Suc depth)) ps)))"
  by pat_completeness auto
termination
  by (relation "measure (\<lambda>(num, depth, v). Suc canonical_max_depth - depth)") auto

declare stringifyCanonical.simps [simp del]

definition canonicalJson :: "(64 word \<Rightarrow> jstr) \<Rightarrow> json \<Rightarrow> jstr option" where
  "canonicalJson num v = stringifyCanonical num 0 v"

text \<open>A tool as a server advertises it (\<open>ToolDescriptor\<close>, \<open>protocol/mcp.ts\<close>).\<close>

record tool_descriptor =
  td_name :: jstr
  td_description :: "jstr option"
  td_schema :: "json option"
  td_annotations :: "obj option"

definition or_null :: "json option \<Rightarrow> json" where
  "or_null v = (case v of Some x \<Rightarrow> x | None \<Rightarrow> JNull)"

definition fingerprint_object :: "tool_descriptor \<Rightarrow> json" where
  "fingerprint_object t =
     JObj [(js ''name'', JStr (td_name t)), (js ''description'', or_null (map_option JStr (td_description t))),
           (js ''inputSchema'', or_null (td_schema t)), (js ''annotations'', or_null (map_option JObj (td_annotations t)))]"

definition hashToolSchema :: "(jstr \<Rightarrow> jstr) \<Rightarrow> (64 word \<Rightarrow> jstr) \<Rightarrow> tool_descriptor \<Rightarrow> jstr option" where
  "hashToolSchema sha num t = map_option sha (canonicalJson num (fingerprint_object t))"

end
