(* ===== verification/Schema_Diff.thy ===== *)
theory Schema_Diff
  imports Json Policy_Types
begin

text \<open>
  \<open>policy/schema-diff.ts\<close>: the bounded structural diff of two input schemas. The accumulator
  \<open>DiffState\<close> is threaded explicitly; a walk stops as soon as it is truncated. Reading a property
  of an object that has no such own property reaches \<open>Object.prototype\<close>, so a read gives
  \<open>undefined\<close>, a JSON value or one of the prototype's functions. \<open>Object.is\<close> is applied to values
  of two separately parsed documents, which share no reference.
\<close>

section \<open>The accumulator\<close>

datatype change_kind =
    PropertyAdded | PropertyRemoved | RequiredAdded | RequiredRemoved
  | EnumWidened | EnumNarrowed | EnumChanged | TypeChanged
  | KeywordAdded | KeywordRemoved | KeywordChanged
  | DescriptionChanged | AnnotationChanged | SchemaChanged

record schema_change =
  sc_kind :: change_kind
  sc_path :: jstr

record diff_state =
  ds_changes :: "schema_change list"
  ds_truncated :: bool

record diff_result =
  dr_changes :: "schema_change list"
  dr_delta :: surface_delta
  dr_truncated :: bool

definition max_depth :: nat where "max_depth = 32"

definition max_changes :: nat where "max_changes = 200"

definition neutral_keys :: "jstr list" where
  "neutral_keys = map js [''description'', ''title'', ''examples'', ''$comment'']"

fun delta_by_kind :: "change_kind \<Rightarrow> surface_delta" where
  "delta_by_kind PropertyAdded = Widened"
| "delta_by_kind PropertyRemoved = Narrowed"
| "delta_by_kind RequiredAdded = Narrowed"
| "delta_by_kind RequiredRemoved = Widened"
| "delta_by_kind EnumWidened = Widened"
| "delta_by_kind EnumNarrowed = Narrowed"
| "delta_by_kind EnumChanged = DChanged"
| "delta_by_kind TypeChanged = DChanged"
| "delta_by_kind KeywordAdded = DChanged"
| "delta_by_kind KeywordRemoved = DChanged"
| "delta_by_kind KeywordChanged = DChanged"
| "delta_by_kind DescriptionChanged = Neutral"
| "delta_by_kind AnnotationChanged = Neutral"
| "delta_by_kind SchemaChanged = DChanged"

definition joinPath :: "jstr \<Rightarrow> jstr \<Rightarrow> jstr" where
  "joinPath path segment = (if path = [] then segment else path @ js ''.'' @ segment)"

definition truncate_diff :: "diff_state \<Rightarrow> diff_state" where
  "truncate_diff st = st\<lparr>ds_truncated := True\<rparr>"

definition push :: "change_kind \<Rightarrow> jstr \<Rightarrow> diff_state \<Rightarrow> diff_state" where
  "push kind path st =
     (if max_changes \<le> length (ds_changes st) then truncate_diff st
      else st\<lparr>ds_changes := ds_changes st @ [\<lparr>sc_kind = kind, sc_path = path\<rparr>]\<rparr>)"

text \<open>\<open>for (const x of xs) { if (state.truncated) return; body(x) }\<close> and \<open>xs.every(...)\<close>.\<close>

fun walk :: "('x \<Rightarrow> diff_state \<Rightarrow> diff_state) \<Rightarrow> 'x list \<Rightarrow> diff_state \<Rightarrow> diff_state" where
  "walk body [] st = st"
| "walk body (x # xs) st = (if ds_truncated st then st else walk body xs (body x st))"

fun every :: "('x \<Rightarrow> 's \<Rightarrow> bool \<times> 's) \<Rightarrow> 'x list \<Rightarrow> 's \<Rightarrow> bool \<times> 's" where
  "every f [] st = (True, st)"
| "every f (x # xs) st = (let (ok, st') = f x st in if ok then every f xs st' else (False, st'))"

lemma walk_cong [fundef_cong]:
  "(\<And>x st. x \<in> set xs \<Longrightarrow> f x st = g x st) \<Longrightarrow> xs = ys \<Longrightarrow> st = st' \<Longrightarrow> walk f xs st = walk g ys st'"
  by (induction xs arbitrary: ys st st') auto

lemma every_cong [fundef_cong]:
  "(\<And>x st. x \<in> set xs \<Longrightarrow> f x st = g x st) \<Longrightarrow> xs = ys \<Longrightarrow> st = st' \<Longrightarrow> every f xs st = every g ys st'"
  by (induction xs arbitrary: ys st st') (auto split: prod.splits)

section \<open>The diff\<close>

function deepEqualBounded :: "jsv \<Rightarrow> jsv \<Rightarrow> nat \<Rightarrow> diff_state \<Rightarrow> bool \<times> diff_state" where
  "deepEqualBounded a b depth st =
     (if max_depth < depth then (True, truncate_diff st)
      else case (a, b) of
          (Val (JArr xs), Val (JArr ys)) \<Rightarrow>
            if length xs \<noteq> length ys then (False, st)
            else every (\<lambda>(x, y). deepEqualBounded (Val x) (Val y) (Suc depth)) (zip xs ys) st
        | (Val (JObj ps), Val (JObj qs)) \<Rightarrow>
            if sort (keys ps) \<noteq> sort (keys qs) then (False, st)
            else every (\<lambda>k. deepEqualBounded (js_get ps k) (js_get qs k) (Suc depth)) (sort (keys ps)) st
        | _ \<Rightarrow> (a = b, st))"
  by pat_completeness auto
termination
  by (relation "measure (\<lambda>(a, b, depth, st). Suc max_depth - depth)") auto

declare deepEqualBounded.simps [simp del]

definition stringSetOf :: "jsv \<Rightarrow> jstr list" where
  "stringSetOf v = (case array_of v of
     None \<Rightarrow> [] | Some xs \<Rightarrow> remdups (List.map_filter (\<lambda>x. as_str (Some x)) xs))"

definition diffRequired :: "jsv \<Rightarrow> jsv \<Rightarrow> jstr \<Rightarrow> diff_state \<Rightarrow> diff_state" where
  "diffRequired before after keyPath st =
     (let beforeNames = stringSetOf before; afterNames = stringSetOf after;
          st' = walk (\<lambda>name st. if name \<in> set beforeNames then st
                  else push RequiredAdded (keyPath @ js ''.'' @ name) st) (sort afterNames) st
      in walk (\<lambda>name st. if name \<in> set afterNames then st
           else push RequiredRemoved (keyPath @ js ''.'' @ name) st) (sort beforeNames) st')"

definition enumMemberKey :: "(json \<Rightarrow> jstr option) \<Rightarrow> json \<Rightarrow> jstr" where
  "enumMemberKey stringify member =
     (case stringify member of Some s \<Rightarrow> s | None \<Rightarrow> js ''[unserializable]'')"

definition enum_kind :: "(json \<Rightarrow> jstr option) \<Rightarrow> json list \<Rightarrow> json list \<Rightarrow> change_kind option" where
  "enum_kind stringify before after =
     (let beforeSet = map (enumMemberKey stringify) before;
          afterSet = map (enumMemberKey stringify) after;
          added = list_ex (\<lambda>m. m \<notin> set beforeSet) afterSet;
          removed = list_ex (\<lambda>m. m \<notin> set afterSet) beforeSet
      in if \<not> added \<and> \<not> removed then None
         else Some (if added \<and> removed then EnumChanged else if added then EnumWidened else EnumNarrowed))"

definition diffEnum ::
  "(json \<Rightarrow> jstr option) \<Rightarrow> json list \<Rightarrow> json list \<Rightarrow> jstr \<Rightarrow> diff_state \<Rightarrow> diff_state" where
  "diffEnum stringify before after keyPath st =
     (case enum_kind stringify before after of None \<Rightarrow> st | Some kind \<Rightarrow> push kind keyPath st)"

definition push_unless_equal :: "jsv \<Rightarrow> jsv \<Rightarrow> nat \<Rightarrow> change_kind \<Rightarrow> jstr \<Rightarrow> diff_state \<Rightarrow> diff_state" where
  "push_unless_equal before after depth kind path st =
     (let (eq, st') = deepEqualBounded before after depth st in if eq then st' else push kind path st')"

text \<open>
  The recursive call of \<open>diffProperties\<close> and \<open>diffKey\<close> is \<open>diffNode\<close> one level down, passed in as
  \<open>node\<close>.
\<close>

type_synonym node_diff = "jsv \<Rightarrow> jsv \<Rightarrow> jstr \<Rightarrow> diff_state \<Rightarrow> diff_state"

definition asObject :: "jsv \<Rightarrow> obj" where
  "asObject v = (case plain_object v of Some ps \<Rightarrow> ps | None \<Rightarrow> [])"

definition diffProperties :: "node_diff \<Rightarrow> obj \<Rightarrow> obj \<Rightarrow> jstr \<Rightarrow> diff_state \<Rightarrow> diff_state" where
  "diffProperties node before after parentPath =
     walk (\<lambda>name st.
       let propPath = joinPath parentPath (js ''properties.'' @ name) in
       if has_own before name \<and> has_own after name
       then node (js_get before name) (js_get after name) propPath st
       else push (if has_own after name then PropertyAdded else PropertyRemoved) propPath st)
     (sort_unique (keys before @ keys after))"

definition diffKey ::
  "(json \<Rightarrow> jstr option) \<Rightarrow> node_diff \<Rightarrow> jsv \<Rightarrow> jsv \<Rightarrow> jstr \<Rightarrow> jstr \<Rightarrow> nat \<Rightarrow> diff_state \<Rightarrow> diff_state" where
  "diffKey stringify node before after key path depth st =
     (let keyPath = joinPath path key in
      if key = js ''properties'' then diffProperties node (asObject before) (asObject after) path st
      else if key = js ''required'' then diffRequired before after keyPath st
      else if key = js ''enum'' \<and> array_of before \<noteq> None \<and> array_of after \<noteq> None
      then diffEnum stringify (the (array_of before)) (the (array_of after)) keyPath st
      else if key = js ''type'' then push_unless_equal before after depth TypeChanged keyPath st
      else if key \<in> set neutral_keys
      then push_unless_equal before after depth
             (if key = js ''description'' then DescriptionChanged else AnnotationChanged) keyPath st
      else if plain_object before \<noteq> None \<and> plain_object after \<noteq> None then node before after keyPath st
      else if before = Undef then push KeywordAdded keyPath st
      else if after = Undef then push KeywordRemoved keyPath st
      else push_unless_equal before after depth KeywordChanged keyPath st)"

definition diffObject ::
  "(json \<Rightarrow> jstr option) \<Rightarrow> node_diff \<Rightarrow> obj \<Rightarrow> obj \<Rightarrow> jstr \<Rightarrow> nat \<Rightarrow> diff_state \<Rightarrow> diff_state" where
  "diffObject stringify node before after path depth =
     walk (\<lambda>key. diffKey stringify node (js_get before key) (js_get after key) key path depth)
       (sort_unique (keys before @ keys after))"

lemma diffObject_cong [fundef_cong]:
  "(\<And>b a p s. node b a p s = node' b a p s) \<Longrightarrow> before = before' \<Longrightarrow> after = after' \<Longrightarrow>
   diffObject stringify node before after = diffObject stringify node' before' after'"
  by (metis ext)

function diffNode ::
  "(json \<Rightarrow> jstr option) \<Rightarrow> nat \<Rightarrow> jsv \<Rightarrow> jsv \<Rightarrow> jstr \<Rightarrow> diff_state \<Rightarrow> diff_state" where
  "diffNode stringify depth before after path st =
     (if max_depth < depth then truncate_diff st
      else case (before, after) of
          (Val (JObj b), Val (JObj a)) \<Rightarrow>
            diffObject stringify (diffNode stringify (Suc depth)) b a path depth st
        | _ \<Rightarrow> push_unless_equal before after depth SchemaChanged path st)"
  by pat_completeness auto
termination
  by (relation "measure (\<lambda>(stringify, depth, _). Suc max_depth - depth)") auto

declare diffNode.simps [simp del]

fun combineDelta :: "surface_delta \<Rightarrow> surface_delta \<Rightarrow> surface_delta" where
  "combineDelta a b =
     (if a = DChanged \<or> b = DChanged then DChanged
      else if a = Neutral then b
      else if b = Neutral then a
      else if a = b then a else DChanged)"

definition aggregateDelta :: "schema_change list \<Rightarrow> surface_delta" where
  "aggregateDelta changes = foldl (\<lambda>acc c. combineDelta acc (delta_by_kind (sc_kind c))) Neutral changes"

definition diffToolSchemas :: "(json \<Rightarrow> jstr option) \<Rightarrow> jsv \<Rightarrow> jsv \<Rightarrow> diff_result" where
  "diffToolSchemas stringify before after =
     (let st = diffNode stringify 0 before after [] \<lparr>ds_changes = [], ds_truncated = False\<rparr>
      in \<lparr>dr_changes = ds_changes st, dr_delta = aggregateDelta (ds_changes st),
          dr_truncated = ds_truncated st\<rparr>)"

section \<open>What the comparison decides\<close>

text \<open>Two values are the same up to the order of keys when their key-sorted forms are equal.\<close>

primrec canon :: "json \<Rightarrow> json" where
  "canon JNull = JNull"
| "canon (JBool b) = JBool b"
| "canon (JNum n) = JNum n"
| "canon (JStr s) = JStr s"
| "canon (JArr xs) = JArr (map canon xs)"
| "canon (JObj ps) = JObj (sort_key fst (map (map_prod id canon) ps))"

fun same :: "jsv \<Rightarrow> jsv \<Rightarrow> bool" where
  "same (Val a) (Val b) \<longleftrightarrow> canon a = canon b"
| "same a b \<longleftrightarrow> a = b"

fun wf_jsv :: "jsv \<Rightarrow> bool" where
  "wf_jsv (Val v) \<longleftrightarrow> wf_json v"
| "wf_jsv _ \<longleftrightarrow> True"

lemma sorted_assoc_unique:
  assumes "sorted (map fst xs)" "sorted (map fst ys)" "distinct (map fst xs)" "distinct (map fst ys)"
    and "map_of xs = map_of (ys :: ('a::linorder \<times> 'b) list)"
  shows "xs = ys"
proof -
  have "set xs = set ys" using assms(3-5) by (metis map_of_inject_set)
  moreover from this have "map fst xs = map fst ys"
    using assms by (metis sorted_distinct_set_unique list.set_map)
  ultimately show ?thesis
    using assms(3) by (metis (no_types, lifting) inj_on_map_eq_map distinct_map sup.idem)
qed

lemma map_of_sort_key: "distinct (map fst xs) \<Longrightarrow> map_of (sort_key fst xs) = map_of xs"
  by (rule map_of_inject_set[THEN iffD2]) (auto simp: distinct_map)

lemma keys_canon: "map fst (sort_key fst (map (map_prod id canon) ps)) = sort (keys ps)" if "wf_map ps"
proof (rule sorted_distinct_set_unique)
  have "distinct (map fst (map (map_prod id canon) ps))" using that by simp
  then show "distinct (map fst (sort_key fst (map (map_prod id canon) ps)))"
    by (simp only: distinct_map distinct_sort set_sort)
qed (use that in \<open>auto simp: keys_def image_image\<close>)

lemma map_of_canon: "wf_map ps \<Longrightarrow>
    map_of (sort_key fst (map (map_prod id canon) ps)) = (\<lambda>k. map_option canon (map_of ps k))"
proof -
  assume wf: "wf_map ps"
  have "map fst (map (map_prod id canon) ps) = map fst ps" by simp
  with wf have "map_of (sort_key fst (map (map_prod id canon) ps)) = map_of (map (map_prod id canon) ps)"
    by (intro map_of_sort_key) simp
  also have "\<dots> = (\<lambda>k. map_option canon (map_of ps k))"
    by (induction ps) auto
  finally show ?thesis .
qed

lemma canon_obj:
  assumes "wf_map ps" "wf_map qs"
  shows "canon (JObj ps) = canon (JObj qs) \<longleftrightarrow> sort (keys ps) = sort (keys qs) \<and>
    (\<forall>k \<in> set (keys ps). canon (the (map_of ps k)) = canon (the (map_of qs k)))"
    (is "?L \<longleftrightarrow> ?R")
proof
  assume ?L
  then have eq: "sort_key fst (map (map_prod id canon) ps) = sort_key fst (map (map_prod id canon) qs)"
    by simp
  then have ks: "sort (keys ps) = sort (keys qs)" using assms by (metis keys_canon)
  have "(\<lambda>k. map_option canon (map_of ps k)) = (\<lambda>k. map_option canon (map_of qs k))"
    using eq map_of_canon[OF assms(1)] map_of_canon[OF assms(2)] by simp
  then have val: "map_option canon (map_of ps k) = map_option canon (map_of qs k)" for k
    by (rule fun_cong)
  have "canon (the (map_of ps k)) = canon (the (map_of qs k))" if "k \<in> set (keys ps)" for k
    using that val[of k] by (cases "map_of qs k") (auto simp: in_keys_iff)
  with ks show ?R by blast
next
  assume ?R
  then have ks: "set (keys ps) = set (keys qs)" by (metis set_sort)
  have "map_option canon (map_of ps k) = map_option canon (map_of qs k)" for k
  proof (cases "k \<in> set (keys ps)")
    case True
    then obtain v w where "map_of ps k = Some v" "map_of qs k = Some w"
      using ks in_keys_iff[of k ps] in_keys_iff[of k qs] by auto
    with True \<open>?R\<close> show ?thesis by force
  next
    case False
    then show ?thesis using ks in_keys_iff[of k ps] in_keys_iff[of k qs] by simp
  qed
  then have "sort_key fst (map (map_prod id canon) ps) = sort_key fst (map (map_prod id canon) qs)"
    by (intro sorted_assoc_unique)
      (simp_all only: keys_canon[OF assms(1)] keys_canon[OF assms(2)] map_of_canon[OF assms(1)]
        map_of_canon[OF assms(2)] sorted_sort distinct_sort keys_def assms simp_thms)
  then show ?L by simp
qed

lemma canon_mixed:
  assumes "array_of (Val a) = None \<or> array_of (Val b) = None"
    and "plain_object (Val a) = None \<or> plain_object (Val b) = None"
  shows "canon a = canon b \<longleftrightarrow> a = b"
  using assms by (cases a; cases b) simp_all

definition decides :: "bool \<Rightarrow> diff_state \<Rightarrow> bool \<times> diff_state \<Rightarrow> bool" where
  "decides P st res \<longleftrightarrow> ds_changes (snd res) = ds_changes st \<and>
     (ds_truncated st \<longrightarrow> ds_truncated (snd res)) \<and>
     (\<not> fst res \<longrightarrow> \<not> P) \<and> (fst res \<and> \<not> ds_truncated (snd res) \<longrightarrow> P)"

lemma decides_exact: "decides P st (P, st)"
  by (simp add: decides_def)

lemma decides_every:
  "(\<And>x st. x \<in> set xs \<Longrightarrow> decides (P x) st (f x st)) \<Longrightarrow> decides (\<forall>x \<in> set xs. P x) st (every f xs st)"
proof (induction xs arbitrary: st)
  case (Cons x xs)
  have "decides (P x) st (f x st)" using Cons.prems by simp
  moreover have "decides (\<forall>x \<in> set xs. P x) (snd (f x st)) (every f xs (snd (f x st)))"
    using Cons by simp
  ultimately show ?case by (auto simp: decides_def Let_def split: prod.splits)
qed (simp add: decides_def)

lemma js_get_own: "k \<in> set (keys ps) \<Longrightarrow> js_get ps k = Val (the (map_of ps k))"
proof -
  assume "k \<in> set (keys ps)"
  then obtain v where "map_of ps k = Some v" by (auto simp: in_keys_iff)
  then show ?thesis by (simp add: js_get_def)
qed

lemma wf_js_get: "wf_json (JObj ps) \<Longrightarrow> wf_jsv (js_get ps k)"
  by (auto simp: js_get_def split: option.split dest!: map_of_SomeD)

lemma same_arrays: "same (Val (JArr xs)) (Val (JArr ys)) \<longleftrightarrow>
    length xs = length ys \<and> (\<forall>(x, y) \<in> set (zip xs ys). canon x = canon y)"
  by (auto simp: list_eq_iff_zip_eq zip_map_map dest: map_eq_imp_length_eq)

lemma deepEqual_decides:
  "wf_jsv a \<Longrightarrow> wf_jsv b \<Longrightarrow> decides (same a b) st (deepEqualBounded a b depth st)"
proof (induction a b depth st rule: deepEqualBounded.induct)
  case (1 a b depth st)
  show ?case
  proof (cases "max_depth < depth")
    case True
    then show ?thesis by (simp add: decides_def deepEqualBounded.simps[of a b] truncate_diff_def)
  next
    case depth: False
    consider (arr) xs ys where "a = Val (JArr xs)" "b = Val (JArr ys)"
      | (obj) ps qs where "a = Val (JObj ps)" "b = Val (JObj qs)"
      | (other) "array_of a = None \<or> array_of b = None" "plain_object a = None \<or> plain_object b = None"
      by (metis array_of_Some plain_object_Some not_None_eq)
    then show ?thesis
    proof cases
      case arr
      show ?thesis
      proof (cases "length xs = length ys")
        case True
        let ?P = "\<lambda>p. case p of (x, y) \<Rightarrow> canon x = canon y"
        have "decides (\<forall>p \<in> set (zip xs ys). ?P p) st
            (every (\<lambda>(x, y). deepEqualBounded (Val x) (Val y) (Suc depth)) (zip xs ys) st)"
        proof (rule decides_every)
          fix p st' assume p: "p \<in> set (zip xs ys)"
          then obtain x y where xy: "p = (x, y)" "x \<in> set xs" "y \<in> set ys"
            by (metis set_zip_leftD set_zip_rightD surj_pair)
          then have "wf_jsv (Val x)" "wf_jsv (Val y)" using 1(3,4) arr by auto
          then show "decides (?P p) st' ((\<lambda>(x, y). deepEqualBounded (Val x) (Val y) (Suc depth)) p st')"
            using 1(1)[OF depth refl arr(1) refl arr(2) refl _ p xy(1)[symmetric]] True xy(1) by simp
        qed
        then show ?thesis
          using arr depth True by (simp add: deepEqualBounded.simps[of "Val (JArr xs)"] same_arrays del: same.simps)
      next
        case False
        then have "\<not> same a b" using arr by (auto dest: map_eq_imp_length_eq)
        with False arr depth show ?thesis by (simp add: deepEqualBounded.simps[of "Val (JArr xs)"] decides_def)
      qed
    next
      case obj
      have wf: "wf_map ps" "wf_map qs" using 1(3,4) obj by auto
      show ?thesis
      proof (cases "sort (keys ps) = sort (keys qs)")
        case True
        let ?P = "\<lambda>k. canon (the (map_of ps k)) = canon (the (map_of qs k))"
        have "decides (\<forall>k \<in> set (sort (keys ps)). ?P k) st
            (every (\<lambda>k. deepEqualBounded (js_get ps k) (js_get qs k) (Suc depth)) (sort (keys ps)) st)"
        proof (rule decides_every)
          fix k st' assume k: "k \<in> set (sort (keys ps))"
          then have kq: "k \<in> set (keys qs)" using True by (metis set_sort)
          have "wf_jsv (js_get ps k)" "wf_jsv (js_get qs k)" using 1(3,4) obj wf_js_get by auto
          then have "decides (same (js_get ps k) (js_get qs k)) st'
              (deepEqualBounded (js_get ps k) (js_get qs k) (Suc depth) st')"
            using 1(2)[OF depth refl obj(1) refl obj(2) refl _ k] True by simp
          then show "decides (?P k) st' (deepEqualBounded (js_get ps k) (js_get qs k) (Suc depth) st')"
            using k kq by (simp add: js_get_own)
        qed
        moreover have "set (keys ps) = set (keys qs)" using True by (metis set_sort)
        ultimately show ?thesis
          using obj depth True canon_obj[OF wf]
          by (simp add: deepEqualBounded.simps[of "Val (JObj ps)"] del: canon.simps)
      next
        case False
        then have "\<not> same a b" using obj canon_obj[OF wf] by (simp del: canon.simps)
        with False obj depth show ?thesis by (simp add: deepEqualBounded.simps[of "Val (JObj ps)"] decides_def)
      qed
    next
      case other
      then have "deepEqualBounded a b depth st = (a = b, st)"
        using depth by (auto simp: deepEqualBounded.simps[of a b] split: jsv.splits json.splits)
      moreover have "same a b \<longleftrightarrow> a = b"
        using other by (cases a; cases b) (auto simp: canon_mixed)
      ultimately show ?thesis by (simp add: decides_exact)
    qed
  qed
qed

section \<open>Which changes there are\<close>

text \<open>
  The changes of two schemas, without bounds and without an order: \<open>key_change\<close> are those of one
  keyword that is not a nested schema, \<open>change_at\<close> finds them at every depth.
\<close>

definition change :: "change_kind \<Rightarrow> jstr \<Rightarrow> schema_change" where
  "change kind path = \<lparr>sc_kind = kind, sc_path = path\<rparr>"

definition key_change ::
  "(json \<Rightarrow> jstr option) \<Rightarrow> jstr \<Rightarrow> jsv \<Rightarrow> jsv \<Rightarrow> jstr \<Rightarrow> schema_change \<Rightarrow> bool" where
  "key_change stringify key b a kp c \<longleftrightarrow>
     (if key = js ''required'' then
        (\<exists>name. name \<in> set (stringSetOf a) - set (stringSetOf b) \<and> c = change RequiredAdded (kp @ js ''.'' @ name)) \<or>
        (\<exists>name. name \<in> set (stringSetOf b) - set (stringSetOf a) \<and> c = change RequiredRemoved (kp @ js ''.'' @ name))
      else if key = js ''enum'' \<and> array_of b \<noteq> None \<and> array_of a \<noteq> None then
        (\<exists>kind. enum_kind stringify (the (array_of b)) (the (array_of a)) = Some kind \<and> c = change kind kp)
      else if key = js ''type'' then \<not> same b a \<and> c = change TypeChanged kp
      else if key = js ''description'' then \<not> same b a \<and> c = change DescriptionChanged kp
      else if key \<in> set neutral_keys then \<not> same b a \<and> c = change AnnotationChanged kp
      else if b = Undef then c = change KeywordAdded kp
      else if a = Undef then c = change KeywordRemoved kp
      else \<not> same b a \<and> c = change KeywordChanged kp)"

text \<open>The keys whose values, when both are objects, are compared as nested schemas.\<close>

definition nested_key :: "jstr \<Rightarrow> jsv \<Rightarrow> jsv \<Rightarrow> bool" where
  "nested_key key b a \<longleftrightarrow>
     key \<notin> {js ''properties'', js ''required'', js ''type''} \<union> set neutral_keys \<and>
     plain_object b \<noteq> None \<and> plain_object a \<noteq> None"

inductive change_at ::
  "(json \<Rightarrow> jstr option) \<Rightarrow> jsv \<Rightarrow> jsv \<Rightarrow> jstr \<Rightarrow> schema_change \<Rightarrow> bool" for stringify where
  other: "plain_object b = None \<or> plain_object a = None \<Longrightarrow> \<not> same b a \<Longrightarrow>
    change_at stringify b a path (change SchemaChanged path)"
| property_added: "name \<in> set (keys (asObject (js_get ao (js ''properties'')))) \<Longrightarrow>
    name \<notin> set (keys (asObject (js_get bo (js ''properties'')))) \<Longrightarrow>
    change_at stringify (Val (JObj bo)) (Val (JObj ao)) path
      (change PropertyAdded (joinPath path (js ''properties.'' @ name)))"
| property_removed: "name \<in> set (keys (asObject (js_get bo (js ''properties'')))) \<Longrightarrow>
    name \<notin> set (keys (asObject (js_get ao (js ''properties'')))) \<Longrightarrow>
    change_at stringify (Val (JObj bo)) (Val (JObj ao)) path
      (change PropertyRemoved (joinPath path (js ''properties.'' @ name)))"
| property: "name \<in> set (keys (asObject (js_get bo (js ''properties'')))) \<Longrightarrow>
    name \<in> set (keys (asObject (js_get ao (js ''properties'')))) \<Longrightarrow>
    change_at stringify (js_get (asObject (js_get bo (js ''properties''))) name)
      (js_get (asObject (js_get ao (js ''properties''))) name) (joinPath path (js ''properties.'' @ name)) c \<Longrightarrow>
    change_at stringify (Val (JObj bo)) (Val (JObj ao)) path c"
| nested: "key \<in> set (keys bo @ keys ao) \<Longrightarrow> nested_key key (js_get bo key) (js_get ao key) \<Longrightarrow>
    change_at stringify (js_get bo key) (js_get ao key) (joinPath path key) c \<Longrightarrow>
    change_at stringify (Val (JObj bo)) (Val (JObj ao)) path c"
| keyword: "key \<in> set (keys bo @ keys ao) \<Longrightarrow> key \<noteq> js ''properties'' \<Longrightarrow>
    \<not> nested_key key (js_get bo key) (js_get ao key) \<Longrightarrow>
    key_change stringify key (js_get bo key) (js_get ao key) (joinPath path key) c \<Longrightarrow>
    change_at stringify (Val (JObj bo)) (Val (JObj ao)) path c"

inductive_simps change_at_objects: "change_at stringify (Val (JObj bo)) (Val (JObj ao)) path c"

inductive_simps change_at_any: "change_at stringify b a path c"

section \<open>The walk records exactly those\<close>

definition records :: "(schema_change \<Rightarrow> bool) \<Rightarrow> diff_state \<Rightarrow> diff_state \<Rightarrow> bool" where
  "records P st st' \<longleftrightarrow> (ds_truncated st \<longrightarrow> ds_truncated st') \<and>
     (\<exists>new. ds_changes st' = ds_changes st @ new \<and> (\<forall>c \<in> set new. P c) \<and>
        (\<not> ds_truncated st' \<longrightarrow> (\<forall>c. P c \<longrightarrow> c \<in> set new)))"

lemma records_none: "(\<And>c. \<not> P c) \<Longrightarrow> records P st st"
  by (simp add: records_def)

lemma records_truncated: "records P st (truncate_diff st)"
  by (simp add: records_def truncate_diff_def)

lemma records_push: "records (\<lambda>c. c = change kind path) st (push kind path st)"
  by (auto simp: records_def push_def truncate_diff_def change_def)

lemma records_push_unless:
  "records (\<lambda>c. \<not> P \<and> c = change kind path) st (if P then st else push kind path st)"
  using records_push[of kind path st] records_none[of "\<lambda>c. False" st] by simp

lemma records_seq:
  assumes "records P st st1" and "records Q st1 st2"
  shows "records (\<lambda>c. P c \<or> Q c) st st2"
proof -
  obtain n1 where n1: "ds_changes st1 = ds_changes st @ n1" "\<forall>c \<in> set n1. P c"
      "\<not> ds_truncated st1 \<longrightarrow> (\<forall>c. P c \<longrightarrow> c \<in> set n1)"
    using assms(1) by (auto simp: records_def)
  obtain n2 where n2: "ds_changes st2 = ds_changes st1 @ n2" "\<forall>c \<in> set n2. Q c"
      "\<not> ds_truncated st2 \<longrightarrow> (\<forall>c. Q c \<longrightarrow> c \<in> set n2)"
    using assms(2) by (auto simp: records_def)
  have "ds_changes st2 = ds_changes st @ (n1 @ n2)" using n1(1) n2(1) by simp
  moreover have "\<not> ds_truncated st2 \<longrightarrow> (\<forall>c. P c \<or> Q c \<longrightarrow> c \<in> set (n1 @ n2))"
    using n1(3) n2(3) assms(2) by (auto simp: records_def)
  moreover have "ds_truncated st \<longrightarrow> ds_truncated st2"
    using assms by (auto simp: records_def)
  ultimately show ?thesis using n1(2) n2(2) unfolding records_def by fastforce
qed

lemma records_cong: "records P st st' \<Longrightarrow> (\<And>c. P c \<longleftrightarrow> Q c) \<Longrightarrow> records Q st st'"
  by (simp add: records_def)

lemma records_walk:
  "(\<And>x st. x \<in> set xs \<Longrightarrow> records (P x) st (body x st)) \<Longrightarrow>
   records (\<lambda>c. \<exists>x \<in> set xs. P x c) st (walk body xs st)"
proof (induction xs arbitrary: st)
  case (Cons x xs)
  show ?case
  proof (cases "ds_truncated st")
    case False
    have "records (P x) st (body x st)" using Cons.prems by simp
    moreover have "records (\<lambda>c. \<exists>x \<in> set xs. P x c) (body x st) (walk body xs (body x st))"
      using Cons by simp
    ultimately have "records (\<lambda>c. P x c \<or> (\<exists>x \<in> set xs. P x c)) st (walk body xs (body x st))"
      by (rule records_seq)
    then show ?thesis using False by (auto elim: records_cong)
  qed (simp add: records_def)
qed (simp add: records_none)

lemma records_push_unless_equal:
  assumes "wf_jsv b" "wf_jsv a"
  shows "records (\<lambda>c. \<not> same b a \<and> c = change kind path) st (push_unless_equal b a depth kind path st)"
proof -
  obtain r st1 where r: "deepEqualBounded b a depth st = (r, st1)" by fastforce
  with deepEqual_decides[OF assms, of st depth] have d: "decides (same b a) st (r, st1)" by simp
  show ?thesis
  proof (cases r)
    case True
    with d r show ?thesis by (auto simp: decides_def records_def push_unless_equal_def)
  next
    case False
    then have "records (\<lambda>c. False) st st1" using d by (auto simp: decides_def records_def)
    from records_seq[OF this records_push[of kind path st1]] False d r show ?thesis
      by (auto simp: push_unless_equal_def decides_def elim: records_cong)
  qed
qed

lemma records_required:
  "records (key_change stringify (js ''required'') b a kp) st (diffRequired b a kp st)"
proof -
  let ?A = "stringSetOf a" and ?B = "stringSetOf b"
  have "records (\<lambda>c. (\<exists>n \<in> set (sort ?A). n \<notin> set ?B \<and> c = change RequiredAdded (kp @ js ''.'' @ n)) \<or>
      (\<exists>n \<in> set (sort ?B). n \<notin> set ?A \<and> c = change RequiredRemoved (kp @ js ''.'' @ n)))
      st (diffRequired b a kp st)"
    unfolding diffRequired_def Let_def
    by (rule records_seq[rotated]) (rule records_walk, rule records_push_unless)+
  then show ?thesis by (rule records_cong) (auto simp: key_change_def)
qed

lemma records_enum:
  "b = Val (JArr xs) \<Longrightarrow> a = Val (JArr ys) \<Longrightarrow>
   records (key_change stringify (js ''enum'') b a kp) st (diffEnum stringify xs ys kp st)"
proof (cases "enum_kind stringify xs ys")
  case (Some kind)
  assume "b = Val (JArr xs)" "a = Val (JArr ys)"
  with Some show ?thesis
    using records_cong[OF records_push[of kind kp st], of "key_change stringify (js ''enum'') b a kp"]
    by (simp add: diffEnum_def key_change_def)
qed (simp add: diffEnum_def key_change_def records_none)

definition property_change ::
  "(json \<Rightarrow> jstr option) \<Rightarrow> obj \<Rightarrow> obj \<Rightarrow> jstr \<Rightarrow> jstr \<Rightarrow> schema_change \<Rightarrow> bool" where
  "property_change stringify pb pa name propPath c \<longleftrightarrow>
     (if has_own pb name \<and> has_own pa name
      then change_at stringify (js_get pb name) (js_get pa name) propPath c
      else c = change (if has_own pa name then PropertyAdded else PropertyRemoved) propPath)"

definition node_changes ::
  "(json \<Rightarrow> jstr option) \<Rightarrow> jsv \<Rightarrow> jsv \<Rightarrow> jstr \<Rightarrow> jstr \<Rightarrow> schema_change \<Rightarrow> bool" where
  "node_changes stringify b a key path c \<longleftrightarrow>
     (if key = js ''properties'' then
        (\<exists>name \<in> set (sort_unique (keys (asObject b) @ keys (asObject a))).
          property_change stringify (asObject b) (asObject a) name (joinPath path (js ''properties.'' @ name)) c)
      else if nested_key key b a then change_at stringify b a (joinPath path key) c
      else key_change stringify key b a (joinPath path key) c)"

lemma change_at_node: "change_at stringify (Val (JObj bo)) (Val (JObj ao)) path c \<longleftrightarrow>
    (\<exists>key \<in> set (sort_unique (keys bo @ keys ao)).
       node_changes stringify (js_get bo key) (js_get ao key) key path c)" (is "?L \<longleftrightarrow> ?R")
proof
  let ?P = "js ''properties''"
  have in_props: "?P \<in> set (keys bo @ keys ao)"
    if "name \<in> set (keys (asObject (js_get bo ?P))) \<or> name \<in> set (keys (asObject (js_get ao ?P)))" for name
    using that
    by (auto simp: asObject_def js_get_def in_keys_iff prototype_functions_def keys_def[of "[]"]
        split: option.splits if_splits)
  have props: "?R" if "name \<in> set (keys (asObject (js_get bo ?P)) @ keys (asObject (js_get ao ?P)))"
      and "property_change stringify (asObject (js_get bo ?P)) (asObject (js_get ao ?P)) name
          (joinPath path (js ''properties.'' @ name)) c" for name
  proof (rule bexI[of _ ?P])
    show "node_changes stringify (js_get bo ?P) (js_get ao ?P) ?P path c"
      unfolding node_changes_def using that by auto
    show "?P \<in> set (sort_unique (keys bo @ keys ao))" using in_props[of name] that(1) by simp
  qed
  assume ?L
  then show ?R
  proof (cases rule: change_at.cases)
    case (property_added name)
    then show ?thesis by (intro props[of name]) (auto simp: in_keys_iff property_change_def)
  next
    case (property_removed name)
    then show ?thesis by (intro props[of name]) (auto simp: in_keys_iff property_change_def)
  next
    case (property name)
    then show ?thesis by (intro props[of name]) (auto simp: in_keys_iff property_change_def)
  next
    case (nested key)
    then show ?thesis by (intro bexI[of _ key]) (auto simp: node_changes_def nested_key_def)
  next
    case (keyword key)
    then show ?thesis by (intro bexI[of _ key]) (auto simp: node_changes_def)
  qed simp
next
  assume ?R
  then obtain key where key: "key \<in> set (keys bo @ keys ao)"
      "node_changes stringify (js_get bo key) (js_get ao key) key path c" by auto
  show ?L
  proof (cases "key = js ''properties''")
    case True
    let ?B = "asObject (js_get bo (js ''properties''))" and ?A = "asObject (js_get ao (js ''properties''))"
    from True key(2) obtain name where n: "name \<in> set (keys ?B @ keys ?A)"
        "property_change stringify ?B ?A name (joinPath path (js ''properties.'' @ name)) c"
      by (auto simp: node_changes_def)
    consider "name \<in> set (keys ?B)" "name \<in> set (keys ?A)" | "name \<in> set (keys ?B)" "name \<notin> set (keys ?A)"
      | "name \<notin> set (keys ?B)" "name \<in> set (keys ?A)"
      using n(1) by auto
    then show ?thesis
    proof cases
      case 1
      with n(2) have "change_at stringify (js_get ?B name) (js_get ?A name) (joinPath path (js ''properties.'' @ name)) c"
        by (simp add: property_change_def in_keys_iff)
      with 1 show ?thesis by (rule change_at.property)
    next
      case 2
      with n(2) change_at.property_removed[OF this] show ?thesis by (simp add: property_change_def in_keys_iff)
    next
      case 3
      with n(2) change_at.property_added[OF this(2,1)] show ?thesis by (simp add: property_change_def in_keys_iff)
    qed
  next
    case False
    show ?thesis
    proof (cases "nested_key key (js_get bo key) (js_get ao key)")
      case True
      with False key(2) have "change_at stringify (js_get bo key) (js_get ao key) (joinPath path key) c"
        by (simp add: node_changes_def)
      with key(1) True show ?thesis by (rule change_at.nested)
    next
      case no: False
      with False key(2) have "key_change stringify key (js_get bo key) (js_get ao key) (joinPath path key) c"
        by (simp add: node_changes_def)
      with key(1) False no show ?thesis by (rule change_at.keyword)
    qed
  qed
qed

lemma wf_asObject: "wf_jsv v \<Longrightarrow> wf_json (JObj (asObject v))"
  by (cases v rule: plain_object.cases) (auto simp: asObject_def)

lemma records_properties:
  assumes "\<And>b a p st. wf_jsv b \<Longrightarrow> wf_jsv a \<Longrightarrow> records (change_at stringify b a p) st (node b a p st)"
    and "wf_json (JObj pb)" "wf_json (JObj pa)"
  shows "records (\<lambda>c. \<exists>name \<in> set (sort_unique (keys pb @ keys pa)).
      property_change stringify pb pa name (joinPath path (js ''properties.'' @ name)) c)
    st (diffProperties node pb pa path st)"
  unfolding diffProperties_def
proof (rule records_walk, unfold Let_def)
  fix name st
  let ?p = "joinPath path (js ''properties.'' @ name)"
  show "records (property_change stringify pb pa name ?p) st
      (if has_own pb name \<and> has_own pa name then node (js_get pb name) (js_get pa name) ?p st
       else push (if has_own pa name then PropertyAdded else PropertyRemoved) ?p st)"
  proof (cases "has_own pb name \<and> has_own pa name")
    case True
    have "records (change_at stringify (js_get pb name) (js_get pa name) ?p) st
        (node (js_get pb name) (js_get pa name) ?p st)"
      using assms(2,3) by (intro assms(1) wf_js_get)
    moreover have "property_change stringify pb pa name ?p =
        change_at stringify (js_get pb name) (js_get pa name) ?p"
      using True by (simp add: property_change_def fun_eq_iff del: not_None_eq)
    ultimately show ?thesis using True by (simp del: not_None_eq)
  next
    case False
    then have "property_change stringify pb pa name ?p =
        (\<lambda>c. c = change (if has_own pa name then PropertyAdded else PropertyRemoved) ?p)"
      by (auto simp: property_change_def fun_eq_iff)
    with False show ?thesis using records_push by auto
  qed
qed

lemma records_key:
  assumes "\<And>b a p st. wf_jsv b \<Longrightarrow> wf_jsv a \<Longrightarrow> records (change_at stringify b a p) st (node b a p st)"
    and "wf_jsv b" "wf_jsv a"
  shows "records (node_changes stringify b a key path) st (diffKey stringify node b a key path depth st)"
proof -
  let ?kp = "joinPath path key"
  consider (props) "key = js ''properties''"
    | (req) "key = js ''required''"
    | (enum) xs ys where "key = js ''enum''" "b = Val (JArr xs)" "a = Val (JArr ys)"
    | (ty) "key = js ''type''"
    | (desc) "key = js ''description''"
    | (ann) "key \<in> set neutral_keys" "key \<noteq> js ''description''"
    | (nest) "nested_key key b a"
    | (leaf) "key \<notin> {js ''properties'', js ''required'', js ''type'', js ''description''}" "key \<notin> set neutral_keys"
        "\<not> nested_key key b a" "\<not> (key = js ''enum'' \<and> array_of b \<noteq> None \<and> array_of a \<noteq> None)"
    by (auto simp del: not_None_eq) (metis array_of_Some not_None_eq)
  then show ?thesis
  proof cases
    case props
    then show ?thesis
      using records_properties[OF assms(1) wf_asObject[OF assms(2)] wf_asObject[OF assms(3)]]
      by (simp add: diffKey_def node_changes_def[abs_def])
  next
    case req
    then show ?thesis using records_required[of stringify b a ?kp st]
      by (simp add: diffKey_def node_changes_def[abs_def] nested_key_def)
  next
    case enum
    then show ?thesis using records_enum[of b xs a ys stringify ?kp st]
      by (simp add: diffKey_def node_changes_def[abs_def] nested_key_def)
  next
    case ty
    then show ?thesis using records_push_unless_equal[OF assms(2,3), of TypeChanged ?kp st depth]
      by (simp add: diffKey_def node_changes_def[abs_def] nested_key_def key_change_def[abs_def])
  next
    case desc
    then show ?thesis using records_push_unless_equal[OF assms(2,3), of DescriptionChanged ?kp st depth]
      by (simp add: diffKey_def node_changes_def[abs_def] nested_key_def key_change_def[abs_def] neutral_keys_def)
  next
    case ann
    then have "\<not> nested_key key b a" by (auto simp: nested_key_def)
    with ann show ?thesis using records_push_unless_equal[OF assms(2,3), of AnnotationChanged ?kp st depth]
      by (auto simp: diffKey_def node_changes_def[abs_def] key_change_def[abs_def] neutral_keys_def)
  next
    case nest
    then have "diffKey stringify node b a key path depth = node b a ?kp"
      by (auto simp: diffKey_def nested_key_def fun_eq_iff)
    moreover have "node_changes stringify b a key path = change_at stringify b a ?kp"
      using nest by (auto simp: node_changes_def nested_key_def fun_eq_iff)
    ultimately show ?thesis using assms by simp
  next
    case leaf
    then have nc: "node_changes stringify b a key path = key_change stringify key b a ?kp"
      by (auto simp: node_changes_def fun_eq_iff)
    have np: "plain_object b = None \<or> plain_object a = None"
      using leaf unfolding nested_key_def by blast
    consider "b = Undef" | "b \<noteq> Undef" "a = Undef" | "b \<noteq> Undef" "a \<noteq> Undef" by blast
    then show ?thesis
    proof cases
      case 1
      with leaf np nc show ?thesis using records_push[of KeywordAdded ?kp st]
        by (simp add: diffKey_def key_change_def[abs_def])
    next
      case 2
      with leaf np nc show ?thesis using records_push[of KeywordRemoved ?kp st]
        by (auto simp: diffKey_def key_change_def[abs_def])
    next
      case 3
      with leaf np nc show ?thesis using records_push_unless_equal[OF assms(2,3), of KeywordChanged ?kp st depth]
        by (auto simp: diffKey_def key_change_def[abs_def])
    qed
  qed
qed

lemma records_node:
  "wf_jsv b \<Longrightarrow> wf_jsv a \<Longrightarrow> records (change_at stringify b a path) st (diffNode stringify depth b a path st)"
proof (induction "Suc max_depth - depth" arbitrary: depth b a path st rule: less_induct)
  case less
  show ?case
  proof (cases "max_depth < depth")
    case True
    then show ?thesis by (simp add: diffNode.simps[of stringify depth] records_truncated)
  next
    case False
    show ?thesis
    proof (cases "plain_object b = None \<or> plain_object a = None")
      case True
      then have "change_at stringify b a path = (\<lambda>c. \<not> same b a \<and> c = change SchemaChanged path)"
        by (auto simp: change_at_any[of stringify b a path] fun_eq_iff)
      moreover have "diffNode stringify depth b a path st = push_unless_equal b a depth SchemaChanged path st"
        using True False by (auto simp: diffNode.simps[of stringify depth] split: jsv.splits json.splits)
      ultimately show ?thesis using records_push_unless_equal[OF less.prems] by simp
    next
      case objs: False
      then obtain bo ao where o: "b = Val (JObj bo)" "a = Val (JObj ao)"
        by (auto simp del: plain_object_Some simp flip: plain_object_Some)
      have step: "records (change_at stringify b a p) st (diffNode stringify (Suc depth) b a p st)"
        if "wf_jsv b" "wf_jsv a" for b a p st
        using that False by (intro less.hyps) auto
      have "records (\<lambda>c. \<exists>key \<in> set (sort_unique (keys bo @ keys ao)).
          node_changes stringify (js_get bo key) (js_get ao key) key path c) st
          (diffObject stringify (diffNode stringify (Suc depth)) bo ao path depth st)"
        unfolding diffObject_def
        using less.prems o by (intro records_walk records_key step wf_js_get) auto
      moreover have "change_at stringify b a path = (\<lambda>c. \<exists>key \<in> set (sort_unique (keys bo @ keys ao)).
          node_changes stringify (js_get bo key) (js_get ao key) key path c)"
        by (simp only: o fun_eq_iff change_at_node simp_thms)
      ultimately show ?thesis using o False by (simp add: diffNode.simps[of stringify depth])
    qed
  qed
qed

lemma diff_records:
  assumes "wf_jsv before" "wf_jsv after"
  shows "(\<forall>c \<in> set (dr_changes (diffToolSchemas stringify before after)). change_at stringify before after [] c) \<and>
    (\<not> dr_truncated (diffToolSchemas stringify before after) \<longrightarrow>
      (\<forall>c. change_at stringify before after [] c \<longrightarrow> c \<in> set (dr_changes (diffToolSchemas stringify before after))))"
  using records_node[OF assms, of stringify "[]" "\<lparr>ds_changes = [], ds_truncated = False\<rparr>" 0]
  by (auto simp: diffToolSchemas_def records_def Let_def)

section \<open>The direction of a change\<close>

definition surviving :: "surface_delta \<Rightarrow> bool" where
  "surviving d \<longleftrightarrow> d = Narrowed \<or> d = Neutral"

lemma surviving_combine: "surviving (combineDelta a b) \<longleftrightarrow> surviving a \<and> surviving b"
  by (cases a; cases b) (auto simp: surviving_def)

lemma surviving_aggregate:
  "surviving (aggregateDelta cs) \<longleftrightarrow> (\<forall>c \<in> set cs. surviving (delta_by_kind (sc_kind c)))"
  unfolding aggregateDelta_def
  by (induction cs rule: rev_induct) (auto simp: surviving_combine simp del: combineDelta.simps, simp_all add: surviving_def)

lemma combine_ac:
  "combineDelta a b = combineDelta b a"
  "combineDelta (combineDelta a b) c = combineDelta a (combineDelta b c)"
  by (cases a; cases b; cases c; simp)+

lemma length_push: "length (ds_changes st) \<le> max_changes \<Longrightarrow> length (ds_changes (push kind p st)) \<le> max_changes"
  by (simp add: push_def truncate_diff_def)

section \<open>Properties\<close>


text \<open>
  A direction under which an explicit \<open>allow\<close> survives (\<open>narrowed\<close> or \<open>neutral\<close>), taken from a
  diff that was not truncated, means that no change of the schemas at any depth widens the surface
  or has no direction: no property added, no required name dropped, no enum widened or changed, no
  type or keyword change.
\<close>

lemma surviving_delta_sound:
  assumes "wf_jsv before" and "wf_jsv after"
    and "\<not> dr_truncated (diffToolSchemas stringify before after)"
    and "surviving (dr_delta (diffToolSchemas stringify before after))"
    and "change_at stringify before after [] c"
  shows "sc_kind c \<in> {PropertyRemoved, RequiredAdded, EnumNarrowed, DescriptionChanged, AnnotationChanged}"
proof -
  have "c \<in> set (dr_changes (diffToolSchemas stringify before after))"
    using diff_records[OF assms(1,2)] assms(3,5) by blast
  then have "surviving (delta_by_kind (sc_kind c))"
    using assms(4) surviving_aggregate by (auto simp: diffToolSchemas_def Let_def)
  then show ?thesis by (cases "sc_kind c") (auto simp: surviving_def)
qed

text \<open>Two versions of a schema: a property is dropped, another becomes required.\<close>

definition string_schema :: json where
  "string_schema = JObj [(js ''type'', JStr (js ''string''))]"

definition object_schema :: "(jstr \<times> json) list \<Rightarrow> jstr list \<Rightarrow> json" where
  "object_schema props req =
     JObj [(js ''type'', JStr (js ''object'')), (js ''properties'', JObj props), (js ''required'', JArr (map JStr req))]"

definition schema_v1 :: jsv where
  "schema_v1 = Val (object_schema [(js ''path'', string_schema), (js ''force'', string_schema)] [])"

definition schema_v2 :: jsv where
  "schema_v2 = Val (object_schema [(js ''path'', string_schema)] [js ''path''])"

lemma schema_versions_wf: "wf_jsv schema_v1 \<and> wf_jsv schema_v2"
  by (simp add: schema_v1_def schema_v2_def object_schema_def string_schema_def)

lemma schema_versions_diff: "diffToolSchemas (\<lambda>_. None) schema_v1 schema_v2 =
    \<lparr>dr_changes = [change PropertyRemoved (js ''properties.force''), change RequiredAdded (js ''required.path'')],
     dr_delta = Narrowed, dr_truncated = False\<rparr>"
  by code_simp


lemma surviving_delta_sound_witness:
  "\<not> change_at (\<lambda>_. None) schema_v1 schema_v2 [] (change PropertyAdded (js ''properties.x''))"
proof
  assume "change_at (\<lambda>_. None) schema_v1 schema_v2 [] (change PropertyAdded (js ''properties.x''))"
  from surviving_delta_sound[OF _ _ _ _ this] schema_versions_wf show False
    by (simp add: schema_versions_diff surviving_def change_def)
qed

text \<open>
  Where the direction is wrong: the names of the wording keywords are skipped at every object,
  also where the keys are names the server chose. Replacing the definition \<open>$defs.description\<close> that
  the properties refer to, here from a string to any value, is reported as a \<open>neutral\<close> change and
  the diff is not truncated, so an explicit \<open>allow\<close> keeps covering the tool.
\<close>

lemma defs_named_description_is_neutral:
  "diffToolSchemas (\<lambda>_. None)
     (Val (JObj [(js ''properties'', JObj [(js ''x'', JObj [(js ''$ref'', JStr (js ''#/$defs/description''))])]),
                 (js ''$defs'', JObj [(js ''description'', string_schema)])]))
     (Val (JObj [(js ''properties'', JObj [(js ''x'', JObj [(js ''$ref'', JStr (js ''#/$defs/description''))])]),
                 (js ''$defs'', JObj [(js ''description'', JObj [])])])) =
   \<lparr>dr_changes = [change DescriptionChanged (js ''$defs.description'')], dr_delta = Neutral, dr_truncated = False\<rparr>"
  by code_simp

end
