(* ===== verification/Inventory.thy ===== *)
theory Inventory
  imports Redact Canonical_Hash Schema_Diff
begin

text \<open>
  \<open>policy/inventory-store.ts\<close>, \<open>policy/inventory-observe.ts\<close> and \<open>policy/inventory.ts\<close>: the approved
  and the quarantined tools of a server, the comparison of an advertised catalog with them, and the
  in-memory inventory the gate reads. The maps of the store are objects without a prototype. The
  file behind the store is the argument \<open>write_ok\<close> of the operations that update it: an update that
  fails leaves the stored data as it was.
\<close>

section \<open>Stored records\<close>

record approved_record =
  ar_hash :: jstr
  ar_at :: jstr
  ar_descriptor :: "tool_descriptor option"
  ar_truncated :: bool

record quarantined_record =
  qr_hash :: jstr
  qr_first_seen :: jstr
  qr_state :: quarantine_state
  qr_descriptor :: tool_descriptor
  qr_truncated :: bool
  qr_delta :: "surface_delta option"

record server_inventory =
  approved :: "(jstr \<times> approved_record) list"
  quarantined :: "(jstr \<times> quarantined_record) list"

type_synonym inventory_data = "(jstr \<times> server_inventory) list"

definition empty_server_inventory :: server_inventory where
  "empty_server_inventory = \<lparr>approved = [], quarantined = []\<rparr>"

definition withKey :: "('k \<times> 'v) list \<Rightarrow> 'k \<Rightarrow> 'v \<Rightarrow> ('k \<times> 'v) list" where
  "withKey m k v = AList.update k v m"

definition omitKey :: "('k \<times> 'v) list \<Rightarrow> 'k \<Rightarrow> ('k \<times> 'v) list" where
  "omitKey m k = filter (\<lambda>(k', v). k' \<noteq> k) m"

definition approvedRecordFrom :: "quarantined_record \<Rightarrow> jstr \<Rightarrow> approved_record" where
  "approvedRecordFrom r approvedAt =
     \<lparr>ar_hash = qr_hash r, ar_at = approvedAt, ar_descriptor = Some (qr_descriptor r), ar_truncated = qr_truncated r\<rparr>"

section \<open>Descriptors for storage\<close>

text \<open>What the comparison uses of the runtime: digest, number text, redaction, JSON.stringify.\<close>

record tool_env =
  te_sha :: "jstr \<Rightarrow> jstr"
  te_num :: "64 word \<Rightarrow> jstr"
  te_redactor :: redactor

record stored_descriptor =
  sd_descriptor :: tool_descriptor
  sd_truncated :: bool

definition bool_prop :: "obj \<Rightarrow> jstr \<Rightarrow> (jstr \<times> json) list" where
  "bool_prop ps k = (case get_prop ps k of Some (JBool b) \<Rightarrow> [(k, JBool b)] | _ \<Rightarrow> [])"

abbreviation read_only_key :: jstr where "read_only_key \<equiv> js ''readOnlyHint''"

abbreviation destructive_key :: jstr where "destructive_key \<equiv> js ''destructiveHint''"

definition sanitizedAnnotations :: "obj \<Rightarrow> obj" where
  "sanitizedAnnotations raw =
     filter (\<lambda>(k, v). k \<notin> {read_only_key, destructive_key}) raw
       @ bool_prop raw read_only_key @ bool_prop raw destructive_key"

definition toStoredToolDescriptor :: "json option \<Rightarrow> tool_descriptor option" where
  "toStoredToolDescriptor raw =
     (case as_obj raw of
        None \<Rightarrow> None
      | Some ps \<Rightarrow>
         (case as_str (get_prop ps (js ''name'')) of
            None \<Rightarrow> None
          | Some name \<Rightarrow>
              Some \<lparr>td_name = name, td_description = as_str (get_prop ps (js ''description'')),
                td_schema = get_prop ps (js ''inputSchema''),
                td_annotations = map_option sanitizedAnnotations (as_obj (get_prop ps (js ''annotations'')))\<rparr>))"

definition opt_prop :: "jstr \<Rightarrow> json option \<Rightarrow> (jstr \<times> json) list" where
  "opt_prop k v = (case v of None \<Rightarrow> [] | Some x \<Rightarrow> [(k, x)])"

definition descriptor_json :: "tool_descriptor \<Rightarrow> json" where
  "descriptor_json t = JObj ([(js ''name'', JStr (td_name t))]
     @ opt_prop (js ''description'') (map_option JStr (td_description t))
     @ opt_prop (js ''inputSchema'') (td_schema t)
     @ opt_prop (js ''annotations'') (map_option JObj (td_annotations t)))"

definition max_stored_description_chars :: nat where "max_stored_description_chars = 4096"
definition max_stored_descriptor_chars :: nat where "max_stored_descriptor_chars = 8192"
definition max_stored_schema_chars :: nat where "max_stored_schema_chars = 4096"
definition max_schema_summary_names :: nat where "max_schema_summary_names = 100"
definition max_schema_summary_name_chars :: nat where "max_schema_summary_name_chars = 128"
definition max_quarantined_tools :: nat where "max_quarantined_tools = 2000"

definition capDescription :: "jstr \<Rightarrow> jstr" where
  "capDescription d = (if max_stored_description_chars < length d
     then take max_stored_description_chars d @ [0x2026] @ js ''[TRUNCATED]'' else d)"

definition serializedLength :: "tool_env \<Rightarrow> json \<Rightarrow> nat" where
  "serializedLength env v = length (rd_stringify (te_redactor env) v)"

definition boundNames :: "jstr list \<Rightarrow> json" where
  "boundNames names = JArr (map (\<lambda>n. JStr (take max_schema_summary_name_chars n)) (take max_schema_summary_names names))"

definition schemaSummaryOf :: "json \<Rightarrow> json" where
  "schemaSummaryOf schema =
     (let shape = (case as_obj (Some schema) of Some ps \<Rightarrow> ps | None \<Rightarrow> []);
          propertyNames = (case as_obj (get_prop shape (js ''properties'')) of Some ps \<Rightarrow> keys ps | None \<Rightarrow> []);
          requiredNames = (case as_arr (get_prop shape (js ''required'')) of
             Some xs \<Rightarrow> List.map_filter (\<lambda>x. as_str (Some x)) xs | None \<Rightarrow> [])
      in JObj [(js ''schemaSummary'', JBool True), (js ''topLevelProperties'', boundNames propertyNames),
               (js ''required'', boundNames requiredNames)])"

definition withCappedSchema :: "tool_env \<Rightarrow> tool_descriptor \<Rightarrow> stored_descriptor" where
  "withCappedSchema env t =
     (case td_schema t of
        None \<Rightarrow> \<lparr>sd_descriptor = t, sd_truncated = False\<rparr>
      | Some schema \<Rightarrow>
          if serializedLength env schema \<le> max_stored_schema_chars then \<lparr>sd_descriptor = t, sd_truncated = False\<rparr>
          else \<lparr>sd_descriptor = t\<lparr>td_schema := Some (schemaSummaryOf schema)\<rparr>, sd_truncated = True\<rparr>)"

definition classHintsOf :: "obj option \<Rightarrow> obj option" where
  "classHintsOf annotations =
     (case annotations of
        None \<Rightarrow> None
      | Some a \<Rightarrow>
          let hints = bool_prop a read_only_key @ bool_prop a destructive_key
          in if hints = [] then None else Some hints)"

definition boundDescriptor :: "tool_env \<Rightarrow> tool_descriptor \<Rightarrow> stored_descriptor" where
  "boundDescriptor env redacted =
     (let bounded = withCappedSchema env redacted in
      if serializedLength env (descriptor_json (sd_descriptor bounded)) \<le> max_stored_descriptor_chars then bounded
      else
        let slimmed = (sd_descriptor bounded)\<lparr>td_annotations := classHintsOf (td_annotations (sd_descriptor bounded))\<rparr> in
        case td_schema slimmed of
          None \<Rightarrow> \<lparr>sd_descriptor = slimmed, sd_truncated = sd_truncated bounded\<rparr>
        | Some schema \<Rightarrow>
            if serializedLength env (descriptor_json slimmed) \<le> max_stored_descriptor_chars
            then \<lparr>sd_descriptor = slimmed, sd_truncated = sd_truncated bounded\<rparr>
            else \<lparr>sd_descriptor = slimmed\<lparr>td_schema := Some (schemaSummaryOf schema)\<rparr>, sd_truncated = True\<rparr>)"

definition redactedDescriptorFor :: "tool_env \<Rightarrow> tool_descriptor \<Rightarrow> bool \<Rightarrow> stored_descriptor" where
  "redactedDescriptorFor env t keep_schema =
     (let capped = \<lparr>td_name = td_name t, td_description = map_option capDescription (td_description t),
            td_schema = (if keep_schema then td_schema t else None), td_annotations = td_annotations t\<rparr>;
          redacted = (case toStoredToolDescriptor (Some (redact (te_redactor env) (descriptor_json capped) [])) of
             Some d \<Rightarrow> d
           | None \<Rightarrow> \<lparr>td_name = td_name t, td_description = None, td_schema = None, td_annotations = None\<rparr>)
      in boundDescriptor env redacted)"

definition fingerprint :: "tool_env \<Rightarrow> tool_descriptor \<Rightarrow> jstr \<times> stored_descriptor" where
  "fingerprint env t =
     (case hashToolSchema (te_sha env) (te_num env) t of
        Some h \<Rightarrow> (h, redactedDescriptorFor env t True)
      | None \<Rightarrow>
          (js ''unhashable:'' @ redactString (te_redactor env) (td_name t) [],
           \<lparr>sd_descriptor = \<lparr>td_name = td_name t, td_description = Some (js ''[UNHASHABLE DESCRIPTOR]''),
              td_schema = None, td_annotations = None\<rparr>, sd_truncated = False\<rparr>))"

section \<open>Comparing a catalog\<close>

definition schema_value :: "tool_descriptor \<Rightarrow> jsv" where
  "schema_value t = (case td_schema t of None \<Rightarrow> Undef | Some v \<Rightarrow> Val v)"

definition schema_diff :: "tool_env \<Rightarrow> tool_descriptor \<Rightarrow> tool_descriptor \<Rightarrow> diff_result" where
  "schema_diff env before after =
     diffToolSchemas (\<lambda>v. Some (rd_stringify (te_redactor env) v)) (schema_value before) (schema_value after)"

definition surfaceDeltaAgainstApproved ::
  "tool_env \<Rightarrow> approved_record option \<Rightarrow> tool_descriptor \<Rightarrow> surface_delta option" where
  "surfaceDeltaAgainstApproved env record observed =
     (case Option.bind record ar_descriptor of
        None \<Rightarrow> None
      | Some d \<Rightarrow>
          let diff = schema_diff env d observed
          in if dr_truncated diff then None else Some (dr_delta diff))"

record observation =
  ob_known :: "jstr list"
  ob_new :: "jstr list"
  ob_changed :: "jstr list"
  ob_snapshot :: "(jstr \<times> quarantine_state) list"
  ob_quarantined :: "(jstr \<times> quarantined_record) list"
  ob_count :: nat
  ob_cap_exceeded :: bool

definition at_cap :: "nat \<Rightarrow> nat option \<Rightarrow> bool" where
  "at_cap count maxQuarantine = (case maxQuarantine of None \<Rightarrow> False | Some m \<Rightarrow> m \<le> count)"

definition observe_tool ::
  "tool_env \<Rightarrow> server_inventory \<Rightarrow> jstr \<Rightarrow> nat option \<Rightarrow> tool_descriptor \<Rightarrow> observation \<Rightarrow> observation" where
  "observe_tool env entry nowIso maxQuarantine t ob =
     (let (schemaHash, stored) = fingerprint env t;
          approvedRecord = map_of (approved entry) (td_name t)
      in if some_with approvedRecord (\<lambda>a. ar_hash a = schemaHash)
         then ob\<lparr>ob_known := ob_known ob @ [td_name t],
                 ob_snapshot := withKey (ob_snapshot ob) (td_name t) Known\<rparr>
         else
           let state = (if approvedRecord \<noteq> None then Changed else New);
               ob1 = ob\<lparr>ob_new := ob_new ob @ (if state = New then [td_name t] else []),
                        ob_changed := ob_changed ob @ (if state = New then [] else [td_name t]),
                        ob_snapshot := withKey (ob_snapshot ob) (td_name t) state\<rparr>;
               existing = map_of (ob_quarantined ob) (td_name t)
           in if some_with existing (\<lambda>q. qr_hash q = schemaHash) then ob1
              else if existing = None \<and> at_cap (ob_count ob) maxQuarantine
              then ob1\<lparr>ob_cap_exceeded := True\<rparr>
              else ob1\<lparr>ob_quarantined := withKey (ob_quarantined ob) (td_name t)
                         \<lparr>qr_hash = schemaHash, qr_first_seen = nowIso, qr_state = state,
                          qr_descriptor = sd_descriptor stored, qr_truncated = sd_truncated stored,
                          qr_delta = surfaceDeltaAgainstApproved env approvedRecord (sd_descriptor stored)\<rparr>,
                       ob_count := (if existing = None then Suc (ob_count ob) else ob_count ob)\<rparr>)"

definition observe_start :: "server_inventory \<Rightarrow> observation" where
  "observe_start entry = \<lparr>ob_known = [], ob_new = [], ob_changed = [], ob_snapshot = [],
     ob_quarantined = quarantined entry, ob_count = length (quarantined entry), ob_cap_exceeded = False\<rparr>"

definition observeAgainst ::
  "tool_env \<Rightarrow> server_inventory \<Rightarrow> tool_descriptor list \<Rightarrow> jstr \<Rightarrow> nat option \<Rightarrow> observation" where
  "observeAgainst env entry tools nowIso maxQuarantine =
     fold (observe_tool env entry nowIso maxQuarantine) tools (observe_start entry)"

definition next_server_entry :: "server_inventory \<Rightarrow> observation \<Rightarrow> server_inventory" where
  "next_server_entry entry ob = \<lparr>approved = approved entry, quarantined = ob_quarantined ob\<rparr>"

section \<open>Snapshots\<close>

record snapshots =
  sn_states :: "(jstr \<times> quarantine_state) list"
  sn_deltas :: "(jstr \<times> surface_delta) list"
  sn_descriptors :: "(jstr \<times> tool_descriptor) list"

definition trustedSurfaceDelta :: "server_inventory \<Rightarrow> jstr \<Rightarrow> quarantined_record \<Rightarrow> surface_delta option" where
  "trustedSurfaceDelta entry toolName r =
     (if qr_state r \<noteq> Changed \<or> qr_delta r = None then None
      else if qr_truncated r then None
      else if some_with (map_of (approved entry) toolName) ar_truncated then None
      else qr_delta r)"

definition snapshot_approved :: "jstr \<times> approved_record \<Rightarrow> snapshots \<Rightarrow> snapshots" where
  "snapshot_approved = (\<lambda>(name, r) sn.
     sn\<lparr>sn_states := withKey (sn_states sn) name Known,
        sn_descriptors := (case ar_descriptor r of None \<Rightarrow> sn_descriptors sn
                           | Some d \<Rightarrow> withKey (sn_descriptors sn) name d)\<rparr>)"

definition snapshot_quarantined :: "server_inventory \<Rightarrow> jstr \<times> quarantined_record \<Rightarrow> snapshots \<Rightarrow> snapshots" where
  "snapshot_quarantined entry = (\<lambda>(name, r) sn.
     sn\<lparr>sn_states := withKey (sn_states sn) name (qr_state r),
        sn_descriptors := withKey (sn_descriptors sn) name (qr_descriptor r),
        sn_deltas := (case trustedSurfaceDelta entry name r of None \<Rightarrow> sn_deltas sn
                      | Some d \<Rightarrow> withKey (sn_deltas sn) name d)\<rparr>)"

definition buildSnapshots :: "server_inventory \<Rightarrow> snapshots" where
  "buildSnapshots entry =
     fold (snapshot_quarantined entry) (quarantined entry)
       (fold snapshot_approved (approved entry) \<lparr>sn_states = [], sn_deltas = [], sn_descriptors = []\<rparr>)"

section \<open>Mutations\<close>

definition withApprovedTool :: "server_inventory \<Rightarrow> jstr \<Rightarrow> jstr \<Rightarrow> server_inventory \<times> bool" where
  "withApprovedTool entry toolName approvedAt =
     (case map_of (quarantined entry) toolName of
        None \<Rightarrow> (entry, False)
      | Some r \<Rightarrow>
          (\<lparr>approved = withKey (approved entry) toolName (approvedRecordFrom r approvedAt),
            quarantined = omitKey (quarantined entry) toolName\<rparr>, True))"

definition withRejectedTool :: "server_inventory \<Rightarrow> jstr \<Rightarrow> server_inventory \<times> bool" where
  "withRejectedTool entry toolName =
     (if map_of (quarantined entry) toolName = None then (entry, False)
      else (entry\<lparr>quarantined := omitKey (quarantined entry) toolName\<rparr>, True))"

definition withApprovedCatalog ::
  "tool_env \<Rightarrow> server_inventory \<Rightarrow> tool_descriptor list \<Rightarrow> jstr \<Rightarrow> server_inventory \<times> jstr list" where
  "withApprovedCatalog env entry tools approvedAt =
     (let ob = observeAgainst env entry tools approvedAt None;
          nextEntry = next_server_entry entry ob;
          pending = ob_new ob @ ob_changed ob;
          stale = filter (\<lambda>n. has_own (quarantined nextEntry) n) (ob_known ob);
          approvedEntry = foldl (\<lambda>e n. fst (withApprovedTool e n approvedAt)) nextEntry pending;
          releasedEntry = foldl (\<lambda>e n. fst (withRejectedTool e n)) approvedEntry stale
      in (releasedEntry, filter (\<lambda>n. n \<in> set (pending @ stale)) (map td_name tools)))"

section \<open>The inventory of a session\<close>

record inventory =
  inv_snapshots :: snapshots
  inv_observed :: bool
  inv_trusted :: bool

datatype store_read = ReadOk inventory_data | ReadCorrupt | ReadLocked | ReadFailed

definition createInventory :: inventory where
  "createInventory = \<lparr>inv_snapshots = buildSnapshots empty_server_inventory, inv_observed = False, inv_trusted = True\<rparr>"

definition serverEntryOf :: "jstr \<Rightarrow> inventory_data \<Rightarrow> server_inventory" where
  "serverEntryOf server data = (case map_of data server of Some e \<Rightarrow> e | None \<Rightarrow> empty_server_inventory)"

text \<open>\<open>load\<close>: the left value is the error that is thrown on.\<close>

definition load_inventory :: "jstr \<Rightarrow> store_read \<Rightarrow> inventory \<Rightarrow> store_read + inventory" where
  "load_inventory server result iv =
     (case result of
        ReadOk data \<Rightarrow> Inr (iv\<lparr>inv_snapshots := buildSnapshots (serverEntryOf server data), inv_trusted := True\<rparr>)
      | ReadCorrupt \<Rightarrow> Inr (iv\<lparr>inv_trusted := False\<rparr>)
      | ReadLocked \<Rightarrow> Inr (iv\<lparr>inv_trusted := False\<rparr>)
      | ReadFailed \<Rightarrow> Inl ReadFailed)"

record observe_result =
  or_known :: "jstr list"
  or_new :: "jstr list"
  or_changed :: "jstr list"
  or_failed :: bool

definition observeToolsList ::
  "tool_env \<Rightarrow> jstr \<Rightarrow> tool_descriptor list \<Rightarrow> jstr \<Rightarrow> bool \<Rightarrow> inventory \<Rightarrow> inventory_data \<Rightarrow>
     inventory \<times> inventory_data \<times> observe_result" where
  "observeToolsList env server tools nowIso write_ok iv data =
     (if write_ok then
        let entry = serverEntryOf server data;
            ob = observeAgainst env entry tools nowIso (Some max_quarantined_tools);
            nextEntry = next_server_entry entry ob
        in (iv\<lparr>inv_observed := True, inv_snapshots := buildSnapshots nextEntry, inv_trusted := \<not> ob_cap_exceeded ob\<rparr>,
            withKey data server nextEntry,
            \<lparr>or_known = ob_known ob, or_new = ob_new ob, or_changed = ob_changed ob, or_failed = False\<rparr>)
      else (iv\<lparr>inv_observed := True, inv_trusted := False\<rparr>, data,
            \<lparr>or_known = [], or_new = [], or_changed = [], or_failed = True\<rparr>))"

definition stateOf :: "inventory \<Rightarrow> jstr \<Rightarrow> quarantine_state" where
  "stateOf iv toolName = (case map_of (sn_states (inv_snapshots iv)) toolName of Some s \<Rightarrow> s | None \<Rightarrow> Unknown)"

definition surfaceDeltaOf :: "inventory \<Rightarrow> jstr \<Rightarrow> surface_delta option" where
  "surfaceDeltaOf iv toolName = map_of (sn_deltas (inv_snapshots iv)) toolName"

definition descriptorOf :: "inventory \<Rightarrow> jstr \<Rightarrow> tool_descriptor option" where
  "descriptorOf iv toolName = map_of (sn_descriptors (inv_snapshots iv)) toolName"

definition mutate_inventory ::
  "jstr \<Rightarrow> (server_inventory \<Rightarrow> server_inventory \<times> bool) \<Rightarrow> inventory \<Rightarrow> inventory_data \<Rightarrow> inventory \<times> inventory_data \<times> bool" where
  "mutate_inventory server fn iv data =
     (let (nextEntry, changed) = fn (serverEntryOf server data)
      in if changed then (iv\<lparr>inv_snapshots := buildSnapshots nextEntry\<rparr>, withKey data server nextEntry, True)
         else (iv, data, False))"

definition approve :: "jstr \<Rightarrow> jstr \<Rightarrow> jstr \<Rightarrow> inventory \<Rightarrow> inventory_data \<Rightarrow> inventory \<times> inventory_data \<times> bool" where
  "approve server nowIso toolName =
     mutate_inventory server (\<lambda>entry. withApprovedTool entry toolName nowIso)"

definition reject :: "jstr \<Rightarrow> jstr \<Rightarrow> inventory \<Rightarrow> inventory_data \<Rightarrow> inventory \<times> inventory_data \<times> bool" where
  "reject server toolName = mutate_inventory server (\<lambda>entry. withRejectedTool entry toolName)"

definition approveCatalog ::
  "tool_env \<Rightarrow> jstr \<Rightarrow> tool_descriptor list \<Rightarrow> jstr \<Rightarrow> inventory_data \<Rightarrow> inventory_data \<times> jstr list" where
  "approveCatalog env server tools nowIso data =
     (let (entry, names) = withApprovedCatalog env (serverEntryOf server data) tools nowIso
      in if names = [] then (data, []) else (withKey data server entry, names))"

definition forgetServer :: "jstr \<Rightarrow> inventory_data \<Rightarrow> inventory_data" where
  "forgetServer server data = (if has_own data server then omitKey data server else data)"

definition listQuarantined :: "jstr \<Rightarrow> inventory_data \<Rightarrow> (jstr \<times> quarantine_state \<times> jstr \<times> surface_delta option) list" where
  "listQuarantined server data =
     map (\<lambda>(toolName, r). (toolName, qr_state r, take 12 (qr_hash r), qr_delta r)) (quarantined (serverEntryOf server data))"

end
