(* ===== verification/Inventory_Safety.thy ===== *)
theory Inventory_Safety
  imports Inventory Policy_Decide
begin

text \<open>
  What the inventory guarantees: the invariant of the stored records under every operation, the
  snapshots the gate reads, and that an advertised tool is \<open>known\<close> only when its fingerprint is the
  approved one.
\<close>

section \<open>Maps and snapshots\<close>

lemma map_of_withKey [simp]: "map_of (withKey m k v) = (map_of m)(k \<mapsto> v)"
  by (simp add: withKey_def)

lemma map_of_omitKey [simp]: "map_of (omitKey m k) = (map_of m)(k := None)"
  unfolding omitKey_def by (induction m) (auto simp: fun_eq_iff)

lemma wf_withKey [simp]: "wf_map m \<Longrightarrow> wf_map (withKey m k v)"
  by (simp add: withKey_def)

lemma wf_omitKey [simp]: "wf_map m \<Longrightarrow> wf_map (omitKey m k)"
  unfolding omitKey_def by (induction m) auto

lemma length_withKey: "wf_map m \<Longrightarrow>
    length (withKey m k v) = (if has_own m k then length m else Suc (length m))"
  by (simp add: withKey_def length_update)

lemma length_omitKey: "length (omitKey m k) \<le> length m"
  by (simp add: omitKey_def)

text \<open>A fold of \<open>set\<close> calls over the entries of a map with distinct keys.\<close>

lemma fold_snapshot_approved:
  "wf_map xs \<Longrightarrow>
   map_of (sn_states (fold snapshot_approved xs sn)) n =
     (if has_own xs n then Some Known else map_of (sn_states sn) n) \<and>
   map_of (sn_descriptors (fold snapshot_approved xs sn)) n =
     (case map_of xs n of Some r \<Rightarrow> (case ar_descriptor r of Some d \<Rightarrow> Some d | None \<Rightarrow> map_of (sn_descriptors sn) n)
      | None \<Rightarrow> map_of (sn_descriptors sn) n) \<and>
   sn_deltas (fold snapshot_approved xs sn) = sn_deltas sn"
proof (induction xs arbitrary: sn)
  case (Cons x xs)
  obtain k r where x: "x = (k, r)" by fastforce
  then have "n = k \<Longrightarrow> map_of xs n = None" using Cons.prems by (simp add: map_of_eq_None_iff)
  then show ?case
    using Cons.IH[of "snapshot_approved x sn"] Cons.prems x
    by (auto simp: snapshot_approved_def split: option.splits)
qed simp

lemma fold_snapshot_quarantined:
  "wf_map xs \<Longrightarrow>
   map_of (sn_states (fold (snapshot_quarantined e) xs sn)) n =
     (case map_of xs n of Some r \<Rightarrow> Some (qr_state r) | None \<Rightarrow> map_of (sn_states sn) n) \<and>
   map_of (sn_descriptors (fold (snapshot_quarantined e) xs sn)) n =
     (case map_of xs n of Some r \<Rightarrow> Some (qr_descriptor r) | None \<Rightarrow> map_of (sn_descriptors sn) n) \<and>
   map_of (sn_deltas (fold (snapshot_quarantined e) xs sn)) n =
     (case map_of xs n of Some r \<Rightarrow> (case trustedSurfaceDelta e n r of Some d \<Rightarrow> Some d | None \<Rightarrow> map_of (sn_deltas sn) n)
      | None \<Rightarrow> map_of (sn_deltas sn) n)"
proof (induction xs arbitrary: sn)
  case (Cons x xs)
  obtain k r where x: "x = (k, r)" by fastforce
  then have "n = k \<Longrightarrow> map_of xs n = None" using Cons.prems by (simp add: map_of_eq_None_iff)
  then show ?case
    using Cons.IH[of "snapshot_quarantined e x sn"] Cons.prems x
    by (auto simp: snapshot_quarantined_def split: option.splits)
qed simp

definition wf_entry :: "server_inventory \<Rightarrow> bool" where
  "wf_entry e \<longleftrightarrow> wf_map (approved e) \<and> wf_map (quarantined e)"

lemma buildSnapshots_states:
  "wf_entry e \<Longrightarrow> map_of (sn_states (buildSnapshots e)) n =
     (case map_of (quarantined e) n of Some r \<Rightarrow> Some (qr_state r)
      | None \<Rightarrow> if has_own (approved e) n then Some Known else None)"
  by (simp add: wf_entry_def buildSnapshots_def fold_snapshot_quarantined fold_snapshot_approved
      split: option.split)

lemma buildSnapshots_deltas:
  "wf_entry e \<Longrightarrow> map_of (sn_deltas (buildSnapshots e)) n =
     Option.bind (map_of (quarantined e) n) (trustedSurfaceDelta e n)"
  by (simp add: wf_entry_def buildSnapshots_def fold_snapshot_quarantined fold_snapshot_approved
      split: option.split)

lemma buildSnapshots_descriptors:
  "wf_entry e \<Longrightarrow> map_of (sn_descriptors (buildSnapshots e)) n =
     (case map_of (quarantined e) n of Some r \<Rightarrow> Some (qr_descriptor r)
      | None \<Rightarrow> Option.bind (map_of (approved e) n) ar_descriptor)"
  by (simp add: wf_entry_def buildSnapshots_def fold_snapshot_quarantined fold_snapshot_approved
      split: option.split)

section \<open>The invariant of the stored records\<close>

text \<open>
  The record of a quarantined tool: it was made from an advertised descriptor of that name, its
  state says whether the tool is approved, and its direction is the one against the approved record
  as it is now.
\<close>

definition stored_from :: "tool_env \<Rightarrow> jstr \<Rightarrow> jstr \<Rightarrow> tool_descriptor \<Rightarrow> bool \<Rightarrow> bool" where
  "stored_from env name h d truncated \<longleftrightarrow>
     (\<exists>t. td_name t = name \<and> fingerprint env t = (h, \<lparr>sd_descriptor = d, sd_truncated = truncated\<rparr>))"

definition good_quarantined :: "tool_env \<Rightarrow> (jstr \<times> approved_record) list \<Rightarrow> jstr \<Rightarrow> quarantined_record \<Rightarrow> bool" where
  "good_quarantined env appr n q \<longleftrightarrow>
     stored_from env n (qr_hash q) (qr_descriptor q) (qr_truncated q) \<and>
     qr_state q = (if has_own appr n then Changed else New) \<and>
     qr_delta q = surfaceDeltaAgainstApproved env (map_of appr n) (qr_descriptor q)"

definition good_approved :: "tool_env \<Rightarrow> jstr \<Rightarrow> approved_record \<Rightarrow> bool" where
  "good_approved env n a \<longleftrightarrow> (\<exists>d. ar_descriptor a = Some d \<and> stored_from env n (ar_hash a) d (ar_truncated a))"

definition good_entry :: "tool_env \<Rightarrow> server_inventory \<Rightarrow> bool" where
  "good_entry env e \<longleftrightarrow> wf_entry e \<and>
     (\<forall>n a. map_of (approved e) n = Some a \<longrightarrow> good_approved env n a) \<and>
     (\<forall>n q. map_of (quarantined e) n = Some q \<longrightarrow> good_quarantined env (approved e) n q)"

definition good_observation :: "tool_env \<Rightarrow> server_inventory \<Rightarrow> observation \<Rightarrow> bool" where
  "good_observation env e ob \<longleftrightarrow> wf_map (ob_quarantined ob) \<and> ob_count ob = length (ob_quarantined ob) \<and>
     (\<forall>n q. map_of (ob_quarantined ob) n = Some q \<longrightarrow> good_quarantined env (approved e) n q)"

lemma good_observe_start: "good_entry env e \<Longrightarrow> good_observation env e (observe_start e)"
  by (simp add: good_entry_def good_observation_def observe_start_def wf_entry_def)

text \<open>The four ways one advertised tool is handled.\<close>

lemma observe_tool_cases:
  assumes fp: "fingerprint env t = (h, stored)"
  obtains (known) a where "map_of (approved e) (td_name t) = Some a" "ar_hash a = h"
      "ob_quarantined (observe_tool env e now cap t ob) = ob_quarantined ob"
      "ob_count (observe_tool env e now cap t ob) = ob_count ob"
      "ob_cap_exceeded (observe_tool env e now cap t ob) = ob_cap_exceeded ob"
    | (kept) q where "map_of (ob_quarantined ob) (td_name t) = Some q" "qr_hash q = h"
      "ob_quarantined (observe_tool env e now cap t ob) = ob_quarantined ob"
      "ob_count (observe_tool env e now cap t ob) = ob_count ob"
      "ob_cap_exceeded (observe_tool env e now cap t ob) = ob_cap_exceeded ob"
    | (capped) "map_of (ob_quarantined ob) (td_name t) = None" "at_cap (ob_count ob) cap"
      "ob_quarantined (observe_tool env e now cap t ob) = ob_quarantined ob"
      "ob_count (observe_tool env e now cap t ob) = ob_count ob"
      "ob_cap_exceeded (observe_tool env e now cap t ob)"
    | (recorded) q where "map_of (ob_quarantined ob) (td_name t) = None \<longrightarrow> \<not> at_cap (ob_count ob) cap"
      "q = \<lparr>qr_hash = h, qr_first_seen = now,
         qr_state = (if has_own (approved e) (td_name t) then Changed else New),
         qr_descriptor = sd_descriptor stored, qr_truncated = sd_truncated stored,
         qr_delta = surfaceDeltaAgainstApproved env (map_of (approved e) (td_name t)) (sd_descriptor stored)\<rparr>"
      "ob_quarantined (observe_tool env e now cap t ob) = withKey (ob_quarantined ob) (td_name t) q"
      "ob_count (observe_tool env e now cap t ob) =
         (if map_of (ob_quarantined ob) (td_name t) = None then Suc (ob_count ob) else ob_count ob)"
      "ob_cap_exceeded (observe_tool env e now cap t ob) = ob_cap_exceeded ob"
proof (cases "\<exists>a. map_of (approved e) (td_name t) = Some a \<and> ar_hash a = h")
  case True
  then obtain a where a: "map_of (approved e) (td_name t) = Some a" "ar_hash a = h" by blast
  then show ?thesis by (intro known[of a]) (simp_all add: observe_tool_def fp Let_def)
next
  case changed: False
  let ?st = "if has_own (approved e) (td_name t) then Changed else New"
  let ?ob1 = "ob\<lparr>ob_new := ob_new ob @ (if ?st = New then [td_name t] else []),
      ob_changed := ob_changed ob @ (if ?st = New then [] else [td_name t]),
      ob_snapshot := withKey (ob_snapshot ob) (td_name t) ?st\<rparr>"
  show ?thesis
  proof (cases "\<exists>q. map_of (ob_quarantined ob) (td_name t) = Some q \<and> qr_hash q = h")
    case True
    then obtain q where q: "map_of (ob_quarantined ob) (td_name t) = Some q" "qr_hash q = h" by blast
    have "observe_tool env e now cap t ob = ?ob1"
      using changed True by (auto simp: observe_tool_def fp Let_def)
    with q show ?thesis by (intro kept[of q]) simp_all
  next
    case False
    show ?thesis
    proof (cases "map_of (ob_quarantined ob) (td_name t) = None \<and> at_cap (ob_count ob) cap")
      case True
      then have "observe_tool env e now cap t ob = ?ob1\<lparr>ob_cap_exceeded := True\<rparr>"
        using changed by (auto simp: observe_tool_def fp Let_def)
      with True show ?thesis by (intro capped) simp_all
    next
      case no_cap: False
      let ?q = "\<lparr>qr_hash = h, qr_first_seen = now, qr_state = ?st, qr_descriptor = sd_descriptor stored,
          qr_truncated = sd_truncated stored,
          qr_delta = surfaceDeltaAgainstApproved env (map_of (approved e) (td_name t)) (sd_descriptor stored)\<rparr>"
      have "observe_tool env e now cap t ob = ?ob1\<lparr>ob_quarantined := withKey (ob_quarantined ob) (td_name t) ?q,
          ob_count := (if map_of (ob_quarantined ob) (td_name t) = None then Suc (ob_count ob) else ob_count ob)\<rparr>"
        using changed False no_cap by (auto simp: observe_tool_def fp Let_def)
      with no_cap show ?thesis by (intro recorded[of ?q]) auto
    qed
  qed
qed

lemma good_observe_tool:
  assumes "good_observation env e ob"
  shows "good_observation env e (observe_tool env e now cap t ob)"
proof -
  obtain h stored where fp: "fingerprint env t = (h, stored)" by fastforce
  show ?thesis
  proof (cases rule: observe_tool_cases[OF fp, where e = e and now = now and cap = cap and ob = ob,
      case_names known kept capped recorded])
    case (recorded q)
    have "good_quarantined env (approved e) (td_name t) q"
      using fp recorded(2) unfolding good_quarantined_def stored_from_def
      by (auto intro!: exI[of _ t])
    with recorded assms show ?thesis by (auto simp: good_observation_def length_withKey)
  qed (use assms in \<open>auto simp: good_observation_def\<close>)
qed

lemma good_observeAgainst:
  "good_entry env e \<Longrightarrow> good_observation env e (observeAgainst env e tools now cap)"
proof -
  assume "good_entry env e"
  have "good_observation env e ob \<Longrightarrow> good_observation env e (fold (observe_tool env e now cap) tools ob)" for ob
    by (induction tools arbitrary: ob) (auto simp: good_observe_tool)
  with \<open>good_entry env e\<close> show ?thesis by (simp add: observeAgainst_def good_observe_start)
qed

lemma good_next_entry:
  "good_entry env e \<Longrightarrow> good_entry env (next_server_entry e (observeAgainst env e tools now cap))"
  using good_observeAgainst[of env e tools now cap]
  by (simp add: good_entry_def good_observation_def next_server_entry_def wf_entry_def)

lemma good_approve:
  assumes "good_entry env e"
  shows "good_entry env (fst (withApprovedTool e n at))"
proof (cases "map_of (quarantined e) n")
  case (Some q)
  have "good_approved env n (approvedRecordFrom q at)"
    using assms Some by (auto simp: good_entry_def good_quarantined_def good_approved_def approvedRecordFrom_def)
  with Some assms show ?thesis
    by (auto simp: good_entry_def withApprovedTool_def wf_entry_def good_quarantined_def
        simp del: map_of_eq_Some_iff)
qed (use assms in \<open>simp add: withApprovedTool_def\<close>)

lemma good_reject: "good_entry env e \<Longrightarrow> good_entry env (fst (withRejectedTool e n))"
  by (auto simp: good_entry_def withRejectedTool_def wf_entry_def simp del: map_of_eq_Some_iff split: if_splits)

lemma good_foldl:
  "good_entry env e \<Longrightarrow> (\<And>e n. good_entry env e \<Longrightarrow> good_entry env (f e n)) \<Longrightarrow> good_entry env (foldl f e ns)"
  by (induction ns arbitrary: e) auto

lemma good_catalog: "good_entry env e \<Longrightarrow> good_entry env (fst (withApprovedCatalog env e tools at))"
  by (simp add: withApprovedCatalog_def Let_def good_foldl good_approve good_reject good_next_entry)

section \<open>The inventory as a state machine\<close>

inductive entry_step :: "tool_env \<Rightarrow> server_inventory \<Rightarrow> server_inventory \<Rightarrow> bool" for env where
  observe: "entry_step env e (next_server_entry e (observeAgainst env e tools now cap))"
| approve: "entry_step env e (fst (withApprovedTool e n at))"
| reject: "entry_step env e (fst (withRejectedTool e n))"
| catalog: "entry_step env e (fst (withApprovedCatalog env e tools at))"

definition reachable_entry :: "tool_env \<Rightarrow> server_inventory \<Rightarrow> bool" where
  "reachable_entry env e \<longleftrightarrow> (entry_step env)\<^sup>*\<^sup>* empty_server_inventory e"

lemma entry_step_good: "entry_step env e e' \<Longrightarrow> good_entry env e \<Longrightarrow> good_entry env e'"
  by (induction rule: entry_step.induct) (auto simp: good_next_entry good_approve good_reject good_catalog)

lemma reachable_good: "reachable_entry env e \<Longrightarrow> good_entry env e"
  unfolding reachable_entry_def
proof (induction rule: rtranclp_induct)
  case base
  show ?case by (simp add: good_entry_def wf_entry_def empty_server_inventory_def)
qed (rule entry_step_good)

section \<open>What an observation establishes\<close>

definition gated_in :: "server_inventory \<Rightarrow> observation \<Rightarrow> jstr \<Rightarrow> jstr \<Rightarrow> bool" where
  "gated_in e ob name h \<longleftrightarrow> ob_cap_exceeded ob \<or> has_own (ob_quarantined ob) name \<or>
     (\<exists>a. map_of (approved e) name = Some a \<and> ar_hash a = h)"

lemma observe_tool_gates:
  "fingerprint env t = (h, stored) \<Longrightarrow> gated_in e (observe_tool env e now cap t ob) (td_name t) h"
  by (cases rule: observe_tool_cases[where env = env and t = t and h = h and stored = stored and e = e
        and now = now and cap = cap and ob = ob, case_names fp known kept capped recorded])
    (auto simp: gated_in_def)

lemma observe_tool_keeps:
  "gated_in e ob name h \<Longrightarrow> gated_in e (observe_tool env e now cap t ob) name h"
proof -
  obtain h' stored where fp: "fingerprint env t = (h', stored)" by fastforce
  show "gated_in e ob name h \<Longrightarrow> ?thesis"
    by (cases rule: observe_tool_cases[OF fp, where e = e and now = now and cap = cap and ob = ob])
      (auto simp: gated_in_def)
qed

lemma observeAgainst_gates:
  assumes "t \<in> set tools" and "fingerprint env t = (h, stored)"
  shows "gated_in e (observeAgainst env e tools now cap) (td_name t) h"
proof -
  have keep: "gated_in e ob n h \<Longrightarrow> gated_in e (fold (observe_tool env e now cap) ts ob) n h" for ob n ts
    by (induction ts arbitrary: ob) (auto simp: observe_tool_keeps)
  have "t \<in> set ts \<Longrightarrow> gated_in e (fold (observe_tool env e now cap) ts ob) (td_name t) h" for ts ob
    using assms(2) by (induction ts arbitrary: ob) (auto intro: keep observe_tool_gates)
  with assms(1) show ?thesis by (simp add: observeAgainst_def)
qed

lemma observe_tool_count:
  assumes "good_observation env e ob" and "ob_count ob \<le> m"
  shows "ob_count (observe_tool env e now (Some m) t ob) \<le> m"
proof -
  obtain h stored where fp: "fingerprint env t = (h, stored)" by fastforce
  show ?thesis
    using assms(2)
    by (cases rule: observe_tool_cases[OF fp, where e = e and now = now and cap = "Some m" and ob = ob])
      (auto simp: at_cap_def)
qed

lemma observeAgainst_count:
  assumes "good_entry env e" and "length (quarantined e) \<le> m"
  shows "length (ob_quarantined (observeAgainst env e tools now (Some m))) \<le> m"
proof -
  have "good_observation env e ob \<Longrightarrow> ob_count ob \<le> m \<Longrightarrow>
      ob_count (fold (observe_tool env e now (Some m)) ts ob) \<le> m" for ts ob
    by (induction ts arbitrary: ob) (auto simp: observe_tool_count good_observe_tool)
  then have "ob_count (observeAgainst env e tools now (Some m)) \<le> m"
    using good_observe_start[OF assms(1)] assms(2) by (simp add: observeAgainst_def observe_start_def)
  then show ?thesis using good_observeAgainst[OF assms(1)] by (simp add: good_observation_def)
qed

lemma good_states:
  "good_entry env e \<Longrightarrow> map_of (sn_states (buildSnapshots e)) n = Some Known \<Longrightarrow>
   map_of (quarantined e) n = None \<and> has_own (approved e) n"
  by (auto simp: good_entry_def buildSnapshots_states good_quarantined_def
      simp del: map_of_eq_Some_iff split: option.splits if_splits)

lemma serverEntryOf_withKey [simp]: "serverEntryOf server (withKey data server e) = e"
  by (simp add: serverEntryOf_def)

section \<open>Properties\<close>

text \<open>
  C7. The stored inventory of a server keeps its invariant under any sequence of observations,
  approvals, rejections and catalog approvals: names are unique, every record was made from a
  descriptor advertised under its name, a quarantined tool is \<open>changed\<close> exactly when it is approved
  and \<open>new\<close> otherwise, and its stored direction is the one against the approved record of now.
\<close>

theorem inventory_invariant:
  assumes "reachable_entry env e"
  shows "good_entry env e"
  using assms by (rule reachable_good)


text \<open>
  Approving a quarantined tool makes it \<open>known\<close> with the fingerprint that was quarantined and
  nothing else: every other tool keeps its state, its approved record and its quarantine. Approving
  a tool that is not quarantined changes nothing.
\<close>

lemma approve_effect:
  assumes "good_entry env (serverEntryOf server data)"
  shows "(case map_of (quarantined (serverEntryOf server data)) name of
      None \<Rightarrow> approve server now name iv data = (iv, data, False)
    | Some q \<Rightarrow> (\<exists>iv' data' a. approve server now name iv data = (iv', data', True) \<and>
        stateOf iv' name = Known \<and>
        map_of (approved (serverEntryOf server data')) name = Some a \<and> ar_hash a = qr_hash q \<and>
        (\<forall>other. other \<noteq> name \<longrightarrow>
           map_of (approved (serverEntryOf server data')) other = map_of (approved (serverEntryOf server data)) other \<and>
           map_of (quarantined (serverEntryOf server data')) other = map_of (quarantined (serverEntryOf server data)) other)))"
proof (cases "map_of (quarantined (serverEntryOf server data)) name")
  case None
  then show ?thesis by (simp add: approve_def mutate_inventory_def withApprovedTool_def)
next
  case (Some q)
  let ?e = "fst (withApprovedTool (serverEntryOf server data) name now)"
  have "good_entry env ?e" using assms by (rule good_approve)
  then have "map_of (sn_states (buildSnapshots ?e)) name = Some Known"
    using Some by (simp add: buildSnapshots_states good_entry_def withApprovedTool_def)
  with Some show ?thesis
    by (simp add: approve_def mutate_inventory_def withApprovedTool_def stateOf_def approvedRecordFrom_def)
qed

text \<open>
  A hostile server cannot grow the store without bound: an observation never leaves more than
  the cap of quarantined tools, and when it had to drop one the inventory is no longer trusted.
\<close>

lemma quarantine_bounded:
  assumes "good_entry env (serverEntryOf server data)"
    and "length (quarantined (serverEntryOf server data)) \<le> max_quarantined_tools"
    and "observeToolsList env server tools now write_ok iv data = (iv', data', res)"
  shows "length (quarantined (serverEntryOf server data')) \<le> max_quarantined_tools \<and>
    (\<forall>t \<in> set tools. inv_trusted iv' \<longrightarrow>
       has_own (quarantined (serverEntryOf server data')) (td_name t) \<or>
       (\<exists>a. map_of (approved (serverEntryOf server data')) (td_name t) = Some a \<and> ar_hash a = fst (fingerprint env t)))"
proof (cases write_ok)
  case True
  let ?e = "serverEntryOf server data"
  let ?ob = "observeAgainst env ?e tools now (Some max_quarantined_tools)"
  have "\<forall>t \<in> set tools. gated_in ?e ?ob (td_name t) (fst (fingerprint env t))"
    using observeAgainst_gates[of _ tools env] by (metis prod.collapse)
  with True assms(3) observeAgainst_count[OF assms(1,2), of tools now] show ?thesis
    by (auto simp: observeToolsList_def Let_def next_server_entry_def gated_in_def)
qed (use assms in \<open>auto simp: observeToolsList_def\<close>)

text \<open>A small server for the examples: one tool, listed, approved and listed again.\<close>

text \<open>Enough of the Unicode operations for names that are lower-case ASCII already.\<close>

definition lower_case_names :: unicode where
  "lower_case_names = \<lparr>nfkc = \<lambda>s. s, strip_evasion = \<lambda>s. s, to_lower = \<lambda>s. s\<rparr>"

definition sample_redactor :: redactor where
  "sample_redactor = \<lparr>rd_unicode = lower_case_names, rd_parse = \<lambda>_. None, rd_stringify = \<lambda>_. [], rd_text = \<lambda>s. s\<rparr>"

definition sample_env :: tool_env where
  "sample_env = \<lparr>te_sha = \<lambda>s. s, te_num = \<lambda>_. js ''0'', te_redactor = sample_redactor\<rparr>"

definition sample_tool :: tool_descriptor where
  "sample_tool = \<lparr>td_name = js ''ls'', td_description = Some (js ''lists''), td_schema = Some (JObj [(js ''type'', JStr (js ''object''))]),
     td_annotations = None\<rparr>"

definition listed_entry :: server_inventory where
  "listed_entry = next_server_entry empty_server_inventory
     (observeAgainst sample_env empty_server_inventory [sample_tool] (js ''t0'') None)"

definition approved_entry :: server_inventory where
  "approved_entry = fst (withApprovedTool listed_entry (js ''ls'') (js ''t1''))"

text \<open>The entries in terms of the fingerprint, which need not be evaluated.\<close>

lemma sample_entries:
  assumes "fingerprint sample_env sample_tool = (h, stored)"
  shows "\<exists>q. qr_hash q = h \<and> quarantined listed_entry = [(js ''ls'', q)] \<and> approved listed_entry = [] \<and>
      approved_entry = \<lparr>approved = [(js ''ls'', approvedRecordFrom q (js ''t1''))], quarantined = []\<rparr>"
proof -
  have "td_name sample_tool = js ''ls''" by (simp add: sample_tool_def)
  with assms show ?thesis
    by (auto simp: listed_entry_def approved_entry_def next_server_entry_def observeAgainst_def observe_tool_def
        observe_start_def empty_server_inventory_def withApprovedTool_def at_cap_def withKey_def omitKey_def)
qed

lemma sample_observe:
  "\<exists>res. observeToolsList sample_env (js ''fs'') [sample_tool] (js ''t2'') True createInventory [(js ''fs'', approved_entry)]
     = (createInventory\<lparr>inv_observed := True, inv_snapshots := buildSnapshots approved_entry\<rparr>,
        [(js ''fs'', approved_entry)], res) \<and> inv_trusted createInventory \<and>
   stateOf (createInventory\<lparr>inv_observed := True, inv_snapshots := buildSnapshots approved_entry\<rparr>) (js ''ls'') = Known"
proof -
  obtain h stored where fp: "fingerprint sample_env sample_tool = (h, stored)" by fastforce
  then obtain q where q: "qr_hash q = h"
      "approved_entry = \<lparr>approved = [(js ''ls'', approvedRecordFrom q (js ''t1''))], quarantined = []\<rparr>"
    using sample_entries by blast
  have n: "td_name sample_tool = js ''ls''" by (simp add: sample_tool_def)
  have known: "stateOf (createInventory\<lparr>inv_observed := True, inv_snapshots := buildSnapshots approved_entry\<rparr>) (js ''ls'') = Known"
    by (simp add: stateOf_def buildSnapshots_states wf_entry_def q)
  have "observeAgainst sample_env approved_entry [sample_tool] (js ''t2'') (Some max_quarantined_tools) =
      (observe_start approved_entry)\<lparr>ob_known := [js ''ls''], ob_snapshot := [(js ''ls'', Known)]\<rparr>"
    unfolding q(2) using fp q(1) n
    by (simp add: observeAgainst_def observe_tool_def observe_start_def approvedRecordFrom_def withKey_def Let_def)
  with known show ?thesis
    by (simp add: observeToolsList_def serverEntryOf_def createInventory_def Let_def withKey_def next_server_entry_def
        observe_start_def q)
qed

lemma sample_reachable: "reachable_entry sample_env listed_entry \<and> reachable_entry sample_env approved_entry"
proof
  show l: "reachable_entry sample_env listed_entry"
    unfolding reachable_entry_def listed_entry_def by (rule r_into_rtranclp) (rule entry_step.observe)
  then show "reachable_entry sample_env approved_entry"
    unfolding reachable_entry_def approved_entry_def
    by (rule rtranclp.rtrancl_into_rtrancl) (rule entry_step.approve)
qed

theorem inventory_invariant_witness: "good_entry sample_env approved_entry"
  by (rule inventory_invariant) (rule conjunct2[OF sample_reachable])


theorem quarantine_bounded_witness:
  "length (quarantined (serverEntryOf (js ''fs'') (fst (snd
     (observeToolsList sample_env (js ''fs'') [sample_tool] (js ''t2'') True createInventory []))))) \<le> max_quarantined_tools"
proof -
  have "good_entry sample_env (serverEntryOf (js ''fs'') [])"
    by (simp add: serverEntryOf_def good_entry_def wf_entry_def empty_server_inventory_def)
  moreover have "length (quarantined (serverEntryOf (js ''fs'') [])) \<le> max_quarantined_tools"
    by (simp add: serverEntryOf_def empty_server_inventory_def)
  ultimately show ?thesis
    using quarantine_bounded[of sample_env "js ''fs''" "[]" "[sample_tool]" "js ''t2''" True createInventory]
    by (metis prod.collapse)
qed

section \<open>Redaction hides changes from the direction\<close>

definition with_property :: "jstr \<Rightarrow> json \<Rightarrow> json" where
  "with_property name schema = JObj [(js ''properties'', JObj [(name, schema)])]"

text \<open>
  Where the direction is wrong: the direction is computed on redacted copies of the schemas, and
  redaction replaces the schema of a property whose name looks sensitive (\<open>author\<close>, \<open>token\<close>) by the
  placeholder. Whatever two schemas the server advertises for such a property, the copies are equal,
  the diff is \<open>neutral\<close> and not truncated, and an explicit \<open>allow\<close> survives the change.
\<close>

lemma sensitive_property_change_is_neutral:
  "diffToolSchemas stringify
     (Val (redact (sample_redactor\<lparr>rd_parse := parse, rd_text := text\<rparr>) (with_property (js ''author'') before) secrets))
     (Val (redact (sample_redactor\<lparr>rd_parse := parse, rd_text := text\<rparr>) (with_property (js ''author'') after) secrets))
   = \<lparr>dr_changes = [], dr_delta = Neutral, dr_truncated = False\<rparr>"
proof -
  have "isSensitiveKey lower_case_names (js ''author'')" by code_simp
  moreover have "\<not> isSensitiveKey lower_case_names (js ''properties'')" by code_simp
  ultimately have "redact (sample_redactor\<lparr>rd_parse := parse, rd_text := text\<rparr>) (with_property (js ''author'') v) secrets
      = with_property (js ''author'') (JStr redacted_placeholder)" for v
    by (simp add: redact_def with_property_def sample_redactor_def)
  moreover have "diffToolSchemas stringify (Val (with_property (js ''author'') (JStr redacted_placeholder)))
      (Val (with_property (js ''author'') (JStr redacted_placeholder))) =
    \<lparr>dr_changes = [], dr_delta = Neutral, dr_truncated = False\<rparr>"
    by code_simp
  ultimately show ?thesis by simp
qed

end
