(* ===== verification/Approval_Queue.thy ===== *)
theory Approval_Queue
  imports Json Policy_Types
begin

text \<open>
  \<open>policy/approvals/\<close>: the queue of calls that wait for a person, as the two SQLite tables behind it
  and the operations of \<open>createApprovalQueue\<close>. One operation that runs in a write transaction is one
  state function; the database is \<open>queue_db\<close>, its rows in insertion order.

  Instants are milliseconds. The code stores them with \<open>toISOString\<close> and compares the fixed-width
  text, which is the numeric order; a stored document that \<open>parseDoc\<close> rejects is \<open>Malformed\<close>. The
  clock, the generator of ids and the liveness probe are arguments.
\<close>

section \<open>Records\<close>

datatype resolution_outcome = Approved | Denied | Expired | Withdrawn

record pending_file =
  pf_id :: jstr
  pf_server :: jstr
  pf_tool :: jstr
  pf_class :: tool_class
  pf_args_redacted :: json
  pf_args_hash :: jstr
  pf_session :: jstr
  pf_requested_at :: int
  pf_expires_at :: int
  pf_agent :: "jstr option"
  pf_wait_expires_at :: "int option"
  pf_rule :: "jstr option"
  pf_policy_hash :: "jstr option"
  pf_grants_hash :: "jstr option"
  pf_resend_of :: "int option"

record resolution =
  re_outcome :: resolution_outcome
  re_actor :: "jstr option"
  re_reason :: "jstr option"

datatype doc = PendingDoc pending_file | ResolvedDoc pending_file resolution int | Malformed

datatype status = StatusPending | StatusResolved

record approval_row =
  row_status :: status
  row_doc :: doc
  row_requested_at :: int
  row_expires_at :: int
  row_outcome :: "resolution_outcome option"
  row_resolved_at :: "int option"
  row_seq :: nat

record holder_identity =
  h_pid :: int
  h_host :: jstr
  h_nonce :: jstr

record hold_record =
  hold_beat :: int
  hold_by :: holder_identity

record queue_db =
  q_rows :: "(jstr \<times> approval_row) list"
  q_seq :: nat
  q_holds :: "(jstr \<times> hold_record) list"

definition max_actor_chars :: nat where "max_actor_chars = 128"
definition list_max_rows :: nat where "list_max_rows = 500"
definition retention_ms :: int where "retention_ms = 24 * 60 * 60000"
definition retention_batch :: nat where "retention_batch = 200"
definition heartbeat_stale_ms :: int where "heartbeat_stale_ms = 2 * 60000"

section \<open>Reading documents\<close>

definition isOptionalActor :: "jstr option \<Rightarrow> bool" where
  "isOptionalActor a = (case a of None \<Rightarrow> True | Some s \<Rightarrow> length s \<le> max_actor_chars)"

text \<open>A settled document carries every field of a pending one.\<close>

fun parse_pending :: "doc \<Rightarrow> pending_file option" where
  "parse_pending (PendingDoc p) = Some p"
| "parse_pending (ResolvedDoc p r t) = Some p"
| "parse_pending Malformed = None"

fun parse_resolved :: "doc \<Rightarrow> (pending_file \<times> resolution \<times> int) option" where
  "parse_resolved (ResolvedDoc p r t) = (if isOptionalActor (re_actor r) then Some (p, r, t) else None)"
| "parse_resolved _ = None"

definition isExpiredAt :: "int \<Rightarrow> int \<Rightarrow> bool" where
  "isExpiredAt expiresAt nowMs \<longleftrightarrow> expiresAt \<le> nowMs"

definition deliveryEndsAt :: "pending_file \<Rightarrow> int" where
  "deliveryEndsAt p =
     (case pf_wait_expires_at p of
        Some w \<Rightarrow> if w < pf_expires_at p then w else pf_expires_at p
      | None \<Rightarrow> pf_expires_at p)"

definition isPastDelivery :: "pending_file \<Rightarrow> int \<Rightarrow> bool" where
  "isPastDelivery p nowMs = isExpiredAt (deliveryEndsAt p) nowMs"

section \<open>Holders\<close>

datatype liveness = Alive | Gone | LivenessUnknown

type_synonym liveness_probe = "holder_identity \<Rightarrow> jstr \<Rightarrow> liveness"

definition isFreshHeartbeat :: "int \<Rightarrow> int \<Rightarrow> bool" where
  "isFreshHeartbeat beat nowMs \<longleftrightarrow> nowMs - beat \<le> heartbeat_stale_ms"

definition isHolderLost :: "jstr \<Rightarrow> hold_record option \<Rightarrow> int \<Rightarrow> liveness_probe \<Rightarrow> bool" where
  "isHolderLost approvalId hold nowMs probe =
     (case hold of
        None \<Rightarrow> False
      | Some h \<Rightarrow> \<not> isFreshHeartbeat (hold_beat h) nowMs \<and> probe (hold_by h) approvalId = Gone)"

datatype kill_result = KillOk | ESRCH | EPERM | KillOther

text \<open>\<open>probeHolderLiveness\<close>: this process is \<open>self\<close>, \<open>held\<close> what it holds, \<open>kill\<close> is \<open>process.kill(pid, 0)\<close>.\<close>

definition probeHolderLiveness ::
  "holder_identity \<Rightarrow> jstr set \<Rightarrow> (int \<Rightarrow> kill_result) \<Rightarrow> liveness_probe" where
  "probeHolderLiveness self held kill holder approvalId =
     (if h_host holder \<noteq> h_host self then LivenessUnknown
      else if h_pid holder = h_pid self then
        (if h_nonce holder \<noteq> h_nonce self then LivenessUnknown
         else if approvalId \<in> held then Alive else Gone)
      else if h_pid holder \<le> 0 then LivenessUnknown
      else case kill (h_pid holder) of
          KillOk \<Rightarrow> Alive | ESRCH \<Rightarrow> Gone | EPERM \<Rightarrow> Alive | KillOther \<Rightarrow> LivenessUnknown)"

section \<open>Statements on the tables\<close>

definition bumpChangeSeq :: "queue_db \<Rightarrow> nat \<times> queue_db" where
  "bumpChangeSeq db = (Suc (q_seq db), db\<lparr>q_seq := Suc (q_seq db)\<rparr>)"

definition selectHold :: "queue_db \<Rightarrow> jstr \<Rightarrow> hold_record option" where
  "selectHold db approvalId = map_of (q_holds db) approvalId"

definition selectPendingDoc :: "queue_db \<Rightarrow> jstr \<Rightarrow> doc option" where
  "selectPendingDoc db approvalId =
     (case map_of (q_rows db) approvalId of
        Some r \<Rightarrow> if row_status r = StatusPending then Some (row_doc r) else None
      | None \<Rightarrow> None)"

definition selectResolvedDoc :: "queue_db \<Rightarrow> jstr \<Rightarrow> doc option" where
  "selectResolvedDoc db approvalId =
     (case map_of (q_rows db) approvalId of
        Some r \<Rightarrow> if row_status r = StatusResolved then Some (row_doc r) else None
      | None \<Rightarrow> None)"

text \<open>The insert fails, and the transaction with it, when the primary key is taken.\<close>

definition insertPendingRow :: "jstr \<Rightarrow> approval_row \<Rightarrow> queue_db \<Rightarrow> queue_db option" where
  "insertPendingRow approvalId row db =
     (if has_own (q_rows db) approvalId then None else Some (db\<lparr>q_rows := q_rows db @ [(approvalId, row)]\<rparr>))"

definition insertHold :: "jstr \<Rightarrow> int \<Rightarrow> holder_identity \<Rightarrow> queue_db \<Rightarrow> queue_db" where
  "insertHold approvalId at holder db =
     db\<lparr>q_holds := AList.update approvalId \<lparr>hold_beat = at, hold_by = holder\<rparr> (q_holds db)\<rparr>"

definition deleteHold :: "jstr \<Rightarrow> queue_db \<Rightarrow> queue_db" where
  "deleteHold approvalId db = db\<lparr>q_holds := AList.delete approvalId (q_holds db)\<rparr>"

definition resolvePendingRow ::
  "jstr \<Rightarrow> doc \<Rightarrow> resolution_outcome \<Rightarrow> int \<Rightarrow> nat \<Rightarrow> queue_db \<Rightarrow> bool \<times> queue_db" where
  "resolvePendingRow approvalId d outcome resolvedAt seq db =
     (case map_of (q_rows db) approvalId of
        Some r \<Rightarrow>
          if row_status r = StatusPending
          then (True, db\<lparr>q_rows := AList.update approvalId
                  (r\<lparr>row_status := StatusResolved, row_doc := d, row_outcome := Some outcome,
                     row_resolved_at := Some resolvedAt, row_seq := seq\<rparr>) (q_rows db)\<rparr>)
          else (False, db)
      | None \<Rightarrow> (False, db))"

definition is_pending_row :: "approval_row \<Rightarrow> bool" where
  "is_pending_row r \<longleftrightarrow> row_status r = StatusPending"

definition selectPendingDocs :: "queue_db \<Rightarrow> nat \<Rightarrow> (jstr \<times> doc \<times> hold_record option) list" where
  "selectPendingDocs db limit =
     map (\<lambda>(i, r). (i, row_doc r, selectHold db i))
       (take limit (sort_key (\<lambda>(i, r). row_requested_at r)
          (sort_key fst (filter (\<lambda>(i, r). is_pending_row r) (q_rows db)))))"

definition countPendingRows :: "queue_db \<Rightarrow> nat" where
  "countPendingRows db = length (filter (\<lambda>(i, r). is_pending_row r) (q_rows db))"

definition selectExpiredPendingRows :: "queue_db \<Rightarrow> int \<Rightarrow> nat \<Rightarrow> (jstr \<times> doc) list" where
  "selectExpiredPendingRows db now limit =
     map (\<lambda>(i, r). (i, row_doc r))
       (take limit (sort_key (\<lambda>(i, r). row_expires_at r)
          (filter (\<lambda>(i, r). is_pending_row r \<and> row_expires_at r \<le> now) (q_rows db))))"

definition selectStaleHoldRows :: "queue_db \<Rightarrow> int \<Rightarrow> nat \<Rightarrow> (jstr \<times> doc \<times> hold_record) list" where
  "selectStaleHoldRows db cutoff limit =
     map (\<lambda>(i, h). (i, row_doc (the (map_of (q_rows db) i)), h))
       (take limit (sort_key (\<lambda>(i, h). hold_beat h)
          (filter (\<lambda>(i, h). hold_beat h < cutoff \<and> selectPendingDoc db i \<noteq> None) (q_holds db))))"

definition selectNewestResolvedDocs :: "queue_db \<Rightarrow> nat \<Rightarrow> doc list" where
  "selectNewestResolvedDocs db limit =
     map (row_doc \<circ> snd) (take limit (rev (sort_key fst (filter (\<lambda>(i, r). \<not> is_pending_row r) (q_rows db)))))"

definition refreshHeartbeats :: "jstr list \<Rightarrow> int \<Rightarrow> queue_db \<Rightarrow> queue_db" where
  "refreshHeartbeats ids at db =
     db\<lparr>q_holds := map (\<lambda>(i, h). (i, if i \<in> set ids \<and> selectPendingDoc db i \<noteq> None
                                     then h\<lparr>hold_beat := at\<rparr> else h)) (q_holds db)\<rparr>"

definition deleteResolvedOlderThan :: "int \<Rightarrow> nat \<Rightarrow> queue_db \<Rightarrow> queue_db" where
  "deleteResolvedOlderThan cutoff limit db =
     (let old = take limit (sort_key (\<lambda>(i, r). the (row_resolved_at r))
            (filter (\<lambda>(i, r). \<not> is_pending_row r \<and> some_with (row_resolved_at r) (\<lambda>t. t < cutoff)) (q_rows db)))
      in db\<lparr>q_rows := filter (\<lambda>(i, r). i \<notin> set (map fst old)) (q_rows db)\<rparr>)"

definition deleteOrphanHolds :: "nat \<Rightarrow> queue_db \<Rightarrow> queue_db" where
  "deleteOrphanHolds limit db =
     (let orphans = take limit (filter (\<lambda>(i, h). selectPendingDoc db i = None) (q_holds db))
      in db\<lparr>q_holds := filter (\<lambda>(i, h). i \<notin> set (map fst orphans)) (q_holds db)\<rparr>)"

definition pruneRetention :: "int \<Rightarrow> bool \<Rightarrow> queue_db \<Rightarrow> queue_db" where
  "pruneRetention nowMs locked db =
     (if locked then db
      else deleteOrphanHolds retention_batch (deleteResolvedOlderThan (nowMs - retention_ms) retention_batch db))"

section \<open>Settling\<close>

type_synonym resolved_record = "pending_file \<times> resolution \<times> int"

datatype resolve_result =
    ResolveOk resolved_record
  | NotFoundOrAlreadyResolved
  | WithdrawnRefusal int jstr

definition id_unit :: "u16 \<Rightarrow> bool" where
  "id_unit c \<longleftrightarrow> unit_of (CHR ''A'') \<le> c \<and> c \<le> unit_of (CHR ''Z'') \<or>
     unit_of (CHR ''a'') \<le> c \<and> c \<le> unit_of (CHR ''z'') \<or>
     unit_of (CHR ''0'') \<le> c \<and> c \<le> unit_of (CHR ''9'') \<or> c = unit_of (CHR ''_'') \<or> c = unit_of (CHR ''-'')"

definition isValidApprovalId :: "jstr \<Rightarrow> bool" where
  "isValidApprovalId i \<longleftrightarrow> 1 \<le> length i \<and> length i \<le> 64 \<and> list_all id_unit i"

definition withdrawnRefusal :: "resolved_record \<Rightarrow> resolve_result" where
  "withdrawnRefusal rec =
     (case rec of (p, r, t) \<Rightarrow> WithdrawnRefusal t (case re_reason r of Some s \<Rightarrow> s | None \<Rightarrow> []))"

definition refusalFor :: "queue_db \<Rightarrow> jstr \<Rightarrow> resolve_result" where
  "refusalFor db approvalId =
     (case Option.bind (selectResolvedDoc db approvalId) parse_resolved of
        None \<Rightarrow> NotFoundOrAlreadyResolved
      | Some rec \<Rightarrow> if re_outcome (fst (snd rec)) \<noteq> Withdrawn then NotFoundOrAlreadyResolved
                   else withdrawnRefusal rec)"

type_synonym build_resolution = "pending_file \<Rightarrow> hold_record option \<Rightarrow> resolution"

definition settleOne :: "jstr \<Rightarrow> int \<Rightarrow> build_resolution \<Rightarrow> queue_db \<Rightarrow> resolve_result \<times> queue_db" where
  "settleOne approvalId resolvedAt build db =
     (case selectPendingDoc db approvalId of
        None \<Rightarrow> (refusalFor db approvalId, db)
      | Some text \<Rightarrow>
         (case parse_pending text of
            None \<Rightarrow> (NotFoundOrAlreadyResolved, db)
          | Some pending \<Rightarrow>
              let resolution = build pending (selectHold db approvalId);
                  record = (pending, resolution, resolvedAt);
                  (seq, db1) = bumpChangeSeq db;
                  (won, db2) = resolvePendingRow approvalId (ResolvedDoc pending resolution resolvedAt)
                                 (re_outcome resolution) resolvedAt seq db1
              in if \<not> won then (NotFoundOrAlreadyResolved, db2)
                 else (ResolveOk record, deleteHold approvalId db2)))"

fun settle_all :: "jstr list \<Rightarrow> int \<Rightarrow> build_resolution \<Rightarrow> queue_db \<Rightarrow> resolve_result list \<times> queue_db" where
  "settle_all [] resolvedAt build db = ([], db)"
| "settle_all (i # is) resolvedAt build db =
     (let (r, db1) = settleOne i resolvedAt build db; (rs, db2) = settle_all is resolvedAt build db1 in (r # rs, db2))"

definition moveToResolvedBatch ::
  "jstr list \<Rightarrow> int \<Rightarrow> build_resolution \<Rightarrow> queue_db \<Rightarrow> resolve_result list \<times> queue_db" where
  "moveToResolvedBatch ids now build db = settle_all (filter isValidApprovalId ids) now build db"

definition moveToResolved :: "jstr \<Rightarrow> int \<Rightarrow> build_resolution \<Rightarrow> queue_db \<Rightarrow> resolve_result \<times> queue_db" where
  "moveToResolved approvalId now build db =
     (case moveToResolvedBatch [approvalId] now build db of
        ([], db') \<Rightarrow> (NotFoundOrAlreadyResolved, db')
      | (r # _, db') \<Rightarrow> (r, db'))"

section \<open>The operations of the queue\<close>

record enqueue_request =
  er_server :: jstr
  er_tool :: jstr
  er_tool_class :: tool_class
  er_args :: "json option"
  er_session :: jstr
  er_timeout :: int
  er_agent :: "jstr option"
  er_wait_timeout :: "int option"
  er_rule :: "jstr option"
  er_policy_hash :: "jstr option"
  er_grants_hash :: "jstr option"
  er_resend_of :: "int option"

definition pendingRecordOf :: "enqueue_request \<Rightarrow> jstr \<Rightarrow> jstr \<Rightarrow> json \<Rightarrow> int \<Rightarrow> pending_file" where
  "pendingRecordOf req approvalId argsHash argsRedacted nowMs =
     \<lparr>pf_id = approvalId, pf_server = er_server req, pf_tool = er_tool req, pf_class = er_tool_class req,
      pf_args_redacted = argsRedacted, pf_args_hash = argsHash, pf_session = er_session req,
      pf_requested_at = nowMs, pf_expires_at = nowMs + er_timeout req, pf_agent = er_agent req,
      pf_wait_expires_at = map_option (\<lambda>w. nowMs + w) (er_wait_timeout req), pf_rule = er_rule req,
      pf_policy_hash = er_policy_hash req, pf_grants_hash = er_grants_hash req, pf_resend_of = er_resend_of req\<rparr>"

text \<open>
  \<open>enqueue\<close>: the id comes from \<open>ulid()\<close>, the arguments' hash and redacted copy from \<open>hash\<close> (which
  throws on nesting past its cap) and \<open>redacted\<close>.
\<close>

definition enqueue ::
  "(json \<Rightarrow> jstr option) \<Rightarrow> (json \<Rightarrow> json) \<Rightarrow> holder_identity \<Rightarrow> enqueue_request \<Rightarrow> jstr \<Rightarrow> int \<Rightarrow> bool \<Rightarrow>
     queue_db \<Rightarrow> (jstr \<times> jstr) option \<times> queue_db" where
  "enqueue hash redacted holder req approvalId nowMs prune_locked db =
     (let args = (case er_args req of Some a \<Rightarrow> a | None \<Rightarrow> JNull) in
      case hash args of
        None \<Rightarrow> (None, db)
      | Some argsHash \<Rightarrow>
          let record = pendingRecordOf req approvalId argsHash (redacted args) nowMs;
              (seq, db1) = bumpChangeSeq db
          in case insertPendingRow approvalId
                    \<lparr>row_status = StatusPending, row_doc = PendingDoc record, row_requested_at = pf_requested_at record,
                     row_expires_at = pf_expires_at record, row_outcome = None, row_resolved_at = None,
                     row_seq = seq\<rparr> db1 of
               None \<Rightarrow> (None, db)
             | Some db2 \<Rightarrow>
                 (Some (approvalId, argsHash),
                  pruneRetention nowMs prune_locked (insertHold approvalId (pf_requested_at record) holder db2)))"

definition outcome_resolution :: "resolution_outcome \<Rightarrow> jstr option \<Rightarrow> resolution" where
  "outcome_resolution outcome reason = \<lparr>re_outcome = outcome, re_actor = None, re_reason = reason\<rparr>"

definition process_lost :: jstr where
  "process_lost = js ''process-lost''"

definition expiredPendingIds :: "queue_db \<Rightarrow> int \<Rightarrow> jstr list" where
  "expiredPendingIds db nowMs =
     map fst (filter (\<lambda>(i, d). some_with (parse_pending d) (\<lambda>p. isExpiredAt (pf_expires_at p) nowMs))
       (selectExpiredPendingRows db nowMs list_max_rows))"

definition lostHolderIds :: "queue_db \<Rightarrow> int \<Rightarrow> liveness_probe \<Rightarrow> jstr list" where
  "lostHolderIds db nowMs probe =
     map fst (filter (\<lambda>(i, d, h). isHolderLost i (Some h) nowMs probe \<and> parse_pending d \<noteq> None)
       (selectStaleHoldRows db (nowMs - heartbeat_stale_ms) list_max_rows))"

text \<open>
  The two passes of \<open>sweepPending\<close>. A pass that cannot read or write its candidates is skipped, which
  the booleans say; the settling transactions read the clock again.
\<close>

definition sweepPending :: "int \<Rightarrow> int \<Rightarrow> int \<Rightarrow> liveness_probe \<Rightarrow> bool \<Rightarrow> bool \<Rightarrow> queue_db \<Rightarrow> queue_db" where
  "sweepPending nowMs clock1 clock2 probe ok1 ok2 db =
     (let db1 = (if ok1 then snd (moveToResolvedBatch (expiredPendingIds db nowMs) clock1
                   (\<lambda>_ _. outcome_resolution Expired None) db) else db)
      in if ok2 then snd (moveToResolvedBatch (lostHolderIds db1 nowMs probe) clock2
                   (\<lambda>_ _. outcome_resolution Withdrawn (Some process_lost)) db1) else db1)"

record resolve_input =
  ri_approved :: bool
  ri_actor :: "jstr option"
  ri_reason :: "jstr option"

definition requested_outcome :: "resolve_input \<Rightarrow> resolution_outcome" where
  "requested_outcome i = (if ri_approved i then Approved else Denied)"

definition build_decision :: "resolve_input \<Rightarrow> int \<Rightarrow> liveness_probe \<Rightarrow> build_resolution" where
  "build_decision input nowMs probe = (\<lambda>pending hold.
     if isHolderLost (pf_id pending) hold nowMs probe then outcome_resolution Withdrawn (Some process_lost)
     else \<lparr>re_outcome = (if isPastDelivery pending nowMs \<and> requested_outcome input = Approved then Expired
                         else requested_outcome input),
           re_actor = ri_actor input, re_reason = ri_reason input\<rparr>)"

datatype actor_error = ApprovalActorTooLongError nat

text \<open>\<open>resolve\<close>: \<open>clock1\<close> is read for \<open>resolvedAt\<close>, \<open>clock2\<close> when the resolution is built.\<close>

definition resolve ::
  "jstr \<Rightarrow> resolve_input \<Rightarrow> int \<Rightarrow> int \<Rightarrow> liveness_probe \<Rightarrow> queue_db \<Rightarrow> actor_error + resolve_result \<times> queue_db" where
  "resolve approvalId input clock1 clock2 probe db =
     (if \<not> isOptionalActor (ri_actor input)
      then Inl (ApprovalActorTooLongError (length (the (ri_actor input))))
      else case moveToResolved approvalId clock1 (build_decision input clock2 probe) db of
          (ResolveOk rec, db') \<Rightarrow>
            Inr (if re_outcome (fst (snd rec)) = Withdrawn then withdrawnRefusal rec else ResolveOk rec, db')
        | (r, db') \<Rightarrow> Inr (r, db'))"

definition markExpired :: "jstr \<Rightarrow> int \<Rightarrow> queue_db \<Rightarrow> resolve_result \<times> queue_db" where
  "markExpired approvalId now = moveToResolved approvalId now (\<lambda>_ _. outcome_resolution Expired None)"

definition withdraw :: "jstr \<Rightarrow> jstr \<Rightarrow> int \<Rightarrow> queue_db \<Rightarrow> resolve_result \<times> queue_db" where
  "withdraw approvalId reason now = moveToResolved approvalId now (\<lambda>_ _. outcome_resolution Withdrawn (Some reason))"

definition heartbeat :: "jstr list \<Rightarrow> int \<Rightarrow> queue_db \<Rightarrow> queue_db" where
  "heartbeat ids now db =
     (let valid = filter isValidApprovalId ids in if valid = [] then db else refreshHeartbeats valid now db)"

definition readResolution :: "jstr \<Rightarrow> queue_db \<Rightarrow> (resolution \<times> int) option" where
  "readResolution approvalId db =
     (if \<not> isValidApprovalId approvalId then None
      else case Option.bind (selectResolvedDoc db approvalId) parse_resolved of
          None \<Rightarrow> None | Some (p, r, t) \<Rightarrow> Some (r, t))"

definition listResolved :: "int \<Rightarrow> queue_db \<Rightarrow> resolved_record list" where
  "listResolved limit db =
     (if limit \<le> 0 then [] else List.map_filter parse_resolved (selectNewestResolvedDocs db (nat limit)))"

text \<open>\<open>boundedLimit\<close>, on an integer request.\<close>

definition boundedLimit :: "int option \<Rightarrow> nat" where
  "boundedLimit requested =
     (case requested of
        None \<Rightarrow> list_max_rows
      | Some n \<Rightarrow> if n \<le> 0 then list_max_rows else min (nat n) list_max_rows)"

record pending_approval =
  pa_record :: pending_file
  pa_expired :: bool
  pa_connected :: "bool option"
  pa_seen_at :: "int option"

definition isHoldLive :: "jstr \<Rightarrow> hold_record \<Rightarrow> int \<Rightarrow> liveness_probe \<Rightarrow> bool" where
  "isHoldLive approvalId hold nowMs probe \<longleftrightarrow>
     isFreshHeartbeat (hold_beat hold) nowMs \<or> probe (hold_by hold) approvalId = Alive"

definition list_entry :: "int \<Rightarrow> liveness_probe \<Rightarrow> jstr \<times> doc \<times> hold_record option \<Rightarrow> pending_approval option" where
  "list_entry nowMs probe = (\<lambda>(i, d, hold).
     case parse_pending d of
       None \<Rightarrow> None
     | Some p \<Rightarrow>
         Some (case hold of
             None \<Rightarrow> \<lparr>pa_record = p, pa_expired = isExpiredAt (pf_expires_at p) nowMs, pa_connected = None, pa_seen_at = None\<rparr>
           | Some h \<Rightarrow>
               let connected = isHoldLive (pf_id p) h nowMs probe in
               \<lparr>pa_record = p, pa_expired = isExpiredAt (pf_expires_at p) nowMs, pa_connected = Some connected,
                pa_seen_at = (if connected then None else Some (hold_beat h))\<rparr>))"

definition list_pending ::
  "int option \<Rightarrow> int \<Rightarrow> int \<Rightarrow> int \<Rightarrow> liveness_probe \<Rightarrow> bool \<Rightarrow> bool \<Rightarrow> queue_db \<Rightarrow> pending_approval list \<times> queue_db" where
  "list_pending limit nowMs clock1 clock2 probe ok1 ok2 db =
     (let db' = sweepPending nowMs clock1 clock2 probe ok1 ok2 db
      in (List.map_filter (list_entry nowMs probe) (selectPendingDocs db' (boundedLimit limit)), db'))"

definition countPending :: "int \<Rightarrow> int \<Rightarrow> int \<Rightarrow> liveness_probe \<Rightarrow> bool \<Rightarrow> bool \<Rightarrow> queue_db \<Rightarrow> nat \<times> queue_db" where
  "countPending nowMs clock1 clock2 probe ok1 ok2 db =
     (let db' = sweepPending nowMs clock1 clock2 probe ok1 ok2 db in (countPendingRows db', db'))"

section \<open>Reading changes\<close>

record approval_changes =
  ac_latest :: nat
  ac_truncated :: bool
  ac_pending :: "(pending_file \<times> bool) list"
  ac_resolved :: "jstr list"

definition selectChangesSince :: "queue_db \<Rightarrow> nat \<Rightarrow> nat \<Rightarrow> (jstr \<times> approval_row) list" where
  "selectChangesSince db since limit =
     take limit (sort_key (\<lambda>(i, r). row_seq r) (filter (\<lambda>(i, r). since < row_seq r) (q_rows db)))"

text \<open>
  \<open>readChangesSince\<close> reads the watermark first and the rows second; another process can commit in
  between, so the two reads see \<open>db\<close> and \<open>db'\<close>.
\<close>

definition readChangesSince :: "queue_db \<Rightarrow> queue_db \<Rightarrow> nat option \<Rightarrow> nat \<Rightarrow> int \<Rightarrow> approval_changes" where
  "readChangesSince db db' sinceSeq limit nowMs =
     (let latestSeq = q_seq db in
      case sinceSeq of
        None \<Rightarrow> \<lparr>ac_latest = latestSeq, ac_truncated = False, ac_pending = [], ac_resolved = []\<rparr>
      | Some since \<Rightarrow>
          let page = selectChangesSince db' since (Suc limit);
              truncated = limit < length page;
              delivered = (if truncated then take limit page else page)
          in \<lparr>ac_latest = (if truncated then (if delivered = [] then since else row_seq (snd (last delivered)))
                           else latestSeq),
              ac_truncated = truncated,
              ac_pending = List.map_filter (\<lambda>(i, r). if is_pending_row r
                 then map_option (\<lambda>p. (p, isExpiredAt (pf_expires_at p) nowMs)) (parse_pending (row_doc r))
                 else None) delivered,
              ac_resolved = map fst (filter (\<lambda>(i, r). \<not> is_pending_row r) delivered)\<rparr>)"

definition changesSince :: "queue_db \<Rightarrow> queue_db \<Rightarrow> nat option \<Rightarrow> int option \<Rightarrow> int \<Rightarrow> approval_changes" where
  "changesSince db db' sinceSeq limit nowMs = readChangesSince db db' sinceSeq (boundedLimit limit) nowMs"

end
