(* ===== verification/Approval_Safety.thy ===== *)
theory Approval_Safety
  imports Approval_Queue
begin

text \<open>
  What the approvals queue guarantees: the invariant of the stored rows under every operation, the
  life of one request as an abstract machine that the tables refine, and the completeness of the
  change feed.
\<close>

section \<open>The invariant\<close>

definition good_row :: "jstr \<Rightarrow> approval_row \<Rightarrow> bool" where
  "good_row i r \<longleftrightarrow>
     (case row_doc r of
        PendingDoc p \<Rightarrow> row_status r = StatusPending \<and> pf_id p = i \<and> row_expires_at r = pf_expires_at p
      | ResolvedDoc p res t \<Rightarrow> row_status r = StatusResolved \<and> pf_id p = i \<and> row_outcome r = Some (re_outcome res) \<and>
          row_resolved_at r = Some t \<and> (re_outcome res = Approved \<longrightarrow> t < deliveryEndsAt p) \<and> isOptionalActor (re_actor res)
      | Malformed \<Rightarrow> False)"

definition good_queue :: "queue_db \<Rightarrow> bool" where
  "good_queue db \<longleftrightarrow> wf_map (q_rows db) \<and> wf_map (q_holds db) \<and>
     (\<forall>i r. map_of (q_rows db) i = Some r \<longrightarrow> good_row i r \<and> row_seq r \<le> q_seq db) \<and>
     (\<forall>i j r s. map_of (q_rows db) i = Some r \<and> map_of (q_rows db) j = Some s \<and> row_seq r = row_seq s \<longrightarrow> i = j)"

definition empty_queue :: queue_db where
  "empty_queue = \<lparr>q_rows = [], q_seq = 0, q_holds = []\<rparr>"

lemma good_empty: "good_queue empty_queue"
  by (simp add: good_queue_def empty_queue_def)

lemma good_queue_row: "good_queue db \<Longrightarrow> map_of (q_rows db) i = Some r \<Longrightarrow> good_row i r \<and> row_seq r \<le> q_seq db"
  by (simp add: good_queue_def del: map_of_eq_Some_iff)

text \<open>A row rewritten under the next sequence number.\<close>

lemma good_queue_write:
  assumes "good_queue db" and "good_row i r" and "row_seq r = Suc (q_seq db)"
    and "wf_map rows" and "map_of rows = (map_of (q_rows db))(i \<mapsto> r)"
  shows "good_queue (db\<lparr>q_rows := rows, q_seq := Suc (q_seq db)\<rparr>)"
proof -
  have le: "\<And>j s. map_of (q_rows db) j = Some s \<Longrightarrow> row_seq s \<le> q_seq db"
    using assms(1) by (simp add: good_queue_def del: map_of_eq_Some_iff)
  have "\<And>j s. map_of (q_rows db) j = Some s \<Longrightarrow> row_seq s \<le> Suc (q_seq db) \<and> row_seq s \<noteq> Suc (q_seq db)"
    using le by fastforce
  with assms show ?thesis
    unfolding good_queue_def by (simp del: map_of_eq_Some_iff) metis
qed

lemma good_queue_holds: "good_queue db \<Longrightarrow> wf_map hs \<Longrightarrow> good_queue (db\<lparr>q_holds := hs\<rparr>)"
  by (simp add: good_queue_def)

lemma map_of_filter_keys: "map_of (filter (\<lambda>(i, r). i \<notin> S) m) k = (if k \<in> S then None else map_of m k)"
  by (induction m) auto

lemma wf_map_filter [simp]: "wf_map m \<Longrightarrow> wf_map (filter P m)"
  by (induction m) auto

lemma good_queue_delete:
  "good_queue db \<Longrightarrow> good_queue (db\<lparr>q_rows := filter (\<lambda>(i, r). i \<notin> S) (q_rows db)\<rparr>)"
  unfolding good_queue_def by (simp add: map_of_filter_keys del: map_of_eq_Some_iff)

section \<open>Settling one request\<close>

text \<open>What a resolution built at \<open>resolvedAt\<close> must satisfy to be stored.\<close>

definition sound_build :: "int \<Rightarrow> build_resolution \<Rightarrow> bool" where
  "sound_build resolvedAt build \<longleftrightarrow>
     (\<forall>p h. (re_outcome (build p h) = Approved \<longrightarrow> resolvedAt < deliveryEndsAt p) \<and> isOptionalActor (re_actor (build p h)))"

lemma sound_build_outcome: "outcome \<noteq> Approved \<Longrightarrow> sound_build t (\<lambda>_ _. outcome_resolution outcome reason)"
  by (simp add: sound_build_def outcome_resolution_def isOptionalActor_def)

lemma sound_build_decision:
  "isOptionalActor (ri_actor input) \<Longrightarrow> clock1 \<le> clock2 \<Longrightarrow> sound_build clock1 (build_decision input clock2 probe)"
  by (auto simp: sound_build_def build_decision_def outcome_resolution_def isOptionalActor_def
      isPastDelivery_def isExpiredAt_def)

definition settled_row :: "approval_row \<Rightarrow> pending_file \<Rightarrow> resolution \<Rightarrow> int \<Rightarrow> nat \<Rightarrow> approval_row" where
  "settled_row r p res t seq = r\<lparr>row_status := StatusResolved, row_doc := ResolvedDoc p res t,
     row_outcome := Some (re_outcome res), row_resolved_at := Some t, row_seq := seq\<rparr>"

lemma withdrawnRefusal_not_ok [simp]: "withdrawnRefusal rec \<noteq> ResolveOk x" "ResolveOk x \<noteq> withdrawnRefusal rec"
  by (auto simp: withdrawnRefusal_def split: prod.splits)

lemma settleOne_cases:
  obtains (refused) "fst (settleOne i t build db) = refusalFor db i \<or> fst (settleOne i t build db) = NotFoundOrAlreadyResolved"
      "snd (settleOne i t build db) = db"
      "\<forall>r. map_of (q_rows db) i = Some r \<longrightarrow> row_status r = StatusPending \<longrightarrow> parse_pending (row_doc r) = None"
    | (settled) r p where "map_of (q_rows db) i = Some r" "row_status r = StatusPending" "parse_pending (row_doc r) = Some p"
      "fst (settleOne i t build db) = ResolveOk (p, build p (selectHold db i), t)"
      "snd (settleOne i t build db) = db\<lparr>q_seq := Suc (q_seq db),
         q_rows := AList.update i (settled_row r p (build p (selectHold db i)) t (Suc (q_seq db))) (q_rows db),
         q_holds := AList.delete i (q_holds db)\<rparr>"
proof (cases "\<exists>r p. map_of (q_rows db) i = Some r \<and> row_status r = StatusPending \<and> parse_pending (row_doc r) = Some p")
  case True
  then obtain r p where r: "map_of (q_rows db) i = Some r" "row_status r = StatusPending"
      "parse_pending (row_doc r) = Some p" by blast
  then have "settleOne i t build db = (ResolveOk (p, build p (selectHold db i), t),
      db\<lparr>q_seq := Suc (q_seq db),
         q_rows := AList.update i (settled_row r p (build p (selectHold db i)) t (Suc (q_seq db))) (q_rows db),
         q_holds := AList.delete i (q_holds db)\<rparr>)"
    by (simp add: settleOne_def selectPendingDoc_def bumpChangeSeq_def resolvePendingRow_def deleteHold_def
        settled_row_def Let_def)
  with r show ?thesis by (intro settled) simp_all
next
  case False
  then have "settleOne i t build db = (refusalFor db i, db) \<or> settleOne i t build db = (NotFoundOrAlreadyResolved, db)"
    by (auto simp: settleOne_def selectPendingDoc_def split: option.split)
  with False show ?thesis by (intro refused) auto
qed

lemma good_row_pending:
  "good_row i r \<Longrightarrow> row_status r = StatusPending \<Longrightarrow> parse_pending (row_doc r) = Some p \<Longrightarrow>
   row_doc r = PendingDoc p \<and> pf_id p = i"
  by (auto simp: good_row_def split: doc.splits)

lemma good_settleOne:
  assumes "good_queue db" and "sound_build t build"
  shows "good_queue (snd (settleOne i t build db))"
proof (cases rule: settleOne_cases[of i t build db, case_names refused settled])
  case refused
  with assms show ?thesis by simp
next
  case (settled r p)
  let ?r' = "settled_row r p (build p (selectHold db i)) t (Suc (q_seq db))"
  have "pf_id p = i" using good_row_pending good_queue_row[OF assms(1) settled(1)] settled(2,3) by blast
  then have "good_row i ?r'" using assms(2) by (simp add: good_row_def settled_row_def sound_build_def)
  moreover have wf: "wf_map (q_rows db)" "wf_map (q_holds db)" using assms(1) by (simp_all add: good_queue_def)
  ultimately have g: "good_queue (db\<lparr>q_rows := AList.update i ?r' (q_rows db), q_seq := Suc (q_seq db)\<rparr>)"
    by (intro good_queue_write[OF assms(1)]) (simp_all add: settled_row_def)
  have "snd (settleOne i t build db) =
      (db\<lparr>q_rows := AList.update i ?r' (q_rows db), q_seq := Suc (q_seq db)\<rparr>)\<lparr>q_holds := AList.delete i (q_holds db)\<rparr>"
    using settled(5) by simp
  then show ?thesis using good_queue_holds[OF g] wf(2) by simp
qed

section \<open>The life of one request\<close>

text \<open>
  The abstract machine: a request is absent, waits, is settled once with a resolution, and may be
  forgotten after that.
\<close>

datatype life = Absent | Waiting pending_file | Settled pending_file resolution int

inductive life_step :: "life \<Rightarrow> life \<Rightarrow> bool" where
  stay: "life_step l l"
| ask: "life_step Absent (Waiting p)"
| settle: "(re_outcome res = Approved \<longrightarrow> t < deliveryEndsAt p) \<Longrightarrow> life_step (Waiting p) (Settled p res t)"
| forget: "life_step (Settled p res t) Absent"

inductive_cases life_step_from_settled: "life_step (Settled p res t) l"
inductive_cases life_step_from_waiting: "life_step (Waiting p) l"

definition life_of :: "queue_db \<Rightarrow> jstr \<Rightarrow> life" where
  "life_of db i =
     (case map_of (q_rows db) i of
        None \<Rightarrow> Absent
      | Some r \<Rightarrow> (case row_doc r of PendingDoc p \<Rightarrow> Waiting p | ResolvedDoc p res t \<Rightarrow> Settled p res t | Malformed \<Rightarrow> Absent))"

definition settles :: "queue_db \<Rightarrow> queue_db \<Rightarrow> bool" where
  "settles db db' \<longleftrightarrow> (\<forall>i. life_of db' i = life_of db i \<or>
     (\<exists>p res t. life_of db i = Waiting p \<and> life_of db' i = Settled p res t \<and> (re_outcome res = Approved \<longrightarrow> t < deliveryEndsAt p)))"

lemma settles_refl [simp]: "settles db db"
  by (simp add: settles_def)

lemma settles_trans: "settles a b \<Longrightarrow> settles b c \<Longrightarrow> settles a c"
  unfolding settles_def by (metis life.distinct(5))

lemma settles_steps: "settles db db' \<Longrightarrow> life_step (life_of db i) (life_of db' i)"
  unfolding settles_def by (metis life_step.intros(1,3))

lemma settles_settleOne:
  assumes "good_queue db" and "sound_build t build"
  shows "settles db (snd (settleOne i t build db))"
proof (cases rule: settleOne_cases[of i t build db, case_names refused settled])
  case (settled r p)
  have "row_doc r = PendingDoc p"
    using good_row_pending good_queue_row[OF assms(1) settled(1)] settled(2,3) by blast
  then have "life_of db i = Waiting p" using settled(1) by (simp add: life_of_def)
  with settled assms(2) show ?thesis
    by (auto simp: settles_def life_of_def settled_row_def sound_build_def)
qed simp

lemma settle_all_good:
  "good_queue db \<Longrightarrow> sound_build t build \<Longrightarrow>
   good_queue (snd (settle_all ids t build db)) \<and> settles db (snd (settle_all ids t build db))"
proof (induction ids arbitrary: db)
  case (Cons i ids)
  let ?db1 = "snd (settleOne i t build db)"
  have "good_queue ?db1" "settles db ?db1" using Cons.prems good_settleOne settles_settleOne by blast+
  with Cons.IH[of ?db1] Cons.prems(2) show ?case
    by (auto simp: Let_def split: prod.splits intro: settles_trans)
qed simp

lemma batch_good:
  "good_queue db \<Longrightarrow> sound_build t build \<Longrightarrow>
   good_queue (snd (moveToResolvedBatch ids t build db)) \<and> settles db (snd (moveToResolvedBatch ids t build db))"
  by (simp add: moveToResolvedBatch_def settle_all_good)

lemma moveToResolved_snd: "snd (moveToResolved i t build db) = snd (moveToResolvedBatch [i] t build db)"
  by (simp add: moveToResolved_def split: prod.split list.split)

lemma move_good:
  "good_queue db \<Longrightarrow> sound_build t build \<Longrightarrow>
   good_queue (snd (moveToResolved i t build db)) \<and> settles db (snd (moveToResolved i t build db))"
  by (simp add: moveToResolved_snd batch_good)

lemma sweep_good:
  "good_queue db \<Longrightarrow>
   good_queue (sweepPending nowMs c1 c2 probe ok1 ok2 db) \<and> settles db (sweepPending nowMs c1 c2 probe ok1 ok2 db)"
proof -
  assume g: "good_queue db"
  let ?db1 = "if ok1 then snd (moveToResolvedBatch (expiredPendingIds db nowMs) c1
      (\<lambda>_ _. outcome_resolution Expired None) db) else db"
  have 1: "good_queue ?db1 \<and> settles db ?db1"
    using batch_good[OF g sound_build_outcome[of Expired]] g by simp
  then have "good_queue (sweepPending nowMs c1 c2 probe ok1 ok2 db) \<and> settles ?db1 (sweepPending nowMs c1 c2 probe ok1 ok2 db)"
    unfolding sweepPending_def Let_def
    using batch_good[of ?db1 c2 "\<lambda>_ _. outcome_resolution Withdrawn (Some process_lost)"]
      sound_build_outcome[of Withdrawn] by (cases ok2) auto
  with 1 show ?thesis using settles_trans by blast
qed

lemma resolve_good:
  assumes "good_queue db" and "clock1 \<le> clock2" and "resolve i input clock1 clock2 probe db = Inr (r, db')"
  shows "good_queue db' \<and> settles db db'"
proof -
  have "isOptionalActor (ri_actor input)" using assms(3) by (auto simp: resolve_def split: if_splits)
  moreover from this have "db' = snd (moveToResolved i clock1 (build_decision input clock2 probe) db)"
    using assms(3) by (auto simp: resolve_def split: prod.splits resolve_result.splits if_splits)
  ultimately show ?thesis using move_good[OF assms(1) sound_build_decision[OF _ assms(2)]] by simp
qed

section \<open>Enqueuing and retention\<close>

lemma prune_rows: "\<exists>S. q_rows (pruneRetention now locked db) = filter (\<lambda>(i, r). i \<notin> S) (q_rows db) \<and>
    (\<forall>i \<in> S. \<exists>r. (i, r) \<in> set (q_rows db) \<and> row_status r = StatusResolved)"
proof (cases locked)
  case True
  have "filter (\<lambda>(i, r). i \<notin> {}) (q_rows db) = q_rows db" by (simp add: filter_True)
  then show ?thesis using True by (intro exI[of _ "{}"]) (simp add: pruneRetention_def)
next
  case False
  let ?old = "take retention_batch (sort_key (\<lambda>(i, r). the (row_resolved_at r))
      (filter (\<lambda>(i, r). \<not> is_pending_row r \<and> some_with (row_resolved_at r) (\<lambda>t. t < now - retention_ms)) (q_rows db)))"
  have "set ?old \<subseteq> {(i, r). (i, r) \<in> set (q_rows db) \<and> \<not> is_pending_row r}"
    by (auto dest!: in_set_takeD)
  then have "\<forall>i \<in> set (map fst ?old). \<exists>r. (i, r) \<in> set (q_rows db) \<and> row_status r = StatusResolved"
    by (force simp: is_pending_row_def intro: status.exhaust)
  with False show ?thesis
    by (intro exI[of _ "set (map fst ?old)"])
      (simp add: pruneRetention_def deleteOrphanHolds_def deleteResolvedOlderThan_def Let_def del: set_map)
qed

lemma prune_other: "q_seq (pruneRetention now locked db) = q_seq db"
    "wf_map (q_holds db) \<Longrightarrow> wf_map (q_holds (pruneRetention now locked db))"
  by (simp_all add: pruneRetention_def deleteOrphanHolds_def deleteResolvedOlderThan_def Let_def)

lemma prune_good: "good_queue db \<Longrightarrow> good_queue (pruneRetention now locked db)"
proof -
  assume g: "good_queue db"
  obtain S where "q_rows (pruneRetention now locked db) = filter (\<lambda>(i, r). i \<notin> S) (q_rows db)"
    using prune_rows by blast
  then have "pruneRetention now locked db =
      (db\<lparr>q_rows := filter (\<lambda>(i, r). i \<notin> S) (q_rows db)\<rparr>)\<lparr>q_holds := q_holds (pruneRetention now locked db)\<rparr>"
    using prune_other(1)[of now locked db] by simp
  then show ?thesis
    using good_queue_holds[OF good_queue_delete[OF g, of S] prune_other(2)[of db now locked]] g
    by (simp add: good_queue_def)
qed

lemma prune_life: "good_queue db \<Longrightarrow>
    life_of (pruneRetention now locked db) i = life_of db i \<or>
    (\<exists>p res t. life_of db i = Settled p res t) \<and> life_of (pruneRetention now locked db) i = Absent"
proof -
  assume g: "good_queue db"
  obtain S where S: "q_rows (pruneRetention now locked db) = filter (\<lambda>(i, r). i \<notin> S) (q_rows db)"
      "\<forall>i \<in> S. \<exists>r. (i, r) \<in> set (q_rows db) \<and> row_status r = StatusResolved"
    using prune_rows by blast
  show ?thesis
  proof (cases "i \<in> S")
    case True
    then obtain r where r: "map_of (q_rows db) i = Some r" "row_status r = StatusResolved"
      using S(2) g by (auto simp: good_queue_def)
    then obtain p res t where "row_doc r = ResolvedDoc p res t"
      using good_queue_row[OF g r(1)] by (auto simp: good_row_def split: doc.splits)
    with r True S(1) show ?thesis by (simp add: life_of_def map_of_filter_keys)
  next
    case False
    with S(1) show ?thesis by (simp add: life_of_def map_of_filter_keys)
  qed
qed

lemma enqueue_cases:
  obtains (failed) "fst (enqueue hash redacted holder req i now locked db) = None"
      "snd (enqueue hash redacted holder req i now locked db) = db"
    | (added) p h where "map_of (q_rows db) i = None" "pf_id p = i"
      "fst (enqueue hash redacted holder req i now locked db) = Some (i, h)"
      "snd (enqueue hash redacted holder req i now locked db) = pruneRetention now locked
        (insertHold i (pf_requested_at p) holder (db\<lparr>q_rows := q_rows db @
          [(i, \<lparr>row_status = StatusPending, row_doc = PendingDoc p, row_requested_at = pf_requested_at p,
            row_expires_at = pf_expires_at p, row_outcome = None, row_resolved_at = None, row_seq = Suc (q_seq db)\<rparr>)],
          q_seq := Suc (q_seq db)\<rparr>))"
proof -
  let ?args = "case er_args req of Some a \<Rightarrow> a | None \<Rightarrow> JNull"
  consider "hash ?args = None" | "map_of (q_rows db) i \<noteq> None"
    | h where "hash ?args = Some h" "map_of (q_rows db) i = None" by (cases "hash ?args") auto
  then show ?thesis
  proof cases
    case 3
    let ?p = "pendingRecordOf req i h (redacted ?args) now"
    have "snd (enqueue hash redacted holder req i now locked db) = pruneRetention now locked
        (insertHold i (pf_requested_at ?p) holder (db\<lparr>q_rows := q_rows db @
          [(i, \<lparr>row_status = StatusPending, row_doc = PendingDoc ?p, row_requested_at = pf_requested_at ?p,
            row_expires_at = pf_expires_at ?p, row_outcome = None, row_resolved_at = None, row_seq = Suc (q_seq db)\<rparr>)],
          q_seq := Suc (q_seq db)\<rparr>))"
      using 3 by (cases db) (simp add: enqueue_def insertPendingRow_def bumpChangeSeq_def pendingRecordOf_def Let_def)
    moreover have "fst (enqueue hash redacted holder req i now locked db) = Some (i, h)"
      using 3 by (simp add: enqueue_def insertPendingRow_def bumpChangeSeq_def Let_def)
    ultimately show ?thesis using 3 by (intro added[of ?p h]) (simp_all add: pendingRecordOf_def)
  qed (auto intro!: failed simp: enqueue_def insertPendingRow_def bumpChangeSeq_def Let_def split: option.split)
qed

lemma map_of_snoc: "map_of m i = None \<Longrightarrow> map_of (m @ [(i, r)]) = (map_of m)(i \<mapsto> r)"
  by (auto simp: map_add_def fun_eq_iff split: option.split)

lemma wf_map_snoc: "wf_map m \<Longrightarrow> map_of m i = None \<Longrightarrow> wf_map (m @ [(i, r)])"
  by (auto simp: map_of_eq_None_iff)

lemma enqueue_good:
  assumes "good_queue db"
  shows "good_queue (snd (enqueue hash redacted holder req i now locked db)) \<and>
    life_step (life_of db j) (life_of (snd (enqueue hash redacted holder req i now locked db)) j)"
proof (cases rule: enqueue_cases[of hash redacted holder req i now locked db, case_names failed added])
  case failed
  with assms show ?thesis by (simp add: life_step.stay)
next
  case (added p h)
  let ?r = "\<lparr>row_status = StatusPending, row_doc = PendingDoc p, row_requested_at = pf_requested_at p,
      row_expires_at = pf_expires_at p, row_outcome = None, row_resolved_at = None, row_seq = Suc (q_seq db)\<rparr>"
  let ?rows = "q_rows db @ [(i, ?r)]"
  let ?db1 = "insertHold i (pf_requested_at p) holder (db\<lparr>q_rows := ?rows, q_seq := Suc (q_seq db)\<rparr>)"
  have wf_rows: "wf_map (q_rows db)" using assms by (simp add: good_queue_def)
  have "good_queue (db\<lparr>q_rows := ?rows, q_seq := Suc (q_seq db)\<rparr>)"
  proof (rule good_queue_write[OF assms])
    show "good_row i ?r" using added(2) by (simp add: good_row_def)
    show "wf_map ?rows" using wf_rows added(1) by (rule wf_map_snoc)
    show "map_of ?rows = (map_of (q_rows db))(i \<mapsto> ?r)" using added(1) by (rule map_of_snoc)
  qed simp
  then have g1: "good_queue ?db1"
    using good_queue_holds by (simp add: insertHold_def good_queue_def)
  have l1: "life_of ?db1 j = (if j = i then Waiting p else life_of db j)"
    using added(1) by (simp add: life_of_def insertHold_def map_of_snoc del: map_of_append)
  have "life_of db i = Absent" using added(1) by (simp add: life_of_def)
  then have "life_step (life_of db j) (life_of (pruneRetention now locked ?db1) j)"
    using prune_life[OF g1, of now locked j] l1
    by (auto split: if_splits intro: life_step.intros)
  with prune_good[OF g1] added(4) show ?thesis by simp
qed

lemma heartbeat_life: "life_of (heartbeat ids now db) i = life_of db i"
  by (simp add: heartbeat_def refreshHeartbeats_def life_of_def Let_def)

lemma heartbeat_good: "good_queue db \<Longrightarrow> good_queue (heartbeat ids now db)"
proof -
  assume g: "good_queue db"
  have "map fst (q_holds (heartbeat ids now db)) = map fst (q_holds db)"
    by (simp add: heartbeat_def refreshHeartbeats_def Let_def o_def split_def)
  moreover have "heartbeat ids now db = db\<lparr>q_holds := q_holds (heartbeat ids now db)\<rparr>"
    by (simp add: heartbeat_def refreshHeartbeats_def Let_def)
  ultimately show ?thesis using g good_queue_holds[OF g, of "q_holds (heartbeat ids now db)"]
    by (simp add: good_queue_def)
qed

section \<open>The queue as a state machine\<close>

inductive queue_step :: "queue_db \<Rightarrow> queue_db \<Rightarrow> bool" where
  enqueue: "queue_step db (snd (enqueue hash redacted holder req i now locked db))"
| resolve: "clock1 \<le> clock2 \<Longrightarrow> resolve i input clock1 clock2 probe db = Inr (r, db') \<Longrightarrow> queue_step db db'"
| markExpired: "queue_step db (snd (markExpired i now db))"
| withdraw: "queue_step db (snd (withdraw i reason now db))"
| heartbeat: "queue_step db (heartbeat ids now db)"
| sweep: "queue_step db (sweepPending nowMs clock1 clock2 probe ok1 ok2 db)"

definition reachable_queue :: "queue_db \<Rightarrow> bool" where
  "reachable_queue db \<longleftrightarrow> queue_step\<^sup>*\<^sup>* empty_queue db"

lemma queue_step_good:
  assumes "queue_step db db'" and "good_queue db"
  shows "good_queue db' \<and> life_step (life_of db i) (life_of db' i)"
  using assms
proof (cases rule: queue_step.cases)
  case (enqueue hash redacted holder req i now locked)
  then show ?thesis using enqueue_good[OF assms(2)] by simp
next
  case (resolve clock1 clock2 i input probe r)
  then show ?thesis using resolve_good[OF assms(2)] settles_steps by blast
next
  case (markExpired i now)
  then show ?thesis using move_good[OF assms(2) sound_build_outcome[of Expired]] settles_steps
    by (simp add: markExpired_def)
next
  case (withdraw i reason now)
  then show ?thesis using move_good[OF assms(2) sound_build_outcome[of Withdrawn]] settles_steps
    by (simp add: withdraw_def)
next
  case (heartbeat ids now)
  then show ?thesis using heartbeat_good[OF assms(2)] heartbeat_life by (simp add: life_step.stay)
next
  case (sweep nowMs clock1 clock2 probe ok1 ok2)
  then show ?thesis using sweep_good[OF assms(2)] settles_steps by simp
qed

lemma reachable_queue_good: "reachable_queue db \<Longrightarrow> good_queue db"
  unfolding reachable_queue_def
  by (induction rule: rtranclp_induct) (auto simp: good_empty queue_step_good)

section \<open>The change feed\<close>

lemma take_sorted_below:
  assumes "sorted (map f xs)" and "x \<in> set xs" and "x \<notin> set (take n xs)" and "y \<in> set (take n xs)"
  shows "f y \<le> f (x :: 'a)"
proof -
  from assms(2,3) have "x \<in> set (drop n xs)" by (metis Un_iff append_take_drop_id set_append)
  moreover have "sorted (map f (take n xs @ drop n xs))" using assms(1) by simp
  ultimately show ?thesis using assms(4) by (auto simp: sorted_append simp del: append_take_drop_id)
qed

lemma changes_page:
  assumes "(i, r) \<in> set (q_rows db)" and "since < row_seq r"
  shows "(i, r) \<in> set (selectChangesSince db since limit) \<or>
    (\<forall>(j, s) \<in> set (selectChangesSince db since limit). row_seq s \<le> row_seq r)"
proof -
  let ?f = "\<lambda>(i, r). row_seq r"
  let ?all = "sort_key ?f (filter (\<lambda>(i, r). since < row_seq r) (q_rows db))"
  have "(i, r) \<in> set ?all" using assms by simp
  moreover have "sorted (map ?f ?all)" by (rule sorted_sort_key)
  ultimately show ?thesis
    using take_sorted_below[of ?f ?all "(i, r)" limit] by (auto simp: selectChangesSince_def)
qed

lemma set_map_filter_iff: "y \<in> set (List.map_filter f xs) \<longleftrightarrow> (\<exists>x \<in> set xs. f x = Some y)"
  by (induction xs) (auto simp: List.map_filter_def)

definition delivered_to :: "approval_changes \<Rightarrow> jstr \<Rightarrow> approval_row \<Rightarrow> bool" where
  "delivered_to ch i r \<longleftrightarrow>
     (if is_pending_row r then (\<forall>p. row_doc r = PendingDoc p \<longrightarrow> p \<in> set (map fst (ac_pending ch)))
      else i \<in> set (ac_resolved ch))"

lemma readChangesSince_delivers:
  assumes "(i, r) \<in> set (selectChangesSince db' since (Suc limit))"
    and "limit < length (selectChangesSince db' since (Suc limit)) \<longrightarrow>
      (i, r) \<in> set (take limit (selectChangesSince db' since (Suc limit)))"
  shows "delivered_to (readChangesSince db db' (Some since) limit now) i r"
proof -
  let ?page = "selectChangesSince db' since (Suc limit)"
  let ?D = "if limit < length ?page then take limit ?page else ?page"
  have D: "(i, r) \<in> set ?D" using assms by simp
  have "ac_resolved (readChangesSince db db' (Some since) limit now) = map fst (filter (\<lambda>(i, r). \<not> is_pending_row r) ?D)"
    and pending: "ac_pending (readChangesSince db db' (Some since) limit now) = List.map_filter (\<lambda>(i, r). if is_pending_row r
        then map_option (\<lambda>p. (p, isExpiredAt (pf_expires_at p) now)) (parse_pending (row_doc r)) else None) ?D"
    by (simp_all add: readChangesSince_def Let_def)
  then have "\<not> is_pending_row r \<Longrightarrow> i \<in> set (ac_resolved (readChangesSince db db' (Some since) limit now))"
    using D by force
  moreover have "p \<in> set (map fst (ac_pending (readChangesSince db db' (Some since) limit now)))"
    if "is_pending_row r" "row_doc r = PendingDoc p" for p
  proof -
    have "(p, isExpiredAt (pf_expires_at p) now) \<in> set (ac_pending (readChangesSince db db' (Some since) limit now))"
      unfolding pending set_map_filter_iff using D that by (intro bexI[of _ "(i, r)"]) simp_all
    then show ?thesis by force
  qed
  ultimately show ?thesis by (simp add: delivered_to_def)
qed

section \<open>Properties\<close>

text \<open>
  C9. The queue refines the life of a request: in every state the operations can reach, each step
  (an enqueue with its retention, a decision, a withdrawal, an expiry, a heartbeat, a sweep) leaves
  every request as it was, starts to wait for an absent one, settles a waiting one once, or forgets
  a settled one. A settled request is never settled again, and one is stored as approved only with
  a moment before its delivery ends.
\<close>

theorem queue_refines_life:
  assumes "reachable_queue db" and "queue_step db db'"
  shows "life_step (life_of db i) (life_of db' i) \<and> good_queue db'"
  using queue_step_good[OF assms(2) reachable_queue_good[OF assms(1)]] by simp


text \<open>
  C20. The change feed never skips a change: whatever the page size, and also when another process
  commits between the reading of the watermark and the reading of the rows, every row changed after
  the caller's watermark is either delivered on this page or lies above the watermark the page
  returns, so the next call will find it.
\<close>

theorem changes_never_skipped:
  assumes "good_queue db'" and "map_of (q_rows db') i = Some r" and "since < row_seq r" and "0 < limit"
  shows "delivered_to (readChangesSince db db' (Some since) limit now) i r \<or>
    ac_latest (readChangesSince db db' (Some since) limit now) < row_seq r"
proof -
  let ?page = "selectChangesSince db' since (Suc limit)"
  let ?f = "\<lambda>(i, r). row_seq r"
  have in_rows: "(i, r) \<in> set (q_rows db')" using assms(2) by (rule map_of_SomeD)
  show ?thesis
  proof (cases "limit < length ?page")
    case False
    let ?all = "sort_key ?f (filter (\<lambda>(i, r). since < row_seq r) (q_rows db'))"
    have "take (Suc limit) ?all = ?all" using False by (simp add: selectChangesSince_def)
    then have "(i, r) \<in> set ?page" using in_rows assms(3) by (simp add: selectChangesSince_def)
    then show ?thesis using False by (intro disjI1 readChangesSince_delivers) auto
  next
    case True
    have tk: "take limit ?page = selectChangesSince db' since limit"
      by (simp add: selectChangesSince_def min_def)
    show ?thesis
    proof (cases "(i, r) \<in> set (take limit ?page)")
      case in_page: True
      then have "(i, r) \<in> set ?page" by (rule in_set_takeD)
      with in_page show ?thesis by (intro disjI1 readChangesSince_delivers) auto
    next
      case out: False
      have ne: "take limit ?page \<noteq> []" using True assms(4) by auto
      obtain j s where js: "last (take limit ?page) = (j, s)" by fastforce
      then have mem: "(j, s) \<in> set (take limit ?page)" using ne by (metis last_in_set)
      then have le: "row_seq s \<le> row_seq r"
        using changes_page[OF in_rows assms(3), of limit] out unfolding tk by fastforce
      have "(j, s) \<in> set (q_rows db')" using mem unfolding tk by (auto simp: selectChangesSince_def dest!: in_set_takeD)
      then have "map_of (q_rows db') j = Some s" using assms(1) by (simp add: good_queue_def)
      moreover have "row_seq s \<noteq> row_seq r"
      proof
        assume "row_seq s = row_seq r"
        then have "j = i" using assms(1,2) \<open>map_of (q_rows db') j = Some s\<close> unfolding good_queue_def by metis
        with assms(2) \<open>map_of (q_rows db') j = Some s\<close> mem out show False by simp
      qed
      ultimately have "row_seq s < row_seq r" using le by simp
      then show ?thesis using True ne js by (simp add: readChangesSince_def Let_def)
    qed
  qed
qed

text \<open>One request, asked at 1000 for a minute, and its approval.\<close>

definition sample_holder :: holder_identity where
  "sample_holder = \<lparr>h_pid = 7, h_host = js ''host'', h_nonce = js ''n''\<rparr>"

definition sample_request :: enqueue_request where
  "sample_request = \<lparr>er_server = js ''gh'', er_tool = js ''push'', er_tool_class = WriteClass, er_args = None,
     er_session = js ''s'', er_timeout = 60000, er_agent = None, er_wait_timeout = Some 30000, er_rule = None,
     er_policy_hash = None, er_grants_hash = None, er_resend_of = None\<rparr>"

definition sample_pending :: pending_file where
  "sample_pending = pendingRecordOf sample_request (js ''A1'') (js ''h'') JNull 1000"

definition waiting_queue :: queue_db where
  "waiting_queue = snd (enqueue (\<lambda>_. Some (js ''h'')) (\<lambda>v. v) sample_holder sample_request (js ''A1'') 1000 True empty_queue)"

definition sample_approval :: resolve_input where
  "sample_approval = \<lparr>ri_approved = True, ri_actor = Some (js ''cli''), ri_reason = None\<rparr>"

definition settled_queue :: queue_db where
  "settled_queue = snd (withdraw (js ''A1'') (js ''cancelled'') 2000 waiting_queue)"

lemma waiting_reachable: "reachable_queue waiting_queue"
  unfolding reachable_queue_def waiting_queue_def by (rule r_into_rtranclp) (rule queue_step.enqueue)

theorem queue_refines_life_witness:
  "life_step (life_of waiting_queue (js ''A1'')) (life_of settled_queue (js ''A1'')) \<and> good_queue settled_queue"
  unfolding settled_queue_def
  by (rule queue_refines_life[OF waiting_reachable]) (rule queue_step.withdraw)

lemma sample_resolve: "resolve (js ''A1'') sample_approval 2000 2000 (\<lambda>_ _. Alive) waiting_queue =
    Inr (ResolveOk (sample_pending, \<lparr>re_outcome = Approved, re_actor = Some (js ''cli''), re_reason = None\<rparr>, 2000),
      \<lparr>q_rows = [(js ''A1'', \<lparr>row_status = StatusResolved,
         row_doc = ResolvedDoc sample_pending \<lparr>re_outcome = Approved, re_actor = Some (js ''cli''), re_reason = None\<rparr> 2000,
         row_requested_at = 1000, row_expires_at = 61000, row_outcome = Some Approved, row_resolved_at = Some 2000,
         row_seq = 2\<rparr>)], q_seq = 2, q_holds = []\<rparr>)"
  by code_simp


theorem changes_never_skipped_witness:
  "delivered_to (readChangesSince empty_queue waiting_queue (Some 0) 1 5000) (js ''A1'')
     (the (map_of (q_rows waiting_queue) (js ''A1''))) \<or>
   ac_latest (readChangesSince empty_queue waiting_queue (Some 0) 1 5000) <
     row_seq (the (map_of (q_rows waiting_queue) (js ''A1'')))"
proof (rule changes_never_skipped)
  show "good_queue waiting_queue" by (rule reachable_queue_good[OF waiting_reachable])
  have "q_rows waiting_queue \<noteq> [] \<and> fst (hd (q_rows waiting_queue)) = js ''A1''" by code_simp
  then show "map_of (q_rows waiting_queue) (js ''A1'') = Some (the (map_of (q_rows waiting_queue) (js ''A1'')))"
    by (cases "q_rows waiting_queue") (auto simp: fst_conv)
  show "0 < row_seq (the (map_of (q_rows waiting_queue) (js ''A1'')))" by code_simp
qed simp

end
