(* ===== verification/Machine.thy ===== *)
theory Machine
  imports Prelude
begin

text \<open>
  Components that consume a sequence of events: a step maps a state and an event to the next state and
  what the component emits. The interfaces below state what a step keeps; their lemmas lift it to whole
  runs, and each component interprets them on its own step.
\<close>

fun run :: "('s \<Rightarrow> 'e \<Rightarrow> 's \<times> 'o list) \<Rightarrow> 's \<Rightarrow> 'e list \<Rightarrow> 's \<times> 'o list" where
  "run step s [] = (s, [])"
| "run step s (e # es) =
     (let (s1, outs) = step s e; (s2, more) = run step s1 es in (s2, outs @ more))"

lemma run_Cons_fst: "fst (run step s (e # es)) = fst (run step (fst (step s e)) es)"
  and run_Cons_snd: "snd (run step s (e # es)) = snd (step s e) @ snd (run step (fst (step s e)) es)"
  by (simp_all add: split_beta)

lemma run_append: "run step s (es @ fs) =
    (let (s1, outs) = run step s es; (s2, more) = run step s1 fs in (s2, outs @ more))"
  by (induction es arbitrary: s) (simp_all add: split_beta)

section \<open>Interfaces\<close>

text \<open>Every step keeps the invariant.\<close>

locale machine =
  fixes step :: "'s \<Rightarrow> 'e \<Rightarrow> 's \<times> 'o list"
    and ok :: "'s \<Rightarrow> bool"
  assumes step_ok: "ok s \<Longrightarrow> ok (fst (step s e))"
begin

lemma run_ok: "ok s \<Longrightarrow> ok (fst (run step s es))"
  by (induction es arbitrary: s) (simp_all add: split_beta step_ok)

text \<open>What every emission of a step from a good state satisfies, every emission of a run does.\<close>

lemma run_outputs:
  assumes "\<And>s e out. ok s \<Longrightarrow> out \<in> set (snd (step s e)) \<Longrightarrow> P out" and "ok s"
    and "out \<in> set (snd (run step s es))"
  shows "P out"
  using assms(2,3)
proof (induction es arbitrary: s)
  case (Cons e es)
  then show ?case using assms(1)[of s out e] step_ok[of s e] by (auto simp: split_beta)
qed simp

end

text \<open>
  A machine that loses nothing: what a step emits and then holds is what it held and took in.
\<close>

locale lossless_machine = machine step ok
  for step :: "'s \<Rightarrow> 'e \<Rightarrow> 's \<times> 'o list" and ok +
  fixes taken :: "'e \<Rightarrow> 'b list"
    and emitted :: "'o \<Rightarrow> 'b list"
    and held :: "'s \<Rightarrow> 'b list"
  assumes step_lossless:
    "ok s \<Longrightarrow> concat (map emitted (snd (step s e))) @ held (fst (step s e)) = held s @ taken e"
begin

lemma run_lossless:
  "ok s \<Longrightarrow> concat (map emitted (snd (run step s es))) @ held (fst (run step s es)) =
     held s @ concat (map taken es)"
proof (induction es arbitrary: s)
  case (Cons e es)
  have "concat (map emitted (snd (run step s (e # es)))) @ held (fst (run step s (e # es))) =
      concat (map emitted (snd (step s e))) @ held (fst (step s e)) @ concat (map taken es)"
    using Cons.IH[OF step_ok[OF Cons.prems]] by (simp add: split_beta)
  then show ?case using step_lossless[OF Cons.prems, of e] by (metis append.assoc concat.simps(2) list.simps(9))
qed simp

end

text \<open>
  A machine that implements an abstract one: \<open>spec\<close> reads the emissions, refuses those it does not allow,
  and \<open>abs\<close> gives the abstract state of a concrete one.
\<close>

fun spec_run :: "('a \<Rightarrow> 'o \<Rightarrow> 'a option) \<Rightarrow> 'a \<Rightarrow> 'o list \<Rightarrow> 'a option" where
  "spec_run spec a [] = Some a"
| "spec_run spec a (out # outs) = (case spec a out of None \<Rightarrow> None | Some b \<Rightarrow> spec_run spec b outs)"

lemma spec_run_append:
  "spec_run spec a (xs @ ys) = (case spec_run spec a xs of None \<Rightarrow> None | Some b \<Rightarrow> spec_run spec b ys)"
  by (induction xs arbitrary: a) (auto split: option.split)

locale refined_machine = machine step ok
  for step :: "'s \<Rightarrow> 'e \<Rightarrow> 's \<times> 'o list" and ok +
  fixes spec :: "'a \<Rightarrow> 'o \<Rightarrow> 'a option"
    and abs :: "'s \<Rightarrow> 'a"
  assumes step_refines: "ok s \<Longrightarrow> spec_run spec (abs s) (snd (step s e)) = Some (abs (fst (step s e)))"
begin

lemma run_refines: "ok s \<Longrightarrow> spec_run spec (abs s) (snd (run step s es)) = Some (abs (fst (run step s es)))"
proof (induction es arbitrary: s)
  case (Cons e es)
  with step_refines[of s e] step_ok[of s e] show ?case by (simp add: split_beta spec_run_append)
qed simp

end

end
