(* ===== verification/Framing.thy ===== *)
theory Framing
  imports Machine
begin

text \<open>
  \<open>protocol/split.ts\<close> and \<open>protocol/frame.ts\<close>: cutting a byte stream, delivered in arbitrary
  chunks, into newline-terminated frames.

  The splitter's two variables are the record \<open>splitter\<close>; \<open>push\<close> and \<open>flush\<close> are state functions.
  The index loop of \<open>push\<close> recurses on the part of the chunk from \<open>searchStart\<close> on. Decoding UTF-8
  belongs to the runtime and is an argument of the line framer.
\<close>

definition newline_byte :: u8 where "newline_byte = 0x0a"
definition carriage_return_byte :: u8 where "carriage_return_byte = 0x0d"

definition max_line_buffer_bytes :: nat where "max_line_buffer_bytes = 16 * 1024 * 1024"

datatype terminator = LF | CRLF | NoTerminator

datatype frame_reason = Line | Eof | Overflow

record frame =
  fr_bytes :: bytes
  fr_terminator :: terminator
  fr_blank :: bool
  fr_reason :: frame_reason

record splitter =
  pendingChunks :: "bytes list"
  pendingBytes :: nat

definition empty_splitter :: splitter where
  "empty_splitter = \<lparr>pendingChunks = [], pendingBytes = 0\<rparr>"

definition toTerminatedFrame :: "bytes \<Rightarrow> frame" where
  "toTerminatedFrame rawLine =
     (let hasTrailingCr = rawLine \<noteq> [] \<and> last rawLine = carriage_return_byte;
          bytes = (if hasTrailingCr then butlast rawLine else rawLine)
      in \<lparr>fr_bytes = bytes, fr_terminator = (if hasTrailingCr then CRLF else LF), fr_blank = (bytes = []),
          fr_reason = Line\<rparr>)"

definition toUnterminatedFrame :: "bytes \<Rightarrow> frame_reason \<Rightarrow> frame" where
  "toUnterminatedFrame flushed reason =
     \<lparr>fr_bytes = flushed, fr_terminator = NoTerminator, fr_blank = (flushed = []), fr_reason = reason\<rparr>"

text \<open>\<open>Buffer.concat(list, totalLength)\<close> cuts, or fills with zeros, to the given length.\<close>

definition buffer_concat :: "bytes list \<Rightarrow> nat \<Rightarrow> bytes" where
  "buffer_concat parts len = take len (concat parts @ replicate len 0)"

definition completeLine :: "splitter \<Rightarrow> bytes \<Rightarrow> bytes \<times> splitter" where
  "completeLine st piece =
     (if pendingBytes st = 0 then (piece, st)
      else (buffer_concat (pendingChunks st @ [piece]) (pendingBytes st + length piece), empty_splitter))"

definition appendToPending :: "bytes \<Rightarrow> splitter \<Rightarrow> splitter" where
  "appendToPending remainder st =
     (if remainder = [] then st
      else \<lparr>pendingChunks = pendingChunks st @ [remainder], pendingBytes = pendingBytes st + length remainder\<rparr>)"

definition flushPending :: "splitter \<Rightarrow> bytes \<times> splitter" where
  "flushPending st = (buffer_concat (pendingChunks st) (pendingBytes st), empty_splitter)"

text \<open>The loop over the newlines of a chunk; the result is the remainder, the state and the frames.\<close>

function push_lines :: "bytes \<Rightarrow> splitter \<Rightarrow> bytes \<times> splitter \<times> frame list" where
  "push_lines chunk st =
     (case dropWhile (\<lambda>b. b \<noteq> newline_byte) chunk of
        [] \<Rightarrow> (chunk, st, [])
      | _ # rest \<Rightarrow>
          let (line, st1) = completeLine st (takeWhile (\<lambda>b. b \<noteq> newline_byte) chunk);
              (remainder, st2, frames) = push_lines rest st1
          in (remainder, st2, toTerminatedFrame line # frames))"
  by pat_completeness auto
termination
proof (relation "measure (length \<circ> fst)", goal_cases)
  case (2 chunk st nl rest l1 line st1)
  have "length rest < length (dropWhile (\<lambda>b. b \<noteq> newline_byte) chunk)" using 2 by simp
  also have "\<dots> \<le> length chunk" by (rule length_dropWhile_le)
  finally show ?case by simp
qed simp

declare push_lines.simps [simp del]

definition splitter_push :: "nat \<Rightarrow> splitter \<Rightarrow> bytes \<Rightarrow> splitter \<times> frame list" where
  "splitter_push maxBufferBytes st chunk =
     (let (remainder, st1, frames) = push_lines chunk st;
          st2 = appendToPending remainder st1
      in if pendingBytes st2 > maxBufferBytes
         then (let (flushed, st3) = flushPending st2 in (st3, frames @ [toUnterminatedFrame flushed Overflow]))
         else (st2, frames))"

definition splitter_flush :: "splitter \<Rightarrow> splitter \<times> frame list" where
  "splitter_flush st =
     (if pendingBytes st = 0 then (st, [])
      else (let (flushed, st1) = flushPending st in (st1, [toUnterminatedFrame flushed Eof])))"

definition line_framer_push :: "(bytes \<Rightarrow> jstr) \<Rightarrow> nat \<Rightarrow> splitter \<Rightarrow> bytes \<Rightarrow> splitter \<times> jstr list" where
  "line_framer_push utf8 maxBufferBytes st chunk =
     (let (st1, frames) = splitter_push maxBufferBytes st chunk
      in (st1, map (\<lambda>f. utf8 (fr_bytes f)) (filter (\<lambda>f. \<not> fr_blank f) frames)))"

text \<open>A whole stream: every chunk, then the end.\<close>

definition split_stream :: "nat \<Rightarrow> bytes list \<Rightarrow> frame list" where
  "split_stream maxBufferBytes chunks =
     (let (st, frames) = run (splitter_push maxBufferBytes) empty_splitter chunks
      in frames @ snd (splitter_flush st))"

section \<open>The invariant, and what a frame stands for\<close>

definition held :: "splitter \<Rightarrow> bytes" where
  "held st = concat (pendingChunks st)"

definition splitter_ok :: "nat \<Rightarrow> splitter \<Rightarrow> bool" where
  "splitter_ok maxBufferBytes st \<longleftrightarrow>
     pendingBytes st = length (held st) \<and> newline_byte \<notin> set (held st) \<and> pendingBytes st \<le> maxBufferBytes"

text \<open>The bytes a frame came from.\<close>

fun terminator_bytes :: "terminator \<Rightarrow> bytes" where
  "terminator_bytes LF = [newline_byte]"
| "terminator_bytes CRLF = [carriage_return_byte, newline_byte]"
| "terminator_bytes NoTerminator = []"

definition wire :: "frame \<Rightarrow> bytes" where
  "wire f = fr_bytes f @ terminator_bytes (fr_terminator f)"

lemma wire_terminated [simp]: "wire (toTerminatedFrame l) = l @ [newline_byte]"
  by (cases l rule: rev_cases) (auto simp: wire_def toTerminatedFrame_def Let_def)

lemma wire_unterminated [simp]: "wire (toUnterminatedFrame l r) = l"
  by (simp add: wire_def toUnterminatedFrame_def)

lemma buffer_concat_exact [simp]: "len = length (concat parts) \<Longrightarrow> buffer_concat parts len = concat parts"
  by (simp add: buffer_concat_def)

definition counted :: "splitter \<Rightarrow> bool" where
  "counted st \<longleftrightarrow> pendingBytes st = length (held st) \<and> newline_byte \<notin> set (held st)"

lemma counted_empty [simp]: "counted empty_splitter" and held_empty [simp]: "held empty_splitter = []"
  and pendingBytes_empty [simp]: "pendingBytes empty_splitter = 0"
  by (simp_all add: counted_def held_def empty_splitter_def)

definition cleared :: "splitter \<Rightarrow> splitter" where
  "cleared st = (if pendingBytes st = 0 then st else empty_splitter)"

lemma completeLine_counted: "counted st \<Longrightarrow> completeLine st piece = (held st @ piece, cleared st)"
  by (auto simp: completeLine_def counted_def held_def cleared_def)

lemma counted_cleared [simp]: "counted st \<Longrightarrow> counted (cleared st)"
  and held_cleared [simp]: "counted st \<Longrightarrow> held (cleared st) = []"
  by (auto simp: counted_def cleared_def)

lemma split_takeWhile: "dropWhile (\<lambda>b. b \<noteq> c) xs = y # rest \<Longrightarrow>
    y = c \<and> xs = takeWhile (\<lambda>b. b \<noteq> c) xs @ c # rest"
  by (metis (mono_tags, lifting) hd_dropWhile list.distinct(1) list.sel(1) takeWhile_dropWhile_id)

text \<open>The loop cuts at every newline, starting from what was pending.\<close>

lemma push_lines_spec:
  "counted st \<Longrightarrow> newline_byte \<notin> set (held st) \<Longrightarrow>
   (case push_lines chunk st of (remainder, st1, frames) \<Rightarrow>
      counted st1 \<and> newline_byte \<notin> set remainder \<and>
      frames = map toTerminatedFrame (butlast (split_on newline_byte (held st @ chunk))) \<and>
      held st1 @ remainder = last (split_on newline_byte (held st @ chunk)))"
proof (induction chunk st rule: push_lines.induct)
  case (1 chunk st)
  show ?case
  proof (cases "dropWhile (\<lambda>b. b \<noteq> newline_byte) chunk")
    case Nil
    then have "newline_byte \<notin> set chunk" by (auto simp: dropWhile_eq_Nil_conv)
    with Nil 1 show ?thesis
      by (simp add: push_lines.simps[of chunk] split_on_single del: dropWhile_eq_Nil_conv)
  next
    case (Cons y rest)
    let ?piece = "takeWhile (\<lambda>b. b \<noteq> newline_byte) chunk"
    obtain remainder st2 frames where p: "push_lines rest (cleared st) = (remainder, st2, frames)"
      by (cases "push_lines rest (cleared st)")
    note st1 = completeLine_counted[OF 1(2), of ?piece]
    have chunk: "chunk = ?piece @ newline_byte # rest" using split_takeWhile[OF Cons] by simp
    have "newline_byte \<notin> set (held st @ ?piece)"
      using 1(3) by (auto dest: set_takeWhileD)
    then have "split_on newline_byte (held st @ chunk) =
        (held st @ ?piece) # split_on newline_byte rest"
      using chunk split_on_append by (metis append.assoc)
    moreover have "counted st2 \<and> newline_byte \<notin> set remainder \<and>
        frames = map toTerminatedFrame (butlast (split_on newline_byte rest)) \<and>
        held st2 @ remainder = last (split_on newline_byte rest)"
      using 1(1)[OF Cons st1[symmetric] refl] 1(2) p by simp
    ultimately show ?thesis
      using Cons st1 p by (simp add: push_lines.simps[of chunk])
  qed
qed

lemma held_append [simp]: "held (appendToPending r st) = held st @ r"
  and counted_append: "counted st \<Longrightarrow> newline_byte \<notin> set r \<Longrightarrow> counted (appendToPending r st)"
  by (auto simp: appendToPending_def held_def counted_def)

lemma flushPending_counted [simp]: "counted st \<Longrightarrow> flushPending st = (held st, empty_splitter)"
  by (simp add: flushPending_def counted_def held_def)

text \<open>One call of \<open>push\<close> against the pieces of pending and chunk together.\<close>

lemma push_spec:
  assumes "counted st"
  shows "splitter_push m st chunk =
    (let pieces = split_on newline_byte (held st @ chunk); frames = map toTerminatedFrame (butlast pieces) in
     (fst (splitter_push m st chunk),
      if length (last pieces) > m then frames @ [toUnterminatedFrame (last pieces) Overflow] else frames))"
    and "counted (fst (splitter_push m st chunk))"
    and "held (fst (splitter_push m st chunk)) =
      (if length (last (split_on newline_byte (held st @ chunk))) > m then []
       else last (split_on newline_byte (held st @ chunk)))"
proof -
  obtain remainder st1 frames where p: "push_lines chunk st = (remainder, st1, frames)"
    by (cases "push_lines chunk st")
  have "newline_byte \<notin> set (held st)" using assms by (simp add: counted_def)
  with push_lines_spec[OF assms, of chunk] p
  have s: "counted st1" "newline_byte \<notin> set remainder"
    "frames = map toTerminatedFrame (butlast (split_on newline_byte (held st @ chunk)))"
    "held st1 @ remainder = last (split_on newline_byte (held st @ chunk))" by simp_all
  have c: "counted (appendToPending remainder st1)" using s by (simp add: counted_append)
  then have n: "pendingBytes (appendToPending remainder st1) = length (held st1 @ remainder)"
    by (simp add: counted_def)
  show "splitter_push m st chunk =
    (let pieces = split_on newline_byte (held st @ chunk); frames = map toTerminatedFrame (butlast pieces) in
     (fst (splitter_push m st chunk),
      if length (last pieces) > m then frames @ [toUnterminatedFrame (last pieces) Overflow] else frames))"
    and "counted (fst (splitter_push m st chunk))"
    and "held (fst (splitter_push m st chunk)) =
      (if length (last (split_on newline_byte (held st @ chunk))) > m then []
       else last (split_on newline_byte (held st @ chunk)))"
    using p s c n by (auto simp: splitter_push_def Let_def)
qed

lemma splitter_ok_iff: "splitter_ok m st \<longleftrightarrow> counted st \<and> length (held st) \<le> m"
  by (auto simp: splitter_ok_def counted_def)

lemma splitter_ok_empty [simp]: "splitter_ok m empty_splitter"
  by (simp add: splitter_ok_iff)

lemma join_terminated:
  "ps \<noteq> [] \<Longrightarrow> concat (map (wire \<circ> toTerminatedFrame) (butlast ps)) @ last ps = join_with [newline_byte] ps"
  by (induction "[newline_byte]" ps rule: join_with.induct) auto

lemma push_lossless:
  assumes "counted st"
  shows "concat (map wire (snd (splitter_push m st chunk))) @ held (fst (splitter_push m st chunk)) =
    held st @ chunk"
proof -
  let ?ps = "split_on newline_byte (held st @ chunk)"
  have "concat (map (wire \<circ> toTerminatedFrame) (butlast ?ps)) @ last ?ps = held st @ chunk"
    using join_terminated[of ?ps] by simp
  then show ?thesis
    using arg_cong[OF push_spec(1)[OF assms, of m chunk], of snd] push_spec(3)[OF assms, of m chunk]
    by (simp add: Let_def)
qed

interpretation splitter: lossless_machine "splitter_push m" "splitter_ok m" "\<lambda>chunk. chunk" wire held
proof
  fix s chunk
  assume "splitter_ok m s"
  then have "counted s" by (simp add: splitter_ok_iff)
  with push_spec(2,3)[OF this, of m chunk] show "splitter_ok m (fst (splitter_push m s chunk))"
    by (auto simp: splitter_ok_iff)
  show "concat (map wire (snd (splitter_push m s chunk))) @ held (fst (splitter_push m s chunk)) = held s @ chunk"
    using \<open>counted s\<close> by (rule push_lossless)
qed

lemma flush_spec: "counted st \<Longrightarrow> splitter_flush st =
    (if held st = [] then (st, []) else (empty_splitter, [toUnterminatedFrame (held st) Eof]))"
  by (auto simp: splitter_flush_def) (auto simp: counted_def)

text \<open>C34. Splitting loses no byte: whatever the chunks, and whether or not a line overflows the buffer,
  the frames of a stream with their terminators put back are the stream, and what the splitter holds
  between two chunks never exceeds the bound.\<close>

theorem split_stream_lossless:
  "concat (map wire (split_stream m chunks)) = concat chunks \<and>
   pendingBytes (fst (run (splitter_push m) empty_splitter chunks)) \<le> m"
proof -
  let ?st = "fst (run (splitter_push m) empty_splitter chunks)"
  have ok: "splitter_ok m ?st" by (rule splitter.run_ok) simp
  have "concat (map wire (snd (splitter_flush ?st))) = held ?st"
    using ok flush_spec[of ?st] by (simp add: splitter_ok_iff)
  then have "concat (map wire (split_stream m chunks)) = concat chunks"
    using splitter.run_lossless[of m empty_splitter chunks] by (simp add: split_stream_def split_beta)
  with ok show ?thesis by (simp add: splitter_ok_def)
qed

section \<open>Independence of the chunks\<close>

text \<open>The frames of a stream, from the stream alone.\<close>

definition frames_of :: "bytes \<Rightarrow> frame list" where
  "frames_of stream =
     (let pieces = split_on newline_byte stream
      in map toTerminatedFrame (butlast pieces) @
         (if last pieces = [] then [] else [toUnterminatedFrame (last pieces) Eof]))"

definition short_lines :: "nat \<Rightarrow> bytes \<Rightarrow> bool" where
  "short_lines m stream \<longleftrightarrow> (\<forall>p \<in> set (split_on newline_byte stream). length p \<le> m)"

lemma split_on_append_last:
  "split_on c (xs @ ys) = butlast (split_on c xs) @ split_on c (last (split_on c xs) @ ys)"
proof (induction xs)
  case (Cons x xs)
  obtain s ss where s: "split_on c xs = s # ss" by (cases "split_on c xs") auto
  show ?case
  proof (cases ss)
    case Nil
    with s Cons show ?thesis by (auto split: list.splits)
  qed (use s Cons in \<open>auto split: list.splits\<close>)
qed simp

lemma hd_split_on_append: "c \<notin> set l \<Longrightarrow> length l \<le> length (hd (split_on c (l @ ys)))"
  by (induction l) (auto split: list.splits)

lemma last_length_bound:
  "length (last (split_on c xs)) \<le> length (hd (split_on c (last (split_on c xs) @ ys)))"
  by (intro hd_split_on_append split_on_no_sep[of _ c xs] last_in_set) simp

lemma run_short:
  "counted st \<Longrightarrow> short_lines m (held st @ concat chunks) \<Longrightarrow>
   snd (run (splitter_push m) st chunks) =
      map toTerminatedFrame (butlast (split_on newline_byte (held st @ concat chunks))) \<and>
   held (fst (run (splitter_push m) st chunks)) = last (split_on newline_byte (held st @ concat chunks))"
proof (induction chunks arbitrary: st)
  case Nil
  then have "split_on newline_byte (held st) = [held st]"
    by (intro split_on_single) (simp add: counted_def)
  then show ?case by simp
next
  case (Cons chunk chunks)
  let ?now = "split_on newline_byte (held st @ chunk)"
  let ?all = "split_on newline_byte (held st @ concat (chunk # chunks))"
  let ?st = "fst (splitter_push m st chunk)"
  have all: "?all = butlast ?now @ split_on newline_byte (last ?now @ concat chunks)"
    using split_on_append_last[of newline_byte "held st @ chunk" "concat chunks"] by simp
  have "hd (split_on newline_byte (last ?now @ concat chunks)) \<in> set ?all"
    unfolding all by (simp add: hd_in_set)
  then have "length (last ?now) \<le> m"
    using Cons.prems(2) last_length_bound[of newline_byte "held st @ chunk" "concat chunks"]
    unfolding short_lines_def by force
  then have h: "held ?st = last ?now" and f: "snd (splitter_push m st chunk) = map toTerminatedFrame (butlast ?now)"
    using push_spec(3)[OF Cons.prems(1), of m chunk] arg_cong[OF push_spec(1)[OF Cons.prems(1), of m chunk], of snd]
    by (simp_all add: Let_def)
  have sh: "short_lines m (held ?st @ concat chunks)"
    using Cons.prems(2) unfolding short_lines_def all h by simp
  have "split_on newline_byte (last ?now @ concat chunks) \<noteq> []" by simp
  with Cons.IH[OF push_spec(2)[OF Cons.prems(1), of m chunk] sh] f h show ?case
    unfolding all run_Cons_snd run_Cons_fst by (simp add: butlast_append)
qed

text \<open>When no line is longer than the buffer bound, the frames depend on the bytes of the stream
  alone: however the stream is cut into chunks, they are its lines in order, a last line without a
  newline included.\<close>

lemma split_stream_chunk_independent:
  assumes "short_lines m (concat chunks)"
  shows "split_stream m chunks = frames_of (concat chunks)"
proof -
  let ?st = "fst (run (splitter_push m) empty_splitter chunks)"
  have "counted ?st" using splitter.run_ok[of m empty_splitter chunks] by (simp add: splitter_ok_iff)
  then show ?thesis
    using run_short[of empty_splitter m chunks] assms flush_spec[of ?st]
    by (simp add: split_stream_def split_beta frames_of_def Let_def)
qed

lemma split_stream_chunk_independent_witness:
  "split_stream 4 [[0x61], [0x62, 0x0d], [0x0a, 0x63], [], [0x64]] =
     [\<lparr>fr_bytes = [0x61, 0x62], fr_terminator = CRLF, fr_blank = False, fr_reason = Line\<rparr>,
      \<lparr>fr_bytes = [0x63, 0x64], fr_terminator = NoTerminator, fr_blank = False, fr_reason = Eof\<rparr>]"
  using split_stream_chunk_independent[of 4 "[[0x61], [0x62, 0x0d], [0x0a, 0x63], [], [0x64]]"]
  by (simp add: short_lines_def frames_of_def newline_byte_def toTerminatedFrame_def
      toUnterminatedFrame_def carriage_return_byte_def Let_def)

end
