(* ===== verification/Protocol.thy ===== *)
theory Protocol
  imports Canonical_Hash Text
begin

text \<open>
  \<open>protocol/\<close>: JSON-RPC classification (\<open>classify.ts\<close>), the MCP shapes the gate reads and rewrites
  (\<open>mcp.ts\<close>, \<open>call-meta.ts\<close>) and the metadata of a stateless request (\<open>mcp-stateless.ts\<close>).

  \<open>parse\<close> stands for \<open>JSON.parse\<close>, with \<^const>\<open>None\<close> for its SyntaxError, \<open>decode\<close> for
  \<open>Buffer.toString('utf8')\<close> and \<open>num\<close> for the text of a number; \<open>JSON.stringify\<close> itself is
  \<open>json_text\<close>. A numeric id keeps its 64-bit pattern.
\<close>

section \<open>JSON.stringify\<close>

definition stringify_array :: "jstr list \<Rightarrow> jstr" where
  "stringify_array items = js ''['' @ join_with (js '','') items @ js '']''"

definition stringify_object :: "(jstr \<times> jstr) list \<Rightarrow> jstr" where
  "stringify_object entries = js ''{'' @ join_with (js '','') (map (\<lambda>(k, t). quote_json k @ js '':'' @ t) entries) @ js ''}''"

primrec json_text :: "(64 word \<Rightarrow> jstr) \<Rightarrow> json \<Rightarrow> jstr" where
  "json_text num JNull = js ''null''"
| "json_text num (JBool b) = (if b then js ''true'' else js ''false'')"
| "json_text num (JNum n) = num n"
| "json_text num (JStr s) = quote_json s"
| "json_text num (JArr xs) = stringify_array (map (json_text num) xs)"
| "json_text num (JObj ps) = stringify_object (map (map_prod (\<lambda>k. k) (json_text num)) ps)"

section \<open>Classification\<close>

datatype rpc_id = IdStr jstr | IdNum "64 word" | IdNull

datatype classified =
    Request rpc_id jstr jstr
  | Notification jstr jstr
  | Success rpc_id jstr
  | Failure rpc_id "64 word" jstr jstr
  | Invalid jstr jstr

fun raw_of :: "classified \<Rightarrow> jstr" where
  "raw_of (Request i m raw) = raw"
| "raw_of (Notification m raw) = raw"
| "raw_of (Success i raw) = raw"
| "raw_of (Failure i c e raw) = raw"
| "raw_of (Invalid raw r) = raw"

fun id_json :: "rpc_id \<Rightarrow> json" where
  "id_json (IdStr s) = JStr s"
| "id_json (IdNum n) = JNum n"
| "id_json IdNull = JNull"

fun isJsonRpcId :: "json option \<Rightarrow> rpc_id option" where
  "isJsonRpcId (Some (JStr s)) = Some (IdStr s)"
| "isJsonRpcId (Some (JNum n)) = Some (IdNum n)"
| "isJsonRpcId (Some JNull) = Some IdNull"
| "isJsonRpcId _ = None"

text \<open>The double -32603.\<close>

definition internal_error_code :: "64 word" where
  "internal_error_code = 0xC0DFD6C000000000"

fun as_num :: "json option \<Rightarrow> 64 word option" where
  "as_num (Some (JNum n)) = Some n"
| "as_num _ = None"

definition extractError :: "json option \<Rightarrow> 64 word \<times> jstr" where
  "extractError err =
     (case as_obj err of
        None \<Rightarrow> (internal_error_code, js ''unknown error'')
      | Some e \<Rightarrow>
          (case as_num (get_prop e (js ''code'')) of Some c \<Rightarrow> c | None \<Rightarrow> internal_error_code,
           case as_str (get_prop e (js ''message'')) of Some m \<Rightarrow> m | None \<Rightarrow> js ''unknown error''))"

definition classifyMethodMessage :: "obj \<Rightarrow> jstr \<Rightarrow> bool \<Rightarrow> jstr \<Rightarrow> classified" where
  "classifyMethodMessage message meth hasId line =
     (if \<not> hasId then Notification meth line
      else case isJsonRpcId (get_prop message (js ''id'')) of
          None \<Rightarrow> Invalid line (js ''invalid \"id\" type'')
        | Some i \<Rightarrow> Request i meth line)"

definition classifyResponse :: "obj \<Rightarrow> jstr \<Rightarrow> classified" where
  "classifyResponse message line =
     (case isJsonRpcId (get_prop message (js ''id'')) of
        None \<Rightarrow> Invalid line (js ''invalid \"id\" type'')
      | Some i \<Rightarrow>
          let hasError = has_own message (js ''error''); hasResult = has_own message (js ''result'') in
          if hasError \<and> \<not> hasResult
          then (let (code, text) = extractError (get_prop message (js ''error'')) in Failure i code text line)
          else if hasResult \<and> \<not> hasError then Success i line
          else Invalid line (js ''must have exactly one of \"result\" or \"error\"''))"

definition classify :: "(jstr \<Rightarrow> json option) \<Rightarrow> jstr \<Rightarrow> classified" where
  "classify parse line =
     (case parse line of
        None \<Rightarrow> Invalid line (js ''not valid JSON'')
      | Some v \<Rightarrow>
         (case as_obj (Some v) of
            None \<Rightarrow> Invalid line (js ''not a JSON-RPC object (batches are not yet supported)'')
          | Some message \<Rightarrow>
              if get_prop message (js ''jsonrpc'') \<noteq> Some (JStr (js ''2.0''))
              then Invalid line (js ''missing or unsupported \"jsonrpc\" version'')
              else (let hasId = has_own message (js ''id'') in
                case as_str (get_prop message (js ''method'')) of
                  Some meth \<Rightarrow> classifyMethodMessage message meth hasId line
                | None \<Rightarrow> if hasId then classifyResponse message line
                          else Invalid line (js ''has neither \"method\" nor \"result\"/\"error\"''))))"

section \<open>Calls and their metadata\<close>

definition max_tool_use_id_chars :: nat where "max_tool_use_id_chars = 256"

definition tool_use_id_unit :: "u16 \<Rightarrow> bool" where
  "tool_use_id_unit c \<longleftrightarrow> upper c \<or> lower_or_digit c \<or> c \<in> set (js ''._:-'')"

datatype progress_token = TokStr jstr | TokNum "64 word"

record call_meta =
  cm_progress_token :: "progress_token option"
  cm_tool_use_id :: "jstr option"

definition progressTokenOf :: "obj \<Rightarrow> progress_token option" where
  "progressTokenOf meta =
     (case get_prop meta (js ''progressToken'') of
        Some (JStr s) \<Rightarrow> Some (TokStr s)
      | Some (JNum n) \<Rightarrow> if is_finite_num n then Some (TokNum n) else None
      | _ \<Rightarrow> None)"

definition toolUseIdOf :: "obj \<Rightarrow> jstr option" where
  "toolUseIdOf meta =
     (case as_str (get_prop meta (js ''claudecode/toolUseId'')) of
        None \<Rightarrow> None
      | Some i \<Rightarrow> if length i > max_tool_use_id_chars then None
                  else if i \<noteq> [] \<and> list_all tool_use_id_unit i then Some i else None)"

definition callMetaOf :: "json option \<Rightarrow> call_meta" where
  "callMetaOf meta =
     (case as_obj meta of
        None \<Rightarrow> \<lparr>cm_progress_token = None, cm_tool_use_id = None\<rparr>
      | Some m \<Rightarrow> \<lparr>cm_progress_token = progressTokenOf m, cm_tool_use_id = toolUseIdOf m\<rparr>)"

record tool_call =
  tc_name :: jstr
  tc_args :: json
  tc_meta :: call_meta

definition tools_call_method :: jstr where "tools_call_method = js ''tools/call''"
definition tools_list_method :: jstr where "tools_list_method = js ''tools/list''"
definition prompts_get_method :: jstr where "prompts_get_method = js ''prompts/get''"
definition initialize_method :: jstr where "initialize_method = js ''initialize''"

definition parseToolCallParams :: "(jstr \<Rightarrow> json option) \<Rightarrow> jstr \<Rightarrow> tool_call option" where
  "parseToolCallParams parse raw =
     (case try_parse_object parse raw of
        None \<Rightarrow> None
      | Some parsed \<Rightarrow>
         (case as_obj (get_prop parsed (js ''params'')) of
            None \<Rightarrow> None
          | Some params \<Rightarrow>
             (case as_str (get_prop params (js ''name'')) of
                None \<Rightarrow> None
              | Some name \<Rightarrow>
                  if name = [] then None
                  else Some \<lparr>tc_name = name, tc_args = or_null (get_prop params (js ''arguments'')),
                             tc_meta = callMetaOf (get_prop params (js ''_meta''))\<rparr>)))"

definition parseToolCall :: "(jstr \<Rightarrow> json option) \<Rightarrow> classified \<Rightarrow> (rpc_id \<times> tool_call) option" where
  "parseToolCall parse msg =
     (case msg of
        Request i meth raw \<Rightarrow>
          if meth = tools_call_method then map_option (Pair i) (parseToolCallParams parse raw) else None
      | _ \<Rightarrow> None)"

definition isToolsListRequest :: "classified \<Rightarrow> bool" where
  "isToolsListRequest msg = (case msg of Request i meth raw \<Rightarrow> meth = tools_list_method | _ \<Rightarrow> False)"

definition isInitializeRequest :: "classified \<Rightarrow> bool" where
  "isInitializeRequest msg = (case msg of Request i meth raw \<Rightarrow> meth = initialize_method | _ \<Rightarrow> False)"

definition detectInitializeBytes :: "(jstr \<Rightarrow> json option) \<Rightarrow> (bytes \<Rightarrow> jstr) \<Rightarrow> bytes \<Rightarrow> bool" where
  "detectInitializeBytes parse decode body =
     (case try_parse_object parse (decode body) of
        None \<Rightarrow> False
      | Some parsed \<Rightarrow> get_prop parsed (js ''method'') = Some (JStr initialize_method) \<and> has_own parsed (js ''id''))"

section \<open>Tool catalogs\<close>

definition toToolDescriptor :: "json \<Rightarrow> tool_descriptor option" where
  "toToolDescriptor entry =
     (case as_obj (Some entry) of
        None \<Rightarrow> None
      | Some e \<Rightarrow>
         (case as_str (get_prop e (js ''name'')) of
            None \<Rightarrow> None
          | Some name \<Rightarrow>
              Some \<lparr>td_name = name, td_description = as_str (get_prop e (js ''description'')),
                    td_schema = get_prop e (js ''inputSchema''),
                    td_annotations = as_obj (get_prop e (js ''annotations''))\<rparr>))"

definition opt_entry :: "jstr \<Rightarrow> json option \<Rightarrow> obj" where
  "opt_entry k v = (case v of None \<Rightarrow> [] | Some x \<Rightarrow> [(k, x)])"

definition toToolJson :: "tool_descriptor \<Rightarrow> json" where
  "toToolJson t = JObj ([(js ''name'', JStr (td_name t))]
     @ opt_entry (js ''description'') (map_option JStr (td_description t))
     @ opt_entry (js ''inputSchema'') (td_schema t)
     @ opt_entry (js ''annotations'') (map_option JObj (td_annotations t)))"

definition parseToolsListResult ::
  "(jstr \<Rightarrow> json option) \<Rightarrow> classified \<Rightarrow> (tool_descriptor list \<times> jstr option) option" where
  "parseToolsListResult parse msg =
     (case msg of
        Success i raw \<Rightarrow>
         (case try_parse_object parse raw of
            None \<Rightarrow> None
          | Some parsed \<Rightarrow>
             (case as_obj (get_prop parsed (js ''result'')) of
                None \<Rightarrow> None
              | Some result \<Rightarrow>
                 (case as_arr (get_prop result (js ''tools'')) of
                    None \<Rightarrow> None
                  | Some rawTools \<Rightarrow>
                      Some (List.map_filter toToolDescriptor rawTools, as_str (get_prop result (js ''nextCursor''))))))
      | _ \<Rightarrow> None)"

definition serializeToolsListResult ::
  "(jstr \<Rightarrow> json option) \<Rightarrow> (64 word \<Rightarrow> jstr) \<Rightarrow> classified \<Rightarrow> tool_descriptor list \<Rightarrow> jstr option" where
  "serializeToolsListResult parse num original tools =
     (case try_parse_object parse (raw_of original) of
        None \<Rightarrow> None
      | Some parsed \<Rightarrow>
         (case as_obj (get_prop parsed (js ''result'')) of
            None \<Rightarrow> None
          | Some result \<Rightarrow>
              let updated = with_prop parsed (js ''result'')
                    (JObj (with_prop result (js ''tools'') (JArr (map toToolJson tools))));
                  serialized = json_text num (JObj updated)
              in if 10 \<in> set serialized then None else Some serialized))"

section \<open>Metadata of stateless requests\<close>

definition meta_protocol_version_key :: jstr where
  "meta_protocol_version_key = js ''io.modelcontextprotocol/protocolVersion''"

definition stateless_protocol_version :: jstr where
  "stateless_protocol_version = js ''2026-07-28''"

definition withStatelessMeta ::
  "(jstr \<Rightarrow> json option) \<Rightarrow> (64 word \<Rightarrow> jstr) \<Rightarrow> jstr \<Rightarrow> jstr \<Rightarrow> jstr \<Rightarrow> jstr option" where
  "withStatelessMeta parse num raw name version =
     (case try_parse_object parse raw of
        None \<Rightarrow> None
      | Some parsed \<Rightarrow>
          if as_str (get_prop parsed (js ''method'')) = None then None
          else (let params = (case as_obj (get_prop parsed (js ''params'')) of Some p \<Rightarrow> p | None \<Rightarrow> []);
                    meta = (case as_obj (get_prop params (js ''_meta'')) of Some m \<Rightarrow> m | None \<Rightarrow> []);
                    meta' = with_prop (with_prop (with_prop meta meta_protocol_version_key (JStr stateless_protocol_version))
                              (js ''io.modelcontextprotocol/clientCapabilities'') (JObj []))
                              (js ''io.modelcontextprotocol/clientInfo'')
                              (JObj [(js ''name'', JStr name), (js ''version'', JStr version)])
                in Some (json_text num (JObj (with_prop parsed (js ''params'')
                     (JObj (with_prop params (js ''_meta'') (JObj meta'))))))))"

section \<open>Headers that mirror a message\<close>

text \<open>\<open>Buffer.from(value, 'utf8')\<close>: an unpaired surrogate becomes U+FFFD.\<close>

definition utf8_code_point :: "nat \<Rightarrow> bytes" where
  "utf8_code_point n =
     (if n < 0x80 then [word_of_nat n]
      else if n < 0x800 then [word_of_nat (0xc0 + n div 64), word_of_nat (0x80 + n mod 64)]
      else if n < 0x10000 then [word_of_nat (0xe0 + n div 4096), word_of_nat (0x80 + n div 64 mod 64), word_of_nat (0x80 + n mod 64)]
      else [word_of_nat (0xf0 + n div 262144), word_of_nat (0x80 + n div 4096 mod 64),
            word_of_nat (0x80 + n div 64 mod 64), word_of_nat (0x80 + n mod 64)])"

definition utf8_unit :: "u16 \<Rightarrow> bytes" where
  "utf8_unit c = utf8_code_point (if high_surrogate c \<or> low_surrogate c then 0xfffd else unat c)"

fun utf8_encode :: "jstr \<Rightarrow> bytes" where
  "utf8_encode (c # d # rest) =
     (if high_surrogate c \<and> low_surrogate d
      then utf8_code_point (0x10000 + (unat c - 0xd800) * 0x400 + (unat d - 0xdc00)) @ utf8_encode rest
      else utf8_unit c @ utf8_encode (d # rest))"
| "utf8_encode [c] = utf8_unit c"
| "utf8_encode [] = []"

text \<open>\<open>Buffer.toString('base64')\<close>.\<close>

definition base64_alphabet :: jstr where
  "base64_alphabet = js ''ABCDEFGHIJKLMNOPQRSTUVWXYZabcdefghijklmnopqrstuvwxyz0123456789+/''"

definition sextet :: "nat \<Rightarrow> u16" where
  "sextet n = base64_alphabet ! (n mod 64)"

fun base64 :: "bytes \<Rightarrow> jstr" where
  "base64 (a # b # c # rest) =
     (let n = unat a * 65536 + unat b * 256 + unat c
      in [sextet (n div 262144), sextet (n div 4096), sextet (n div 64), sextet n] @ base64 rest)"
| "base64 [a, b] =
     (let n = unat a * 65536 + unat b * 256 in [sextet (n div 262144), sextet (n div 4096), sextet (n div 64)] @ js ''='')"
| "base64 [a] = (let n = unat a * 65536 in [sextet (n div 262144), sextet (n div 4096)] @ js ''=='')"
| "base64 [] = []"

definition printable_ascii :: "u16 \<Rightarrow> bool" where
  "printable_ascii c \<longleftrightarrow> 0x20 \<le> c \<and> c \<le> 0x7e"

definition headerValueOf :: "jstr \<Rightarrow> jstr" where
  "headerValueOf value =
     (if list_all printable_ascii value then value
      else js ''=?base64?'' @ base64 (utf8_encode value) @ js ''?='')"

definition protocolVersionOf :: "json option \<Rightarrow> jstr option" where
  "protocolVersionOf params =
     (case Option.bind (as_obj params) (\<lambda>p. Option.bind (as_obj (get_prop p (js ''_meta'')))
             (\<lambda>m. as_str (get_prop m meta_protocol_version_key))) of
        Some v \<Rightarrow> if v \<noteq> [] then Some v else None
      | None \<Rightarrow> None)"

text \<open>
  \<open>MCP_NAME_PARAM_BY_METHOD[method]\<close> reads a plain object, so a method named like a member of
  \<open>Object.prototype\<close> yields that member; used as a key it is converted to text (\<open>fn_text\<close>).
\<close>

definition name_param_of :: "(jstr \<Rightarrow> jstr) \<Rightarrow> jstr \<Rightarrow> jstr option" where
  "name_param_of fn_text meth =
     (case js_get [(tools_call_method, JStr (js ''name'')), (prompts_get_method, JStr (js ''name'')),
                   (js ''resources/read'', JStr (js ''uri''))] meth of
        Undef \<Rightarrow> None
      | Fn f \<Rightarrow> Some (fn_text f)
      | Val v \<Rightarrow> (case v of JStr s \<Rightarrow> Some s | _ \<Rightarrow> Some (js ''[object Object]'')))"

definition extractPerMessageHeaders ::
  "(jstr \<Rightarrow> json option) \<Rightarrow> (bytes \<Rightarrow> jstr) \<Rightarrow> (jstr \<Rightarrow> jstr) \<Rightarrow> bytes \<Rightarrow> (jstr \<times> jstr) list" where
  "extractPerMessageHeaders parse decode fn_text body =
     (case try_parse_object parse (decode body) of
        None \<Rightarrow> []
      | Some parsed \<Rightarrow>
         (case as_str (get_prop parsed (js ''method'')) of
            None \<Rightarrow> []
          | Some meth \<Rightarrow>
              if meth = [] then []
              else (let params = get_prop parsed (js ''params'') in
                [(js ''Mcp-Method'', headerValueOf meth)]
                @ (case (name_param_of fn_text meth, as_obj params) of
                     (Some nameParam, Some ps) \<Rightarrow>
                       (case as_str (get_prop ps nameParam) of
                          Some name \<Rightarrow> if name \<noteq> [] then [(js ''Mcp-Name'', headerValueOf name)] else []
                        | None \<Rightarrow> [])
                   | _ \<Rightarrow> [])
                @ (case protocolVersionOf params of
                     Some v \<Rightarrow> [(js ''MCP-Protocol-Version'', headerValueOf v)]
                   | None \<Rightarrow> []))))"

end
