(* ===== verification/Protocol_Safety.thy ===== *)
theory Protocol_Safety
  imports Protocol
begin

text \<open>
  What the gate relies on in \<open>protocol/\<close>: mirrored headers cannot break out of a header line, a
  catalog rewritten by \<open>serializeToolsListResult\<close> is one line of JSON that reads back as the catalog
  it was given, and nothing else of the message changes.
\<close>

section \<open>Header values\<close>

lemma base64_alphabet_ok: "length base64_alphabet = 64 \<and> list_all printable_ascii base64_alphabet"
  by code_simp

lemma printable_sextet: "printable_ascii (sextet n)"
proof -
  have "sextet n \<in> set base64_alphabet"
    unfolding sextet_def by (rule nth_mem) (simp add: base64_alphabet_ok)
  then show ?thesis using base64_alphabet_ok by (auto simp: list_all_iff)
qed

lemma printable_padding: "list_all printable_ascii (js ''='')" "list_all printable_ascii (js ''=='')"
  "list_all printable_ascii (js ''=?base64?'')" "list_all printable_ascii (js ''?='')"
  by code_simp+

lemma printable_base64: "list_all printable_ascii (base64 bs)"
  by (induction bs rule: base64.induct) (simp_all add: Let_def printable_sextet printable_padding)

lemma printable_header: "list_all printable_ascii (headerValueOf s)"
  by (simp add: headerValueOf_def printable_base64 printable_padding)

text \<open>No header injection: whatever bytes a message body carries, every header mirrored from it
  has a value of printable ASCII only, so no carriage return, newline or NUL of the body reaches the
  header block.\<close>

lemma mirrored_headers_printable:
  "list_all (\<lambda>(name, value). list_all printable_ascii value) (extractPerMessageHeaders parse decode fn_text body)"
  by (simp add: extractPerMessageHeaders_def Let_def printable_header split: option.split)

text \<open>
  The sentinel is ambiguous: a printable value that already looks like a sentinel is passed through,
  and is what another value is encoded to.
\<close>

lemma sentinel_collision: "headerValueOf (js ''=?base64?w6k=?='') = headerValueOf [0xe9]"
  by code_simp

section \<open>One line of JSON\<close>

lemma newline_short_escapes: "map_of short_escapes c = Some e \<Longrightarrow> e \<noteq> 10"
  by (auto simp: short_escapes_def unit_of_Char split: if_splits)

lemma newline_hex: "10 \<notin> set (hex4 c)"
proof -
  have *: "hex_digit n \<noteq> 10" if "n < 16" for n
  proof -
    have "\<forall>n \<in> set [0..<16]. hex_digit n \<noteq> 10" by code_simp
    then show ?thesis using that by simp
  qed
  have "unat c < 65536" using unsigned_less[of c, where ?'a = nat] by simp
  then show ?thesis by (auto simp: hex4_def Let_def dest!: *[THEN notE, rotated])
qed

lemma newline_escape: "10 \<notin> set (escape_unit c)"
proof (cases "map_of short_escapes c")
  case (Some e)
  then show ?thesis using newline_short_escapes by (auto simp: escape_unit_def)
next
  case None
  then have "c \<noteq> 10" by (auto simp: short_escapes_def split: if_splits)
  with None show ?thesis by (auto simp: escape_unit_def newline_hex unit_of_Char)
qed

lemma high_not_newline: "high_surrogate c \<Longrightarrow> c \<noteq> 10" and low_not_newline: "low_surrogate c \<Longrightarrow> c \<noteq> 10"
  by (auto simp: high_surrogate_def low_surrogate_def)

lemma newline_escapes: "10 \<notin> set (escape_units s)"
  by (induction s rule: escape_units.induct)
    (auto simp: newline_escape dest: high_not_newline low_not_newline)

lemma newline_quote: "10 \<notin> set (quote_json s)"
  by (simp add: quote_json_def newline_escapes)

lemma newline_join: "c \<notin> set sep \<Longrightarrow> \<forall>s \<in> set ss. c \<notin> set s \<Longrightarrow> c \<notin> set (join_with sep ss)"
  by (induction sep ss rule: join_with.induct) auto

lemma newline_literals: "10 \<notin> set (js ''null'')" "10 \<notin> set (js ''true'')" "10 \<notin> set (js ''false'')"
  "10 \<notin> set (js '','')" "10 \<notin> set (js ''['')" "10 \<notin> set (js '']'')" "10 \<notin> set (js ''{'')" "10 \<notin> set (js ''}'')"
  "10 \<notin> set (js '':'')"
  by (simp_all add: js_unfold)

text \<open>\<open>JSON.stringify\<close> never emits a newline, numbers provided.\<close>

lemma newline_json_text:
  assumes "\<And>n. 10 \<notin> set (num n)"
  shows "10 \<notin> set (json_text num v)"
proof (induction v)
  case (JArr xs)
  then have "10 \<notin> set (join_with (js '','') (map (json_text num) xs))"
    by (intro newline_join) (auto simp: newline_literals)
  then show ?case by (simp add: stringify_array_def newline_literals)
next
  case (JObj ps)
  have "\<forall>p \<in> set ps. 10 \<notin> set (json_text num (snd p))" using JObj by (auto simp: snds.simps)
  then have "10 \<notin> set (join_with (js '','')
      (map (\<lambda>(k, t). quote_json k @ js '':'' @ t) (map (map_prod (\<lambda>k. k) (json_text num)) ps)))"
    by (intro newline_join) (auto simp: newline_literals newline_quote)
  then show ?case by (simp add: stringify_object_def newline_literals)
qed (simp_all add: assms newline_literals newline_quote)

section \<open>Rewriting a catalog\<close>

lemma get_prop_entries [simp]:
  "get_prop ((k, v) # ps) k' = (if k = k' then Some v else get_prop ps k')"
  "get_prop [] k' = None"
  by (simp_all add: get_prop_def)

lemma get_prop_opt_entry [simp]:
  "get_prop (opt_entry k v @ ps) k' = (if k = k' \<and> v \<noteq> None then v else get_prop ps k')"
  "get_prop (opt_entry k v) k' = (if k = k' then v else None)"
  by (auto simp: opt_entry_def split: option.split)

lemma as_obj_map [simp]: "as_obj (map_option JObj x) = x" and as_str_map [simp]: "as_str (map_option JStr y) = y"
  by (cases x; simp) (cases y; simp)

lemma tool_json_roundtrip: "toToolDescriptor (toToolJson t) = Some t"
  by (cases t) (auto simp: toToolDescriptor_def toToolJson_def split: option.split)

lemma tools_json_roundtrip: "List.map_filter toToolDescriptor (map toToolJson ts) = ts"
  by (induction ts) (simp_all add: tool_json_roundtrip)

lemma classify_Success:
  "classify parse raw = Success i raw' \<longleftrightarrow>
     raw' = raw \<and> some_with (as_obj (parse raw)) (\<lambda>m.
       get_prop m (js ''jsonrpc'') = Some (JStr (js ''2.0'')) \<and> as_str (get_prop m (js ''method'')) = None \<and>
       isJsonRpcId (get_prop m (js ''id'')) = Some i \<and>
       get_prop m (js ''result'') \<noteq> None \<and> get_prop m (js ''error'') = None)"
proof (cases "as_obj (parse raw)")
  case None
  then show ?thesis
    by (auto simp: classify_def split: option.splits)
next
  case (Some m)
  moreover have "isJsonRpcId (get_prop m (js ''id'')) = Some i \<Longrightarrow> get_prop m (js ''id'') \<noteq> None"
    by (cases "get_prop m (js ''id'')") simp_all
  ultimately show ?thesis
    by (auto simp: classify_def classifyMethodMessage_def classifyResponse_def Let_def get_prop_def
        split: option.split prod.split)
qed

definition rewritten :: "obj \<Rightarrow> obj \<Rightarrow> tool_descriptor list \<Rightarrow> obj" where
  "rewritten m result kept =
     with_prop m (js ''result'') (JObj (with_prop result (js ''tools'') (JArr (map toToolJson kept))))"

lemma get_prop_rewritten:
  "get_prop (rewritten m result kept) k =
     (if k = js ''result'' then Some (JObj (with_prop result (js ''tools'') (JArr (map toToolJson kept)))) else get_prop m k)"
  by (simp add: rewritten_def)

lemma parse_result_Some:
  "parse raw = Some (JObj m) \<Longrightarrow> parseToolsListResult parse (Success i raw) = Some (tools, cursor) \<longleftrightarrow>
     some_with (as_obj (get_prop m (js ''result''))) (\<lambda>r. some_with (as_arr (get_prop r (js ''tools'')))
       (\<lambda>ts. tools = List.map_filter toToolDescriptor ts \<and> cursor = as_str (get_prop r (js ''nextCursor''))))"
  by (auto simp: parseToolsListResult_def try_parse_object_def split: option.split)

text \<open>Rewriting a catalog: when the answer is a \<open>tools/list\<close> result, the rewritten message is
  one line, whose text is the original message with \<open>result.tools\<close> replaced and every other field
  kept; read back, it is a response to the same request, with exactly the given tools and the same
  cursor.\<close>

lemma tools_list_rewrite:
  assumes "\<And>n. 10 \<notin> set (num n)"
    and "classify parse raw = Success i raw" and "parse raw = Some (JObj m)"
    and "get_prop m (js ''result'') = Some (JObj result)"
    and "parseToolsListResult parse (Success i raw) = Some (tools, cursor)"
    and "parse (json_text num (JObj (rewritten m result kept))) = Some (JObj (rewritten m result kept))"
  shows "serializeToolsListResult parse num (Success i raw) kept = Some (json_text num (JObj (rewritten m result kept))) \<and>
     10 \<notin> set (json_text num (JObj (rewritten m result kept))) \<and>
     classify parse (json_text num (JObj (rewritten m result kept))) = Success i (json_text num (JObj (rewritten m result kept))) \<and>
     parseToolsListResult parse (Success i (json_text num (JObj (rewritten m result kept)))) = Some (kept, cursor)"
proof -
  let ?out = "json_text num (JObj (rewritten m result kept))"
  have line: "10 \<notin> set ?out" using assms(1) by (rule newline_json_text)
  have "serializeToolsListResult parse num (Success i raw) kept = Some ?out"
    using assms(3,4) line by (simp add: serializeToolsListResult_def rewritten_def try_parse_object_def)
  moreover have "classify parse ?out = Success i ?out"
    using assms(2,3,6) by (simp add: classify_Success get_prop_rewritten del: json_text.simps)
  moreover have "parseToolsListResult parse (Success i ?out) = Some (kept, cursor)"
    using assms(3,4,5,6)
    by (auto simp: parse_result_Some parse_result_Some[of parse ?out "rewritten m result kept"] get_prop_rewritten
        tools_json_roundtrip simp del: json_text.simps)
  ultimately show ?thesis using line by blast
qed

definition catalog_message :: obj where
  "catalog_message = [(js ''jsonrpc'', JStr (js ''2.0'')), (js ''id'', JNum 7),
     (js ''result'', JObj [(js ''tools'', JArr [JObj [(js ''name'', JStr (js ''read''))], JObj [(js ''name'', JStr (js ''rm''))]]),
                           (js ''nextCursor'', JStr (js ''c''))])]"

definition catalog_result :: obj where
  "catalog_result = [(js ''tools'', JArr [JObj [(js ''name'', JStr (js ''read''))], JObj [(js ''name'', JStr (js ''rm''))]]),
     (js ''nextCursor'', JStr (js ''c''))]"

definition read_tool :: tool_descriptor where
  "read_tool = \<lparr>td_name = js ''read'', td_description = None, td_schema = None, td_annotations = None\<rparr>"

definition read_only_text :: jstr where
  "read_only_text = json_text (\<lambda>_. js ''7'') (JObj (rewritten catalog_message catalog_result [read_tool]))"

definition sample_parse :: "jstr \<Rightarrow> json option" where
  "sample_parse s = (if s = js ''catalog'' then Some (JObj catalog_message)
     else if s = read_only_text then Some (JObj (rewritten catalog_message catalog_result [read_tool])) else None)"

lemma read_only_text_differs: "read_only_text \<noteq> js ''catalog''"
  by (simp add: read_only_text_def stringify_object_def js_Cons)

end
