(* ===== verification/Codec.thy ===== *)
theory Codec
  imports Prelude
begin

text \<open>
  The interface of a pair of partial functions that undo each other: names and ids that cross a process
  boundary in an encoded form and are told apart by it.
\<close>

locale codec =
  fixes enc :: "'a \<Rightarrow> 'b option"
    and dec :: "'b \<Rightarrow> 'a option"
  assumes enc_dec: "enc a = Some b \<longleftrightarrow> dec b = Some a"
begin

lemma dec_enc: "enc a = Some b \<Longrightarrow> dec b = Some a"
  by (simp add: enc_dec)

lemma enc_inj: "enc a = Some b \<Longrightarrow> enc a' = Some b \<Longrightarrow> a = a'"
  by (simp add: enc_dec)

lemma dec_inj: "dec b = Some a \<Longrightarrow> dec b' = Some a \<Longrightarrow> b = b'"
  by (simp flip: enc_dec)

text \<open>Encoding distinct values, those that have a code, gives distinct codes.\<close>

lemma distinct_codes: "distinct xs \<Longrightarrow> distinct (List.map_filter enc xs)"
proof (induction xs)
  case (Cons x xs)
  have "b \<notin> set (List.map_filter enc xs)" if "enc x = Some b" for b
  proof
    assume "b \<in> set (List.map_filter enc xs)"
    then obtain y where "y \<in> set xs" "enc y = Some b" by (auto simp: List.map_filter_def)
    with enc_inj[OF that] Cons.prems show False by auto
  qed
  with Cons show ?case by (auto simp: List.map_filter_def)
qed (simp add: List.map_filter_def)

end

end
