(* ===== verification/Pool_Names.thy ===== *)
theory Pool_Names
  imports Protocol Codec
begin

text \<open>
  The names of a pool (\<open>pool/name-codec.ts\<close>), its routing table (\<open>route-table.ts\<close>), the merge of its
  members' catalogs (\<open>merge-lists.ts\<close>) and the routing of a request that carries a pool name
  (\<open>route-request.ts\<close>). \<open>nfc\<close> is \<open>normalize('NFC')\<close>.
\<close>

section \<open>Names\<close>

definition pool_name_separator :: jstr where "pool_name_separator = js ''__''"
definition pool_name_hide_above_chars :: nat where "pool_name_hide_above_chars = 64"
definition pool_name_warn_above_chars :: nat where "pool_name_warn_above_chars = 47"

definition server_name_unit :: "u16 \<Rightarrow> bool" where
  "server_name_unit c \<longleftrightarrow> lower_or_digit c \<or> c = unit_of (CHR ''-'')"

text \<open>\<open>REGISTRY_SERVER_NAME_PATTERN\<close>: \<open>/^[a-z0-9][a-z0-9-]{0,63}$/\<close>.\<close>

definition registry_server_name :: "jstr \<Rightarrow> bool" where
  "registry_server_name s \<longleftrightarrow>
     s \<noteq> [] \<and> length s \<le> 64 \<and> lower_or_digit (hd s) \<and> list_all server_name_unit (tl s)"

definition encodePoolName :: "jstr \<Rightarrow> jstr \<Rightarrow> jstr option" where
  "encodePoolName server name =
     (if \<not> registry_server_name server \<or> name = [] then None
      else Some (server @ pool_name_separator @ name))"

definition decodePoolName :: "jstr \<Rightarrow> (jstr \<times> jstr) option" where
  "decodePoolName poolName =
     (case index_of pool_name_separator poolName of
        None \<Rightarrow> None
      | Some at \<Rightarrow>
          if at = 0 then None
          else (let server = take at poolName; name = drop (at + length pool_name_separator) poolName in
                if name = [] \<or> \<not> registry_server_name server then None else Some (server, name)))"

datatype name_fit = FitOk | FitWarn | FitHidden

definition poolNameFit :: "jstr \<Rightarrow> name_fit" where
  "poolNameFit poolName =
     (if length poolName > pool_name_hide_above_chars then FitHidden
      else if length poolName > pool_name_warn_above_chars then FitWarn else FitOk)"

section \<open>The routing table\<close>

type_synonym 'c route_table = "(jstr \<times> 'c) list"

definition emptyRouteTable :: "'c route_table" where
  "emptyRouteTable = []"

definition withRoute :: "'c route_table \<Rightarrow> jstr \<Rightarrow> 'c \<Rightarrow> 'c route_table" where
  "withRoute table server child = AList.update server child table"

definition withoutRoute :: "'c route_table \<Rightarrow> jstr \<Rightarrow> 'c route_table" where
  "withoutRoute table server = (if \<not> has_own table server then table else AList.delete server table)"

definition routeOf :: "'c route_table \<Rightarrow> jstr \<Rightarrow> 'c option" where
  "routeOf table server = (if has_own table server then map_of table server else None)"

definition serversOf :: "'c route_table \<Rightarrow> jstr list" where
  "serversOf table = sort (keys table)"

text \<open>\<open>[...new Set(xs)]\<close> keeps the first occurrence of each element.\<close>

definition js_set :: "'a list \<Rightarrow> 'a list" where
  "js_set xs = rev (remdups (rev xs))"

definition diffMembership :: "jstr list \<Rightarrow> jstr list \<Rightarrow> jstr list \<times> jstr list" where
  "diffMembership current granted =
     (sort (filter (\<lambda>s. s \<notin> set current) (js_set granted)),
      sort (filter (\<lambda>s. s \<notin> set granted) (js_set current)))"

section \<open>Merging catalogs\<close>

definition max_pool_entries_per_server :: nat where "max_pool_entries_per_server = 2000"
definition max_pool_entry_bytes :: nat where "max_pool_entry_bytes = 64 * 1024"
definition max_pool_catalog_bytes :: nat where "max_pool_catalog_bytes = 8 * 1024 * 1024"

record list_page =
  lp_entries :: "json list"
  lp_cursor :: "jstr option"

definition readListPage :: "(jstr \<Rightarrow> json option) \<Rightarrow> jstr \<Rightarrow> jstr \<Rightarrow> list_page option" where
  "readListPage parse raw kind =
     (case Option.bind (try_parse_object parse raw) (\<lambda>parsed. as_obj (get_prop parsed (js ''result''))) of
        None \<Rightarrow> None
      | Some result \<Rightarrow>
         (case as_arr (get_prop result kind) of
            None \<Rightarrow> None
          | Some entries \<Rightarrow> Some \<lparr>lp_entries = entries, lp_cursor = as_str (get_prop result (js ''nextCursor''))\<rparr>))"

record list_part =
  pt_server :: jstr
  pt_entries :: "json list"

record read_entry =
  rd_source :: obj
  rd_name :: jstr
  rd_pool_name :: jstr

record read_part =
  rp_entries :: "read_entry list"
  rp_unreadable :: nat
  rp_over_count :: nat

text \<open>The loop of \<open>readPart\<close> over the readable entries, with its \<open>seen\<close> set.\<close>

fun read_entries ::
  "(jstr \<Rightarrow> jstr) \<Rightarrow> jstr \<Rightarrow> jstr set \<Rightarrow> json list \<Rightarrow> (read_entry list \<times> nat) option" where
  "read_entries nfc server seen [] = Some ([], 0)"
| "read_entries nfc server seen (source # sources) =
     (case Option.bind (as_obj (Some source)) (\<lambda>o'. map_option (Pair o') (as_str (get_prop o' (js ''name'')))) of
        None \<Rightarrow> map_option (map_prod (\<lambda>es. es) Suc) (read_entries nfc server seen sources)
      | Some (o', name) \<Rightarrow>
          if name = [] then map_option (map_prod (\<lambda>es. es) Suc) (read_entries nfc server seen sources)
          else if nfc name \<in> seen then None
          else (case encodePoolName server name of
              None \<Rightarrow> None
            | Some poolName \<Rightarrow>
                map_option (map_prod (\<lambda>es. \<lparr>rd_source = o', rd_name = name, rd_pool_name = poolName\<rparr> # es) (\<lambda>n. n))
                  (read_entries nfc server (insert (nfc name) seen) sources)))"

definition readPart :: "(jstr \<Rightarrow> jstr) \<Rightarrow> list_part \<Rightarrow> read_part option" where
  "readPart nfc part =
     (let readable = take max_pool_entries_per_server (pt_entries part) in
      case read_entries nfc (pt_server part) {} readable of
        None \<Rightarrow> None
      | Some (entries, unreadable) \<Rightarrow>
          Some \<lparr>rp_entries = entries, rp_unreadable = unreadable,
                rp_over_count = length (pt_entries part) - length readable\<rparr>)"

text \<open>
  The tallies are plain objects indexed by server name. A server may be called \<open>constructor\<close>, which
  \<open>droppedOversize[server] ?? 0\<close> finds on the prototype: adding to it then joins texts.
\<close>

datatype tally = Count nat | TallyText jstr

definition tally_add :: "(jstr \<Rightarrow> jstr) \<Rightarrow> (jstr \<times> tally) list \<Rightarrow> jstr \<Rightarrow> nat \<Rightarrow> (jstr \<times> tally) list" where
  "tally_add fn_text m server howMany =
     AList.update server
       (case map_of m server of
          Some (Count n) \<Rightarrow> Count (n + howMany)
        | Some (TallyText t) \<Rightarrow> TallyText (t @ decimal howMany)
        | None \<Rightarrow> if server = js ''__proto__'' then TallyText (js ''[object Object]'' @ decimal howMany)
                  else if server \<in> set prototype_functions then TallyText (fn_text server @ decimal howMany)
                  else Count howMany) m"

record merge_state =
  ms_merged :: "obj list"
  ms_hidden :: "(jstr \<times> jstr) list"
  ms_warned :: "(jstr \<times> jstr) list"
  ms_unreadable :: "(jstr \<times> tally) list"
  ms_oversize :: "(jstr \<times> tally) list"
  ms_refused :: "jstr list"
  ms_budget :: nat

definition merge_start :: merge_state where
  "merge_start = \<lparr>ms_merged = [], ms_hidden = [], ms_warned = [], ms_unreadable = [], ms_oversize = [],
     ms_refused = [], ms_budget = max_pool_catalog_bytes\<rparr>"

definition merge_entry ::
  "(64 word \<Rightarrow> jstr) \<Rightarrow> (jstr \<Rightarrow> jstr) \<Rightarrow> jstr \<Rightarrow> read_entry \<Rightarrow> merge_state \<Rightarrow> merge_state" where
  "merge_entry num fn_text server entry st =
     (case poolNameFit (rd_pool_name entry) of
        FitHidden \<Rightarrow> st\<lparr>ms_hidden := ms_hidden st @ [(server, rd_name entry)]\<rparr>
      | fit \<Rightarrow>
          let rewritten = with_prop (rd_source entry) (js ''name'') (JStr (rd_pool_name entry));
              size = length (json_text num (JObj rewritten))
          in if size > max_pool_entry_bytes \<or> size > ms_budget st
             then st\<lparr>ms_oversize := tally_add fn_text (ms_oversize st) server 1\<rparr>
             else st\<lparr>ms_budget := ms_budget st - size,
                     ms_warned := (if fit = FitWarn then ms_warned st @ [(server, rd_name entry)] else ms_warned st),
                     ms_merged := ms_merged st @ [rewritten]\<rparr>)"

definition merge_part ::
  "(jstr \<Rightarrow> jstr) \<Rightarrow> (64 word \<Rightarrow> jstr) \<Rightarrow> (jstr \<Rightarrow> jstr) \<Rightarrow> list_part \<Rightarrow> merge_state \<Rightarrow> merge_state" where
  "merge_part nfc num fn_text part st =
     (case readPart nfc part of
        None \<Rightarrow> st\<lparr>ms_refused := ms_refused st @ [pt_server part]\<rparr>
      | Some read \<Rightarrow>
          let st1 = (if rp_unreadable read > 0
                then st\<lparr>ms_unreadable := AList.update (pt_server part) (Count (rp_unreadable read)) (ms_unreadable st)\<rparr>
                else st);
              st2 = (if rp_over_count read > 0
                then st1\<lparr>ms_oversize := tally_add fn_text (ms_oversize st1) (pt_server part) (rp_over_count read)\<rparr>
                else st1)
          in fold (merge_entry num fn_text (pt_server part)) (rp_entries read) st2)"

definition merge_parts ::
  "(jstr \<Rightarrow> jstr) \<Rightarrow> (64 word \<Rightarrow> jstr) \<Rightarrow> (jstr \<Rightarrow> jstr) \<Rightarrow> list_part list \<Rightarrow> merge_state" where
  "merge_parts nfc num fn_text parts = fold (merge_part nfc num fn_text) (sort_key pt_server parts) merge_start"

text \<open>The answer to a list request and the notes about it; the entries stay in the state returned.\<close>

definition mergePoolList ::
  "(jstr \<Rightarrow> jstr) \<Rightarrow> (64 word \<Rightarrow> jstr) \<Rightarrow> (jstr \<Rightarrow> jstr) \<Rightarrow> rpc_id \<Rightarrow> jstr \<Rightarrow> list_part list \<Rightarrow>
     (jstr \<times> merge_state) option" where
  "mergePoolList nfc num fn_text i kind parts =
     (let st = merge_parts nfc num fn_text parts;
          serialized = json_text num (JObj [(js ''jsonrpc'', JStr (js ''2.0'')), (js ''id'', id_json i),
            (js ''result'', JObj [(kind, JArr (map JObj (ms_merged st)))])])
      in if 10 \<in> set serialized then None else Some (serialized, st))"

section \<open>Routing a request\<close>

definition addressed_methods :: "jstr list" where
  "addressed_methods = [tools_call_method, prompts_get_method]"

datatype route_outcome =
    Routed jstr jstr jstr
  | UnknownTarget jstr
  | NotAddressed

definition routePoolRequest ::
  "(jstr \<Rightarrow> json option) \<Rightarrow> (64 word \<Rightarrow> jstr) \<Rightarrow> jstr \<Rightarrow> (jstr \<Rightarrow> bool) \<Rightarrow> route_outcome option" where
  "routePoolRequest parse num raw isPoolMember =
     (case try_parse_object parse raw of
        None \<Rightarrow> None
      | Some parsed \<Rightarrow>
         (case as_str (get_prop parsed (js ''method'')) of
            None \<Rightarrow> None
          | Some meth \<Rightarrow>
              if meth \<notin> set addressed_methods then Some NotAddressed
              else (case as_obj (get_prop parsed (js ''params'')) of
                  None \<Rightarrow> None
                | Some params \<Rightarrow>
                   (case as_str (get_prop params (js ''name'')) of
                      None \<Rightarrow> None
                    | Some poolName \<Rightarrow>
                        if poolName = [] then None
                        else (case decodePoolName poolName of
                            None \<Rightarrow> Some (UnknownTarget poolName)
                          | Some (server, name) \<Rightarrow>
                              if \<not> isPoolMember server then Some (UnknownTarget poolName)
                              else (let serialized = json_text num (JObj (with_prop parsed (js ''params'')
                                          (JObj (with_prop params (js ''name'') (JStr name)))))
                                    in if 10 \<in> set serialized then None
                                       else Some (Routed server name serialized)))))))"

end
