(* ===== verification/Pool_Names_Safety.thy ===== *)
theory Pool_Names_Safety
  imports Pool_Names
begin

text \<open>
  A pool name names one thing: the codec is a bijection between its domain and range, and the merged
  catalog holds no name twice, each leading back to the member and the name it was advertised under.
\<close>

section \<open>The codec\<close>

definition underscore :: u16 where "underscore = unit_of (CHR ''_'')"

lemma separator_eq: "pool_name_separator = [underscore, underscore]"
  by (simp add: pool_name_separator_def underscore_def js_def)

lemma underscore_not_server: "\<not> server_name_unit underscore"
  by code_simp

lemma registry_units: "registry_server_name s \<Longrightarrow> c \<in> set s \<Longrightarrow> c \<noteq> underscore"
proof (cases s)
  case (Cons x xs)
  assume "registry_server_name s" "c \<in> set s"
  with Cons have "server_name_unit c" by (auto simp: registry_server_name_def list_all_iff server_name_unit_def)
  then show "c \<noteq> underscore" using underscore_not_server by metis
qed simp

lemma index_of_separator:
  assumes "\<forall>c \<in> set s. c \<noteq> underscore"
  shows "index_of pool_name_separator (s @ pool_name_separator @ n) = Some (length s)"
  using assms by (induction s) (auto simp: separator_eq)

lemma codec_laws: "encodePoolName s n = Some p \<longleftrightarrow> decodePoolName p = Some (s, n)"
proof
  assume e: "encodePoolName s n = Some p"
  then have "registry_server_name s" "n \<noteq> []" "p = s @ pool_name_separator @ n"
    by (auto simp: encodePoolName_def split: if_splits)
  moreover from this have "s \<noteq> []" by (simp add: registry_server_name_def)
  ultimately show "decodePoolName p = Some (s, n)"
    using index_of_separator[of s n] registry_units[of s]
    by (auto simp: decodePoolName_def Let_def)
next
  assume "decodePoolName p = Some (s, n)"
  then obtain at where at: "index_of pool_name_separator p = Some at"
    and s: "s = take at p" and n: "n = drop (at + length pool_name_separator) p"
    and ok: "registry_server_name s" "n \<noteq> []"
    by (auto simp: decodePoolName_def Let_def split: option.splits if_splits)
  from index_of_Some[OF at] obtain t where "drop at p = pool_name_separator @ t"
    by (auto elim: prefixE)
  then have "p = take at p @ pool_name_separator @ t" "t = drop (at + length pool_name_separator) p"
    by (metis append_take_drop_id) (metis \<open>drop at p = _\<close> append_eq_conv_conj drop_drop add.commute)
  with s n ok show "encodePoolName s n = Some p" by (simp add: encodePoolName_def)
qed

interpretation pool_name: codec "\<lambda>(s, n). encodePoolName s n" decodePoolName
  by unfold_locales (simp add: codec_laws split_beta)

text \<open>C35. Pool names are unambiguous: a name encodes to a pool name exactly when that pool name decodes
  to it, whatever underscores the member's own name has.\<close>

theorem pool_name_roundtrip:
  "encodePoolName server name = Some poolName \<longleftrightarrow> decodePoolName poolName = Some (server, name)"
  using pool_name.enc_dec[of "(server, name)" poolName] by simp

section \<open>Reading one member's list\<close>

definition named_entry :: "jstr \<Rightarrow> read_entry \<Rightarrow> bool" where
  "named_entry server e \<longleftrightarrow> get_prop (rd_source e) (js ''name'') = Some (JStr (rd_name e))
     \<and> encodePoolName server (rd_name e) = Some (rd_pool_name e)"

lemma read_entries_sound:
  "read_entries nfc server seen sources = Some (es, n) \<Longrightarrow>
    distinct (map (nfc \<circ> rd_name) es) \<and> (\<forall>e \<in> set es. nfc (rd_name e) \<notin> seen) \<and>
    (\<forall>e \<in> set es. named_entry server e \<and> JObj (rd_source e) \<in> set sources)"
proof (induction nfc server seen sources arbitrary: es n rule: read_entries.induct)
  case (2 nfc server seen source sources)
  show ?case
  proof (cases "Option.bind (as_obj (Some source)) (\<lambda>o'. map_option (Pair o') (as_str (get_prop o' (js ''name''))))")
    case None
    with 2(4) obtain m where "read_entries nfc server seen sources = Some (es, m)" by auto
    from 2(1)[OF None this] show ?thesis by simp
  next
    case (Some on)
    obtain o' name where on: "on = (o', name)" by (cases on)
    with Some have src: "source = JObj o'" "get_prop o' (js ''name'') = Some (JStr name)"
      by (auto simp: bind_eq_Some_conv)
    show ?thesis
    proof (cases "name = []")
      case True
      with Some on 2(4) obtain m where "read_entries nfc server seen sources = Some (es, m)" by auto
      from 2(2)[OF Some on[symmetric] True this] show ?thesis by simp
    next
      case False
      with Some on 2(4) obtain poolName es' where p: "nfc name \<notin> seen" "encodePoolName server name = Some poolName"
        "read_entries nfc server (insert (nfc name) seen) sources = Some (es', n)"
        "es = \<lparr>rd_source = o', rd_name = name, rd_pool_name = poolName\<rparr> # es'"
        by (auto split: if_splits option.splits)
      from 2(3)[OF Some on[symmetric] False p(1,2,3)] show ?thesis
        using p src by (auto simp: named_entry_def)
    qed
  qed
qed simp

section \<open>The merged catalog\<close>

text \<open>Where an entry of the merged catalog comes from: the member, its own entry and its name there.\<close>

definition rewrite :: "jstr \<times> obj \<times> jstr \<Rightarrow> obj option" where
  "rewrite = (\<lambda>(server, source, name).
     map_option (\<lambda>p. with_prop source (js ''name'') (JStr p)) (encodePoolName server name))"

definition entry_size :: "(64 word \<Rightarrow> jstr) \<Rightarrow> obj \<Rightarrow> nat" where
  "entry_size num e = length (json_text num (JObj e))"

definition origin_of :: "jstr \<times> obj \<times> jstr \<Rightarrow> jstr \<times> jstr" where
  "origin_of = (\<lambda>(server, source, name). (server, name))"

text \<open>A member advertised the entry, and it is small enough to be shown.\<close>

definition advertised :: "list_part list \<Rightarrow> (64 word \<Rightarrow> jstr) \<Rightarrow> jstr \<times> obj \<times> jstr \<Rightarrow> bool" where
  "advertised parts num = (\<lambda>(server, source, name).
     (\<exists>part \<in> set parts. pt_server part = server \<and> JObj source \<in> set (take max_pool_entries_per_server (pt_entries part)))
     \<and> get_prop source (js ''name'') = Some (JStr name)
     \<and> some_with (encodePoolName server name) (\<lambda>p. length p \<le> pool_name_hide_above_chars)
     \<and> some_with (rewrite (server, source, name)) (\<lambda>e. entry_size num e \<le> max_pool_entry_bytes))"

definition merge_ok :: "(64 word \<Rightarrow> jstr) \<Rightarrow> list_part list \<Rightarrow> merge_state \<Rightarrow> (jstr \<times> obj \<times> jstr) list \<Rightarrow> bool" where
  "merge_ok num parts st tr \<longleftrightarrow>
     map Some (ms_merged st) = map rewrite tr \<and> distinct (map origin_of tr) \<and> (\<forall>t \<in> set tr. advertised parts num t) \<and>
     sum_list (map (entry_size num) (ms_merged st)) + ms_budget st = max_pool_catalog_bytes"

lemma fit_not_hidden: "poolNameFit p \<noteq> FitHidden \<Longrightarrow> length p \<le> pool_name_hide_above_chars"
  by (auto simp: poolNameFit_def split: if_splits)

lemma merge_entry_ok:
  assumes "merge_ok num parts st tr" and "named_entry server e" and "part \<in> set parts" and "pt_server part = server"
    and "JObj (rd_source e) \<in> set (take max_pool_entries_per_server (pt_entries part))"
    and "(server, rd_name e) \<notin> set (map origin_of tr)"
  shows "\<exists>tr'. merge_ok num parts (merge_entry num fn_text server e st) tr' \<and>
     set (map origin_of tr') \<subseteq> insert (server, rd_name e) (set (map origin_of tr))"
proof (cases "poolNameFit (rd_pool_name e) = FitHidden")
  case True
  with assms(1) show ?thesis
    by (intro exI[of _ tr]) (auto simp: merge_entry_def merge_ok_def)
next
  case False
  let ?new = "with_prop (rd_source e) (js ''name'') (JStr (rd_pool_name e))"
  let ?t = "(server, rd_source e, rd_name e)"
  have enc: "encodePoolName server (rd_name e) = Some (rd_pool_name e)" using assms(2) by (simp add: named_entry_def)
  then have r: "rewrite ?t = Some ?new" by (simp add: rewrite_def)
  show ?thesis
  proof (cases "entry_size num ?new > max_pool_entry_bytes \<or> entry_size num ?new > ms_budget st")
    case True
    with False assms(1) show ?thesis
      by (intro exI[of _ tr]) (auto simp: merge_entry_def merge_ok_def entry_size_def Let_def split: name_fit.split)
  next
    case small: False
    have "advertised parts num ?t"
      using assms(2-5) enc r small fit_not_hidden[OF False] by (auto simp: advertised_def named_entry_def)
    moreover have "ms_merged (merge_entry num fn_text server e st) = ms_merged st @ [?new]"
      and "ms_budget (merge_entry num fn_text server e st) = ms_budget st - entry_size num ?new"
      using False small by (auto simp: merge_entry_def entry_size_def Let_def split: name_fit.split)
    ultimately show ?thesis
      using assms(1,6) r small
      by (intro exI[of _ "tr @ [?t]"]) (auto simp: merge_ok_def origin_of_def)
  qed
qed

lemma merge_entries_ok:
  assumes "merge_ok num parts st tr" and "\<forall>e \<in> set es. named_entry server e \<and>
      JObj (rd_source e) \<in> set (take max_pool_entries_per_server (pt_entries part))"
    and "part \<in> set parts" and "pt_server part = server" and "distinct (map rd_name es)"
    and "\<forall>e \<in> set es. (server, rd_name e) \<notin> set (map origin_of tr)"
  shows "\<exists>tr'. merge_ok num parts (fold (merge_entry num fn_text server) es st) tr' \<and>
     set (map origin_of tr') \<subseteq> set (map origin_of tr) \<union> (\<lambda>e. (server, rd_name e)) ` set es"
  using assms
proof (induction es arbitrary: st tr)
  case (Cons e es)
  obtain tr1 where tr1: "merge_ok num parts (merge_entry num fn_text server e st) tr1"
    "set (map origin_of tr1) \<subseteq> insert (server, rd_name e) (set (map origin_of tr))"
    using merge_entry_ok[OF Cons.prems(1) _ Cons.prems(3,4), of e fn_text] Cons.prems by auto
  have fresh: "\<forall>f \<in> set es. (server, rd_name f) \<notin> set (map origin_of tr1)"
  proof
    fix f assume "f \<in> set es"
    then have "rd_name f \<noteq> rd_name e" "(server, rd_name f) \<notin> set (map origin_of tr)"
      using Cons.prems(5) Cons.prems(6)[rule_format, of f] by (auto simp: image_iff)
    with tr1(2) show "(server, rd_name f) \<notin> set (map origin_of tr1)" by blast
  qed
  then obtain tr' where tr': "merge_ok num parts (fold (merge_entry num fn_text server) es (merge_entry num fn_text server e st)) tr'"
    "set (map origin_of tr') \<subseteq> set (map origin_of tr1) \<union> (\<lambda>e. (server, rd_name e)) ` set es"
    using Cons.IH[OF tr1(1) _ Cons.prems(3,4) _ fresh] Cons.prems(2,5) by auto
  have "set (map origin_of tr') \<subseteq> set (map origin_of tr) \<union> (\<lambda>e. (server, rd_name e)) ` set (e # es)"
    using tr'(2) tr1(2) by (simp del: set_map) blast
  with tr'(1) show ?case by (intro exI[of _ tr']) simp
qed auto

lemma merge_ok_same:
  "merge_ok num parts st tr \<Longrightarrow> ms_merged st' = ms_merged st \<Longrightarrow> ms_budget st' = ms_budget st \<Longrightarrow> merge_ok num parts st' tr"
  by (simp add: merge_ok_def)

lemma merge_part_ok:
  assumes "merge_ok num parts st tr" and "part \<in> set parts"
    and "pt_server part \<notin> fst ` set (map origin_of tr)"
  shows "\<exists>tr'. merge_ok num parts (merge_part nfc num fn_text part st) tr' \<and>
     fst ` set (map origin_of tr') \<subseteq> insert (pt_server part) (fst ` set (map origin_of tr))"
proof (cases "readPart nfc part")
  case None
  with assms(1) show ?thesis
    by (intro exI[of _ tr]) (auto simp: merge_part_def intro: merge_ok_same)
next
  case (Some read)
  then obtain n where r: "read_entries nfc (pt_server part) {} (take max_pool_entries_per_server (pt_entries part)) =
      Some (rp_entries read, n)"
    by (auto simp: readPart_def Let_def split: option.splits)
  note sound = read_entries_sound[OF r]
  then have d: "distinct (map rd_name (rp_entries read))"
    by (metis distinct_map list.map_comp)
  let ?st1 = "if rp_unreadable read > 0
      then st\<lparr>ms_unreadable := AList.update (pt_server part) (Count (rp_unreadable read)) (ms_unreadable st)\<rparr> else st"
  let ?st2 = "if rp_over_count read > 0
      then ?st1\<lparr>ms_oversize := tally_add fn_text (ms_oversize ?st1) (pt_server part) (rp_over_count read)\<rparr> else ?st1"
  have "merge_ok num parts ?st2 tr" using assms(1) by (rule merge_ok_same) simp_all
  moreover have "\<forall>e \<in> set (rp_entries read). (pt_server part, rd_name e) \<notin> set (map origin_of tr)"
    using assms(3) by (metis fst_conv image_eqI)
  moreover have "\<forall>e \<in> set (rp_entries read). named_entry (pt_server part) e \<and>
      JObj (rd_source e) \<in> set (take max_pool_entries_per_server (pt_entries part))" using sound by blast
  ultimately obtain tr' where tr': "merge_ok num parts (fold (merge_entry num fn_text (pt_server part)) (rp_entries read) ?st2) tr'"
    "set (map origin_of tr') \<subseteq> set (map origin_of tr) \<union> (\<lambda>e. (pt_server part, rd_name e)) ` set (rp_entries read)"
    using merge_entries_ok[OF _ _ assms(2) refl d] by blast
  have "merge_part nfc num fn_text part st = fold (merge_entry num fn_text (pt_server part)) (rp_entries read) ?st2"
    using Some by (simp add: merge_part_def Let_def)
  moreover have "fst ` set (map origin_of tr') \<subseteq> insert (pt_server part) (fst ` set (map origin_of tr))"
  proof
    fix x assume "x \<in> fst ` set (map origin_of tr')"
    then show "x \<in> insert (pt_server part) (fst ` set (map origin_of tr))" using tr'(2) by (auto simp del: set_map)
  qed
  ultimately show ?thesis using tr'(1) by (intro exI[of _ tr']) simp
qed

lemma merge_parts_ok:
  assumes "merge_ok num parts st tr" and "set ps \<subseteq> set parts" and "distinct (map pt_server ps)"
    and "\<forall>p \<in> set ps. pt_server p \<notin> fst ` set (map origin_of tr)"
  shows "\<exists>tr'. merge_ok num parts (fold (merge_part nfc num fn_text) ps st) tr'"
  using assms
proof (induction ps arbitrary: st tr)
  case (Cons p ps)
  obtain tr1 where tr1: "merge_ok num parts (merge_part nfc num fn_text p st) tr1"
    "fst ` set (map origin_of tr1) \<subseteq> insert (pt_server p) (fst ` set (map origin_of tr))"
    using merge_part_ok[OF Cons.prems(1), of p nfc fn_text] Cons.prems by auto
  have "\<forall>q \<in> set ps. pt_server q \<notin> fst ` set (map origin_of tr1)"
  proof
    fix q assume "q \<in> set ps"
    then have "pt_server q \<noteq> pt_server p" "pt_server q \<notin> fst ` set (map origin_of tr)"
      using Cons.prems(3) Cons.prems(4)[rule_format, of q] by (auto simp: image_iff)
    with tr1(2) show "pt_server q \<notin> fst ` set (map origin_of tr1)" by blast
  qed
  then show ?case using Cons.IH[OF tr1(1)] Cons.prems by auto
qed auto

lemma merge_ok_start: "merge_ok num parts merge_start []"
  by (simp add: merge_ok_def merge_start_def)

text \<open>The pool names of a trace, as codes of its origins.\<close>

lemma names_of_trace:
  "map Some es = map rewrite tr \<Longrightarrow>
   map (\<lambda>e. as_str (get_prop e (js ''name''))) es =
     map Some (List.map_filter (\<lambda>(s, n). encodePoolName s n) (map origin_of tr))"
  by (induction tr arbitrary: es)
    (auto simp: rewrite_def origin_of_def List.map_filter_def Cons_eq_map_conv split: option.splits)

definition member_offers :: "list_part list \<Rightarrow> jstr \<Rightarrow> jstr \<Rightarrow> obj \<Rightarrow> bool" where
  "member_offers parts server name source \<longleftrightarrow>
     (\<exists>part \<in> set parts. pt_server part = server \<and> JObj source \<in> set (pt_entries part)) \<and>
     get_prop source (js ''name'') = Some (JStr name)"

text \<open>C36. The merged catalog: with members of distinct names, no name occurs in it twice; every entry is
  a member's own entry with only the name replaced, and the name in the catalog decodes to that member
  and to the name it advertised; every entry and the whole list stay within their size bounds.\<close>

theorem merged_catalog_sound:
  assumes "distinct (map pt_server parts)"
  shows "distinct (map (\<lambda>e. get_prop e (js ''name'')) (ms_merged (merge_parts nfc num fn_text parts))) \<and>
    (\<forall>e \<in> set (ms_merged (merge_parts nfc num fn_text parts)). \<exists>server name source poolName.
        member_offers parts server name source \<and> decodePoolName poolName = Some (server, name) \<and>
        e = with_prop source (js ''name'') (JStr poolName) \<and> length poolName \<le> 64 \<and>
        entry_size num e \<le> max_pool_entry_bytes) \<and>
    sum_list (map (entry_size num) (ms_merged (merge_parts nfc num fn_text parts))) \<le> max_pool_catalog_bytes"
proof -
  let ?st = "merge_parts nfc num fn_text parts"
  have "distinct (map pt_server (sort_key pt_server parts))"
    using assms by (simp add: distinct_map)
  then obtain tr where ok: "merge_ok num parts ?st tr"
    using merge_parts_ok[OF merge_ok_start, of "sort_key pt_server parts" parts num nfc fn_text]
    by (auto simp: merge_parts_def)
  then have tr: "map Some (ms_merged ?st) = map rewrite tr" "distinct (map origin_of tr)" by (simp_all add: merge_ok_def)
  have "distinct (map (\<lambda>e. as_str (get_prop e (js ''name''))) (ms_merged ?st))"
    using pool_name.distinct_codes[OF tr(2)] names_of_trace[OF tr(1)] by (simp add: distinct_map)
  then have "distinct (map (\<lambda>e. get_prop e (js ''name'')) (ms_merged ?st))"
    using distinct_map[of as_str "map (\<lambda>e. get_prop e (js ''name'')) (ms_merged ?st)"] by (simp add: comp_def)
  moreover have "\<exists>server name source poolName. member_offers parts server name source \<and>
      decodePoolName poolName = Some (server, name) \<and> e = with_prop source (js ''name'') (JStr poolName) \<and>
      length poolName \<le> 64 \<and> entry_size num e \<le> max_pool_entry_bytes" if e: "e \<in> set (ms_merged ?st)" for e
  proof -
    have "Some e \<in> set (map rewrite tr)" using e tr(1) by (metis image_eqI list.set_map)
    then obtain server source name where t: "(server, source, name) \<in> set tr" "rewrite (server, source, name) = Some e"
      by auto
    then have "advertised parts num (server, source, name)" using ok by (auto simp: merge_ok_def)
    moreover from t(2) obtain p where p: "encodePoolName server name = Some p" "e = with_prop source (js ''name'') (JStr p)"
      by (auto simp: rewrite_def)
    ultimately have "member_offers parts server name source" "length p \<le> 64" "entry_size num e \<le> max_pool_entry_bytes"
      using t(2) by (auto simp: advertised_def member_offers_def pool_name_hide_above_chars_def dest: in_set_takeD)
    with p codec_laws show ?thesis by blast
  qed
  moreover have "sum_list (map (entry_size num) (ms_merged ?st)) \<le> max_pool_catalog_bytes"
    using ok by (simp add: merge_ok_def)
  ultimately show ?thesis by blast
qed

definition sample_parts :: "list_part list" where
  "sample_parts = [\<lparr>pt_server = js ''git'', pt_entries = [JObj [(js ''name'', JStr (js ''_log''))], JNull]\<rparr>,
     \<lparr>pt_server = js ''fs'', pt_entries = [JObj [(js ''name'', JStr (js ''log''))]]\<rparr>]"

theorem merged_catalog_sound_witness:
  "distinct (map (\<lambda>e. get_prop e (js ''name'')) (ms_merged (merge_parts (\<lambda>s. s) (\<lambda>_. js ''0'') (\<lambda>s. s) sample_parts))) \<and>
   distinct (map pt_server sample_parts)"
proof -
  have "distinct (map pt_server sample_parts)" by (simp add: sample_parts_def)
  with merged_catalog_sound[OF this, of "\<lambda>s. s" "\<lambda>_. js ''0''" "\<lambda>s. s"] show ?thesis by blast
qed

section \<open>Routing\<close>

text \<open>Routing: a request is sent on exactly when it is addressed, names a pool name of a current
  member and stays one line; it then goes to the member its name decodes to, unchanged but for the
  name, which is the member's own.\<close>

lemma route_exact:
  "routePoolRequest parse num raw isPoolMember = Some (Routed server name out) \<longleftrightarrow>
     some_with (try_parse_object parse raw) (\<lambda>parsed. some_with (as_str (get_prop parsed (js ''method''))) (\<lambda>meth.
       meth \<in> {tools_call_method, prompts_get_method} \<and>
       some_with (as_obj (get_prop parsed (js ''params''))) (\<lambda>params.
         some_with (as_str (get_prop params (js ''name''))) (\<lambda>poolName.
           encodePoolName server name = Some poolName \<and> isPoolMember server \<and>
           out = json_text num (JObj (with_prop parsed (js ''params'') (JObj (with_prop params (js ''name'') (JStr name))))) \<and>
           10 \<notin> set out))))"
proof -
  have "decodePoolName [] = None" by (simp add: decodePoolName_def separator_eq)
  then show ?thesis
    unfolding routePoolRequest_def addressed_methods_def codec_laws Let_def
    by (cases "try_parse_object parse raw")
      (auto split: option.splits if_splits simp del: json_text.simps try_parse_object_Some)
qed

end
