(* ===== verification/Synthesize.thy ===== *)
theory Synthesize
  imports Protocol
begin

text \<open>
  \<open>proxy/synthesize.ts\<close> and \<open>pool/errors.ts\<close>: the answers the gate and the pool write themselves. A
  body is built as a JSON value and sent as one line of UTF-8 text. A \<open>SynthesizableId\<close> is an
  \<open>rpc_id\<close> that is not \<open>IdNull\<close>; the codes are integers, stored as doubles.
\<close>

section \<open>Integers as doubles\<close>

fun floor_log2 :: "nat \<Rightarrow> nat" where
  "floor_log2 n = (if n < 2 then 0 else Suc (floor_log2 (n div 2)))"

declare floor_log2.simps [simp del]

text \<open>The bit pattern of an integer below 2^53 in absolute value.\<close>

definition double_of_int :: "int \<Rightarrow> 64 word" where
  "double_of_int i =
     (if i = 0 then 0
      else (let n = nat \<bar>i\<bar>; e = floor_log2 n in
        word_of_nat ((if i < 0 then 2 ^ 63 else 0) + (e + 1023) * 2 ^ 52 + (n - 2 ^ e) * 2 ^ (52 - e))))"

lemma internal_error_code_double: "double_of_int (-32603) = internal_error_code"
  by code_simp

section \<open>Error answers\<close>

record error_info =
  ei_code :: int
  ei_message :: jstr
  ei_data :: "obj option"

definition error_body :: "rpc_id \<Rightarrow> error_info \<Rightarrow> json" where
  "error_body i info =
     JObj [(js ''jsonrpc'', JStr (js ''2.0'')), (js ''id'', id_json i),
       (js ''error'', JObj ([(js ''code'', JNum (double_of_int (ei_code info))), (js ''message'', JStr (ei_message info))]
          @ (case ei_data info of Some d \<Rightarrow> [(js ''data'', JObj d)] | None \<Rightarrow> [])))]"

definition line_frame :: "(64 word \<Rightarrow> jstr) \<Rightarrow> json \<Rightarrow> bytes" where
  "line_frame num body = utf8_encode (json_text num body @ [10])"

definition synthesizeError :: "(64 word \<Rightarrow> jstr) \<Rightarrow> rpc_id \<Rightarrow> error_info \<Rightarrow> bytes" where
  "synthesizeError num i info = line_frame num (error_body i info)"

definition error_code_policy_denied :: int where "error_code_policy_denied = -32001"
definition error_code_approval :: int where "error_code_approval = -32002"
definition error_code_quarantined :: int where "error_code_quarantined = -32003"

definition double_quoted :: "jstr \<Rightarrow> jstr" where
  "double_quoted s = js [CHR 0x22] @ s @ js [CHR 0x22]"

definition denialError :: "rpc_id \<Rightarrow> jstr \<Rightarrow> jstr \<Rightarrow> jstr option \<Rightarrow> json" where
  "denialError i toolName rule detail =
     error_body i \<lparr>ei_code = error_code_policy_denied,
       ei_message = (case detail of
           Some d \<Rightarrow> js ''Call to tool '' @ double_quoted toolName @ js '' was refused: '' @ d
         | None \<Rightarrow> js ''Call to tool '' @ double_quoted toolName @ js '' was blocked by policy rule ''
             @ double_quoted rule @ js ''. A human operator can change the policy to allow it.''),
       ei_data = Some [(js ''reason'', JStr (js ''policy_denied'')), (js ''toolName'', JStr toolName), (js ''rule'', JStr rule)]\<rparr>"

definition approvalTimeoutError :: "rpc_id \<Rightarrow> jstr \<Rightarrow> json" where
  "approvalTimeoutError i toolName =
     error_body i \<lparr>ei_code = error_code_approval,
       ei_message = js ''Call to tool '' @ double_quoted toolName
         @ js '' requires human approval and timed out waiting for one. ''
         @ js ''Nothing was sent to the server; calling it again asks for a new approval.'',
       ei_data = Some [(js ''reason'', JStr (js ''approval_timeout'')), (js ''toolName'', JStr toolName)]\<rparr>"

definition approvalHoldLimitError :: "rpc_id \<Rightarrow> jstr \<Rightarrow> nat \<Rightarrow> json" where
  "approvalHoldLimitError i toolName limit =
     error_body i \<lparr>ei_code = error_code_approval,
       ei_message = js ''Call to tool '' @ double_quoted toolName @ js '' requires human approval, and this session already has ''
         @ decimal limit @ js '' calls waiting for one. Nothing was sent to the server; call it again once ''
         @ js ''one of them is answered.'',
       ei_data = Some [(js ''reason'', JStr (js ''approval_hold_limit'')), (js ''toolName'', JStr toolName),
                       (js ''limit'', JNum (double_of_int (int limit)))]\<rparr>"

definition approvalDeniedError :: "rpc_id \<Rightarrow> jstr \<Rightarrow> json" where
  "approvalDeniedError i toolName =
     error_body i \<lparr>ei_code = error_code_approval,
       ei_message = js ''Call to tool '' @ double_quoted toolName
         @ js '' was denied by a human operator during approval review.'',
       ei_data = Some [(js ''reason'', JStr (js ''approval_denied'')), (js ''toolName'', JStr toolName)]\<rparr>"

datatype confirm_reason = Refused | Unconfirmed | ConfirmTimeout | Unavailable

fun confirm_reason_str :: "confirm_reason \<Rightarrow> jstr" where
  "confirm_reason_str Refused = js ''refused''"
| "confirm_reason_str Unconfirmed = js ''unconfirmed''"
| "confirm_reason_str ConfirmTimeout = js ''timeout''"
| "confirm_reason_str Unavailable = js ''unavailable''"

fun client_confirm_message :: "confirm_reason \<Rightarrow> jstr \<Rightarrow> jstr" where
  "client_confirm_message Refused toolName = js ''Call to tool '' @ double_quoted toolName
     @ js '' was refused by the person at the client, who was asked to confirm it.''"
| "client_confirm_message Unconfirmed toolName = js ''Call to tool '' @ double_quoted toolName
     @ js '' needs confirmation by the person at the client and was not confirmed.''"
| "client_confirm_message ConfirmTimeout toolName = js ''Call to tool '' @ double_quoted toolName
     @ js '' needs confirmation by the person at the client, and none came in time.''"
| "client_confirm_message Unavailable toolName = js ''Call to tool '' @ double_quoted toolName
     @ js '' needs confirmation by the person at the client, and this client cannot show ''
     @ js ''the confirmation dialog (MCP form elicitation). The person needs a client that can.''"

definition clientConfirmError :: "rpc_id \<Rightarrow> jstr \<Rightarrow> confirm_reason \<Rightarrow> json" where
  "clientConfirmError i toolName reason =
     error_body i \<lparr>ei_code = error_code_approval, ei_message = client_confirm_message reason toolName,
       ei_data = Some [(js ''reason'', JStr (js ''client_confirm_'' @ confirm_reason_str reason)), (js ''toolName'', JStr toolName)]\<rparr>"

definition quarantinedError :: "rpc_id \<Rightarrow> jstr \<Rightarrow> jstr \<Rightarrow> json" where
  "quarantinedError i toolName serverName =
     error_body i \<lparr>ei_code = error_code_quarantined,
       ei_message = js ''Tool '' @ double_quoted toolName @ js '' on server '' @ double_quoted serverName
         @ js '' is quarantined (new or changed) and cannot be called until a human operator reviews it.'',
       ei_data = Some [(js ''reason'', JStr (js ''quarantined'')), (js ''toolName'', JStr toolName), (js ''serverName'', JStr serverName)]\<rparr>"

record method_denial =
  md_method :: jstr
  md_server :: jstr
  md_rule :: jstr

definition method_data :: "jstr \<Rightarrow> method_denial \<Rightarrow> obj" where
  "method_data reason info =
     [(js ''reason'', JStr reason), (js ''method'', JStr (md_method info)), (js ''serverName'', JStr (md_server info)),
      (js ''rule'', JStr (md_rule info))]"

definition methodNotGrantedError :: "rpc_id \<Rightarrow> method_denial \<Rightarrow> json" where
  "methodNotGrantedError i info =
     error_body i \<lparr>ei_code = error_code_policy_denied,
       ei_message = js ''Method '' @ double_quoted (md_method info)
         @ js '' was refused: this agent has no resources/prompts grant for server '' @ double_quoted (md_server info)
         @ js '', so no resource or prompt on it is reachable. Only a human operator can widen the grant.'',
       ei_data = Some (method_data (js ''agent_no_method_grant'') info)\<rparr>"

definition methodNotGrantableError :: "rpc_id \<Rightarrow> method_denial \<Rightarrow> json" where
  "methodNotGrantableError i info =
     error_body i \<lparr>ei_code = error_code_policy_denied,
       ei_message = js ''Method '' @ double_quoted (md_method info)
         @ js '' was refused: the control plane has no way to express a grant for it, so it is denied for every agent ''
         @ js ''on every server. This is not something a grant can change.'',
       ei_data = Some (method_data (js ''method_not_grantable'') info)\<rparr>"

definition methodDeniedError :: "rpc_id \<Rightarrow> method_denial \<Rightarrow> json" where
  "methodDeniedError i info =
     error_body i \<lparr>ei_code = error_code_policy_denied,
       ei_message = js ''Method '' @ double_quoted (md_method info) @ js '' on server '' @ double_quoted (md_server info)
         @ js '' was refused by rule '' @ double_quoted (md_rule info)
         @ js ''. A human operator decides what an agent may reach.'',
       ei_data = Some (method_data (js ''agent_method_denied'') info)\<rparr>"

fun token_json :: "progress_token \<Rightarrow> json" where
  "token_json (TokStr s) = JStr s"
| "token_json (TokNum n) = JNum n"

definition heldCallProgress :: "progress_token \<Rightarrow> 64 word \<Rightarrow> jstr \<Rightarrow> json" where
  "heldCallProgress token progress message =
     JObj [(js ''jsonrpc'', JStr (js ''2.0'')), (js ''method'', JStr (js ''notifications/progress'')),
       (js ''params'', JObj [(js ''progressToken'', token_json token), (js ''progress'', JNum progress), (js ''message'', JStr message)])]"

section \<open>Answers of the pool\<close>

definition max_error_name_chars :: nat where "max_error_name_chars = 128"

definition control_unit :: "u16 \<Rightarrow> bool" where
  "control_unit c \<longleftrightarrow> c \<le> 0x1f \<or> c = 0x7f"

definition invisible_unit :: "u16 \<Rightarrow> bool" where
  "invisible_unit c \<longleftrightarrow> 0x200b \<le> c \<and> c \<le> 0x200f \<or> 0x202a \<le> c \<and> c \<le> 0x202e \<or>
     0x2066 \<le> c \<and> c \<le> 0x2069 \<or> c = 0xfeff"

definition safeNameOf :: "jstr \<Rightarrow> jstr" where
  "safeNameOf text =
     take max_error_name_chars (filter (\<lambda>c. \<not> invisible_unit c) (filter (\<lambda>c. \<not> control_unit c) text))"

definition poolMethodNotFoundError :: "rpc_id \<Rightarrow> jstr \<Rightarrow> json" where
  "poolMethodNotFoundError i meth =
     error_body i \<lparr>ei_code = -32601,
       ei_message = js ''Method '' @ double_quoted (safeNameOf meth)
         @ js '' is not available at this address. A pool address serves tools and prompts only.'',
       ei_data = Some [(js ''reason'', JStr (js ''pool_unsupported_method'')), (js ''method'', JStr (safeNameOf meth))]\<rparr>"

definition poolMemberGoneError :: "rpc_id \<Rightarrow> jstr \<Rightarrow> json" where
  "poolMemberGoneError i server =
     error_body i \<lparr>ei_code = -32005,
       ei_message = js ''Server '' @ double_quoted (safeNameOf server)
         @ js '' is no longer part of this pool; the call was not completed. ''
         @ js ''Read the tool list again to see what is available now.'',
       ei_data = Some [(js ''reason'', JStr (js ''pool_member_gone'')), (js ''serverName'', JStr (safeNameOf server))]\<rparr>"

definition reason_data :: "string \<Rightarrow> obj option" where
  "reason_data r = Some [(js ''reason'', JStr (js r))]"

definition poolCursorError :: "rpc_id \<Rightarrow> json" where
  "poolCursorError i =
     error_body i \<lparr>ei_code = -32602,
       ei_message = js ''This address does not paginate; omit \"cursor\" and read the whole list.'',
       ei_data = reason_data ''pool_cursor_unsupported''\<rparr>"

definition poolIncompleteResultError :: "rpc_id \<Rightarrow> json" where
  "poolIncompleteResultError i =
     error_body i \<lparr>ei_code = -32007,
       ei_message = js ''The server asked for input or a retry the pool cannot provide; call the tool again.'',
       ei_data = reason_data ''pool_incomplete_result''\<rparr>"

definition poolPingResult :: "rpc_id \<Rightarrow> json" where
  "poolPingResult i = JObj [(js ''jsonrpc'', JStr (js ''2.0'')), (js ''id'', id_json i), (js ''result'', JObj [])]"

definition poolDuplicateIdError :: "rpc_id \<Rightarrow> json" where
  "poolDuplicateIdError i =
     error_body i \<lparr>ei_code = -32602,
       ei_message = js ''A request with this id is already in flight; use a fresh id.'',
       ei_data = reason_data ''pool_duplicate_id''\<rparr>"

definition poolAtCapacityError :: "rpc_id \<Rightarrow> json" where
  "poolAtCapacityError i =
     error_body i \<lparr>ei_code = -32006,
       ei_message = js ''This address is tracking too many requests; retry when one has answered.'',
       ei_data = reason_data ''pool_at_capacity''\<rparr>"

definition poolReservedIdError :: "rpc_id \<Rightarrow> json" where
  "poolReservedIdError i =
     error_body i \<lparr>ei_code = -32602,
       ei_message = js ''This request id is reserved; use one that does not start with the plane prefix.'',
       ei_data = reason_data ''pool_reserved_id''\<rparr>"

definition unknownTargetError :: "rpc_id \<Rightarrow> jstr \<Rightarrow> json" where
  "unknownTargetError i poolName =
     error_body i \<lparr>ei_code = -32602, ei_message = js ''Unknown tool: '' @ safeNameOf poolName,
       ei_data = Some [(js ''reason'', JStr (js ''unknown_pool_target'')), (js ''toolName'', JStr (safeNameOf poolName))]\<rparr>"

end
