(* ===== verification/Correlator.thy ===== *)
theory Correlator
  imports Machine Synthesize
begin

text \<open>
  \<open>pool/correlator.ts\<close>: which request in flight an answer, a progress token or a cancellation belongs
  to. The two \<open>Map\<close>s and the counter are the record \<open>correlator\<close>; an operation of the correlator is a
  state function. \<open>num\<close> is the text of a number, so \<open>idKeyOf\<close> is the code's key.
\<close>

definition pool_fanout_id_prefix :: jstr where "pool_fanout_id_prefix = js ''mcpcut-pool:''"

fun idKeyOf :: "(64 word \<Rightarrow> jstr) \<Rightarrow> rpc_id \<Rightarrow> jstr" where
  "idKeyOf num (IdStr s) = js ''string '' @ s"
| "idKeyOf num (IdNum n) = js ''number '' @ num n"
| "idKeyOf num IdNull = js ''object null''"

datatype track_refusal = DuplicateId | AtCapacity | ReservedId

datatype settle_outcome = SettledClient | SettledFanout jstr | Unexpected

datatype pending_request =
    ClientRequest (server_of_request: jstr) rpc_id "jstr option"
  | FanoutRequest (server_of_request: jstr) rpc_id jstr

record correlator =
  pending_requests :: "(jstr \<times> pending_request) list"
  progress_owners :: "(jstr \<times> jstr) list"
  fanout_counter :: nat

definition empty_correlator :: correlator where
  "empty_correlator = \<lparr>pending_requests = [], progress_owners = [], fanout_counter = 0\<rparr>"

definition forget :: "jstr \<Rightarrow> pending_request \<Rightarrow> correlator \<Rightarrow> correlator" where
  "forget key entry c =
     (let c1 = c\<lparr>pending_requests := AList.delete key (pending_requests c)\<rparr> in
      case entry of
        ClientRequest server i (Some progressKey) \<Rightarrow>
          if map_of (progress_owners c1) progressKey = Some key
          then c1\<lparr>progress_owners := AList.delete progressKey (progress_owners c1)\<rparr> else c1
      | _ \<Rightarrow> c1)"

text \<open>\<open>take\<close>.\<close>

definition take_request :: "jstr \<Rightarrow> jstr \<Rightarrow> correlator \<Rightarrow> pending_request option \<times> correlator" where
  "take_request server key c =
     (case map_of (pending_requests c) key of
        None \<Rightarrow> (None, c)
      | Some entry \<Rightarrow> if server_of_request entry \<noteq> server then (None, c) else (Some entry, forget key entry c))"

definition reserved_id :: "rpc_id \<Rightarrow> bool" where
  "reserved_id i = (case i of IdStr s \<Rightarrow> prefix pool_fanout_id_prefix s | _ \<Rightarrow> False)"

definition trackClient ::
  "(64 word \<Rightarrow> jstr) \<Rightarrow> nat \<Rightarrow> rpc_id \<Rightarrow> jstr \<Rightarrow> rpc_id option \<Rightarrow> correlator \<Rightarrow> track_refusal option \<times> correlator" where
  "trackClient num maxPending i server progressToken c =
     (if reserved_id i then (Some ReservedId, c)
      else (let key = idKeyOf num i in
        if has_own (pending_requests c) key then (Some DuplicateId, c)
        else if length (pending_requests c) \<ge> maxPending then (Some AtCapacity, c)
        else (let progressKey = map_option (idKeyOf num) progressToken;
                  ownsToken = some_with progressKey (\<lambda>k. \<not> has_own (progress_owners c) k);
                  c1 = c\<lparr>pending_requests := AList.update key
                          (ClientRequest server i (if ownsToken then progressKey else None)) (pending_requests c)\<rparr>
              in (None, if ownsToken
                        then c1\<lparr>progress_owners := AList.update (the progressKey) key (progress_owners c1)\<rparr> else c1))))"

definition fanout_id :: "nat \<Rightarrow> rpc_id" where
  "fanout_id n = IdStr (pool_fanout_id_prefix @ decimal n)"

definition trackFanout ::
  "(64 word \<Rightarrow> jstr) \<Rightarrow> nat \<Rightarrow> jstr \<Rightarrow> jstr \<Rightarrow> correlator \<Rightarrow> rpc_id option \<times> correlator" where
  "trackFanout num maxPending server tag c =
     (if length (pending_requests c) \<ge> maxPending then (None, c)
      else (let n = Suc (fanout_counter c); i = fanout_id n in
        (Some i, c\<lparr>fanout_counter := n,
                   pending_requests := AList.update (idKeyOf num i) (FanoutRequest server i tag) (pending_requests c)\<rparr>)))"

definition settle :: "(64 word \<Rightarrow> jstr) \<Rightarrow> jstr \<Rightarrow> rpc_id \<Rightarrow> correlator \<Rightarrow> settle_outcome \<times> correlator" where
  "settle num server i c =
     (if i = IdNull then (Unexpected, c)
      else case take_request server (idKeyOf num i) c of
          (None, c') \<Rightarrow> (Unexpected, c')
        | (Some (ClientRequest s j p), c') \<Rightarrow> (SettledClient, c')
        | (Some (FanoutRequest s j tag), c') \<Rightarrow> (SettledFanout tag, c'))"

definition hasPending :: "jstr \<Rightarrow> correlator \<Rightarrow> bool" where
  "hasPending server c = list_ex (\<lambda>(key, entry). server_of_request entry = server) (pending_requests c)"

definition client_server :: "pending_request option \<Rightarrow> jstr option" where
  "client_server entry = (case entry of Some (ClientRequest server i p) \<Rightarrow> Some server | _ \<Rightarrow> None)"

definition serverOf :: "(64 word \<Rightarrow> jstr) \<Rightarrow> rpc_id \<Rightarrow> correlator \<Rightarrow> jstr option" where
  "serverOf num i c = client_server (map_of (pending_requests c) (idKeyOf num i))"

definition progressServerOf :: "(64 word \<Rightarrow> jstr) \<Rightarrow> rpc_id \<Rightarrow> correlator \<Rightarrow> jstr option" where
  "progressServerOf num token c =
     (case map_of (progress_owners c) (idKeyOf num token) of
        None \<Rightarrow> None
      | Some owner \<Rightarrow> client_server (map_of (pending_requests c) owner))"

fun drop_entries :: "jstr \<Rightarrow> (jstr \<times> pending_request) list \<Rightarrow> correlator \<Rightarrow> rpc_id list \<times> correlator" where
  "drop_entries server [] c = ([], c)"
| "drop_entries server ((key, entry) # entries) c =
     (if server_of_request entry \<noteq> server then drop_entries server entries c
      else (let (orphaned, c') = drop_entries server entries (forget key entry c)
            in (case entry of ClientRequest s i p \<Rightarrow> i # orphaned | _ \<Rightarrow> orphaned, c')))"

definition dropServer :: "jstr \<Rightarrow> correlator \<Rightarrow> rpc_id list \<times> correlator" where
  "dropServer server c = drop_entries server (pending_requests c) c"

definition forgetClient :: "(64 word \<Rightarrow> jstr) \<Rightarrow> jstr \<Rightarrow> rpc_id \<Rightarrow> correlator \<Rightarrow> bool \<times> correlator" where
  "forgetClient num server i c =
     (case map_of (pending_requests c) (idKeyOf num i) of
        Some (ClientRequest s j p) \<Rightarrow>
          if s \<noteq> server then (False, c) else (True, forget (idKeyOf num i) (ClientRequest s j p) c)
      | _ \<Rightarrow> (False, c))"

section \<open>The correlator as a machine\<close>

datatype call =
    TrackClient rpc_id jstr "rpc_id option"
  | TrackFanout jstr jstr
  | Settle jstr rpc_id
  | DropServer jstr
  | ForgetClient jstr rpc_id

datatype correlator_effect =
    Forwarded jstr rpc_id
  | Asked jstr rpc_id
  | Answered jstr rpc_id
  | AskedAnswered jstr rpc_id
  | Orphaned jstr rpc_id
  | Rejected track_refusal

fun correlator_step ::
  "(64 word \<Rightarrow> jstr) \<Rightarrow> nat \<Rightarrow> correlator \<Rightarrow> call \<Rightarrow> correlator \<times> correlator_effect list" where
  "correlator_step num m c (TrackClient i server token) =
     (case trackClient num m i server token c of
        (None, c') \<Rightarrow> (c', [Forwarded server i]) | (Some r, c') \<Rightarrow> (c', [Rejected r]))"
| "correlator_step num m c (TrackFanout server tag) =
     (case trackFanout num m server tag c of
        (None, c') \<Rightarrow> (c', []) | (Some i, c') \<Rightarrow> (c', [Asked server i]))"
| "correlator_step num m c (Settle server i) =
     (case settle num server i c of
        (SettledClient, c') \<Rightarrow> (c', [Answered server i])
      | (SettledFanout tag, c') \<Rightarrow> (c', [AskedAnswered server i])
      | (Unexpected, c') \<Rightarrow> (c', []))"
| "correlator_step num m c (DropServer server) =
     (let (orphans, c') = dropServer server c in (c', map (Orphaned server) orphans))"
| "correlator_step num m c (ForgetClient server i) =
     (let (gone, c') = forgetClient num server i c in (c', if gone then [Orphaned server i] else []))"

end
