(* ===== verification/Correlator_Safety.thy ===== *)
theory Correlator_Safety
  imports Correlator
begin

text \<open>
  The correlator keeps its tables consistent and bounded, and implements a ledger of the agent's
  requests in flight: an id is entered once, and leaves the ledger once, by the member it was sent to.
\<close>

section \<open>Keys\<close>

lemma key_of_string: "idKeyOf num i = js ''string '' @ s \<longleftrightarrow> i = IdStr s"
  by (cases i) (auto simp: str_simps)

lemma reserved_key: "idKeyOf num i = idKeyOf num (fanout_id n) \<Longrightarrow> i = fanout_id n"
  by (simp add: fanout_id_def key_of_string)

lemma reserved_fanout [simp]: "reserved_id (fanout_id n)"
  by (simp add: reserved_id_def fanout_id_def)

lemma fanout_id_eq [simp]: "fanout_id m = fanout_id n \<longleftrightarrow> m = n"
  by (simp add: fanout_id_def)

section \<open>The invariant\<close>

definition entry_ok :: "(64 word \<Rightarrow> jstr) \<Rightarrow> nat \<Rightarrow> jstr \<Rightarrow> pending_request \<Rightarrow> bool" where
  "entry_ok num counter key entry =
     (case entry of
        ClientRequest s i p \<Rightarrow> key = idKeyOf num i \<and> \<not> reserved_id i
      | FanoutRequest s i t \<Rightarrow> (\<exists>n \<le> counter. key = idKeyOf num (fanout_id n)))"

definition owners_ok :: "correlator \<Rightarrow> bool" where
  "owners_ok c \<longleftrightarrow> (\<forall>k key. map_of (progress_owners c) k = Some key \<longleftrightarrow>
     (\<exists>s i. map_of (pending_requests c) key = Some (ClientRequest s i (Some k))))"

definition correlator_ok :: "(64 word \<Rightarrow> jstr) \<Rightarrow> nat \<Rightarrow> correlator \<Rightarrow> bool" where
  "correlator_ok num m c \<longleftrightarrow>
     wf_map (pending_requests c) \<and> wf_map (progress_owners c) \<and> length (pending_requests c) \<le> m \<and>
     (\<forall>key entry. map_of (pending_requests c) key = Some entry \<longrightarrow> entry_ok num (fanout_counter c) key entry) \<and>
     owners_ok c"

lemma ownsD: "owners_ok c \<Longrightarrow> map_of (pending_requests c) key = Some (ClientRequest s i (Some k)) \<Longrightarrow>
    map_of (progress_owners c) k = Some key"
  and ownedD: "owners_ok c \<Longrightarrow> map_of (progress_owners c) k = Some key \<Longrightarrow>
    \<exists>s i. map_of (pending_requests c) key = Some (ClientRequest s i (Some k))"
  by (auto simp: owners_ok_def)

lemma owners_okI:
  assumes "\<And>k key. map_of (progress_owners c) k = Some key \<Longrightarrow>
      \<exists>s i. map_of (pending_requests c) key = Some (ClientRequest s i (Some k))"
    and "\<And>k key s i. map_of (pending_requests c) key = Some (ClientRequest s i (Some k)) \<Longrightarrow>
      map_of (progress_owners c) k = Some key"
  shows "owners_ok c"
  using assms unfolding owners_ok_def by blast

lemma correlator_okD:
  assumes "correlator_ok num m c"
  shows "wf_map (pending_requests c)" "wf_map (progress_owners c)" "length (pending_requests c) \<le> m"
    "map_of (pending_requests c) key = Some entry \<Longrightarrow> entry_ok num (fanout_counter c) key entry" "owners_ok c"
  using assms by (auto simp: correlator_ok_def)

lemma correlator_ok_empty [simp]: "correlator_ok num m empty_correlator"
  by (simp add: correlator_ok_def empty_correlator_def owners_ok_def)

lemma length_delete: "length (AList.delete k xs) \<le> length xs"
  by (simp add: length_delete_le)

text \<open>Forgetting an entry of a consistent correlator removes it and, with it, the token it owns.\<close>

lemma forget_pending [simp]: "pending_requests (forget key entry c) = AList.delete key (pending_requests c)"
  and forget_counter [simp]: "fanout_counter (forget key entry c) = fanout_counter c"
  by (auto simp: forget_def Let_def split: pending_request.split option.split)

lemma forget_owners:
  assumes "owners_ok c" and "map_of (pending_requests c) key = Some entry"
  shows "map_of (progress_owners (forget key entry c)) k =
     (if map_of (progress_owners c) k = Some key then None else map_of (progress_owners c) k)"
proof -
  have "map_of (progress_owners c) k = Some key \<longleftrightarrow> (\<exists>s i. entry = ClientRequest s i (Some k))" for k
    using assms by (auto simp: owners_ok_def)
  then show ?thesis
    by (auto simp: forget_def Let_def split: pending_request.split option.split)
qed

lemma forget_ok:
  assumes "correlator_ok num m c" and "map_of (pending_requests c) key = Some entry"
  shows "correlator_ok num m (forget key entry c)"
proof -
  note owners = correlator_okD(5)[OF assms(1)]
  have "owners_ok (forget key entry c)"
  proof (rule owners_okI)
    fix k key'
    assume "map_of (progress_owners (forget key entry c)) k = Some key'"
    then show "\<exists>s i. map_of (pending_requests (forget key entry c)) key' = Some (ClientRequest s i (Some k))"
      using ownedD[OF owners, of k key'] forget_owners[OF owners assms(2), of k] by (auto split: if_splits)
  next
    fix k key' s i
    assume "map_of (pending_requests (forget key entry c)) key' = Some (ClientRequest s i (Some k))"
    then show "map_of (progress_owners (forget key entry c)) k = Some key'"
      using ownsD[OF owners, of key' s i k] forget_owners[OF owners assms(2), of k] by (auto split: if_splits)
  qed
  moreover have "wf_map (progress_owners (forget key entry c))"
    using correlator_okD(2)[OF assms(1)]
    by (auto simp: forget_def Let_def split: pending_request.split option.split)
  ultimately show ?thesis
    using correlator_okD(1,3,4)[OF assms(1)] length_delete[of key "pending_requests c"]
    by (auto simp: correlator_ok_def split: if_splits)
qed

section \<open>The ledger\<close>

text \<open>The agent's requests in flight: for each key the member it was sent to.\<close>

type_synonym ledger = "jstr \<Rightarrow> jstr option"

fun ledger_spec :: "(64 word \<Rightarrow> jstr) \<Rightarrow> ledger \<Rightarrow> correlator_effect \<Rightarrow> ledger option" where
  "ledger_spec num l (Forwarded server i) =
     (if l (idKeyOf num i) \<noteq> None then None else Some (l(idKeyOf num i \<mapsto> server)))"
| "ledger_spec num l (Answered server i) =
     (if l (idKeyOf num i) = Some server then Some (l(idKeyOf num i := None)) else None)"
| "ledger_spec num l (Orphaned server i) =
     (if l (idKeyOf num i) = Some server then Some (l(idKeyOf num i := None)) else None)"
| "ledger_spec num l _ = Some l"

definition ledger_of :: "correlator \<Rightarrow> ledger" where
  "ledger_of c = (\<lambda>key. client_server (map_of (pending_requests c) key))"

lemma ledger_of_empty [simp]: "ledger_of empty_correlator = Map.empty"
  by (simp add: ledger_of_def client_server_def empty_correlator_def)

lemma ledger_forget: "ledger_of (forget key entry c) = (ledger_of c)(key := None)"
  by (auto simp: ledger_of_def client_server_def)

lemma ledger_forget_fanout:
  "map_of (pending_requests c) key = Some (FanoutRequest s i t) \<Longrightarrow> ledger_of (forget key entry c) = ledger_of c"
  by (auto simp: ledger_of_def client_server_def)

lemma ledger_client:
  "map_of (pending_requests c) key = Some (ClientRequest s i p) \<Longrightarrow> ledger_of c key = Some s"
  by (simp add: ledger_of_def client_server_def)

section \<open>Each operation\<close>

definition refines :: "(64 word \<Rightarrow> jstr) \<Rightarrow> nat \<Rightarrow> correlator \<Rightarrow> correlator \<times> correlator_effect list \<Rightarrow> bool" where
  "refines num m c r \<longleftrightarrow>
     correlator_ok num m (fst r) \<and> spec_run (ledger_spec num) (ledger_of c) (snd r) = Some (ledger_of (fst r))"

lemma refines_same: "correlator_ok num m c \<Longrightarrow> refines num m c (c, [])"
  and refines_refused: "correlator_ok num m c \<Longrightarrow> refines num m c (c, [Rejected r])"
  by (simp_all add: refines_def)

lemma refines_answer:
  assumes "correlator_ok num m c" and "map_of (pending_requests c) (idKeyOf num i) = Some (ClientRequest server j p)"
    and "eff \<in> {Answered server i, Orphaned server i}"
  shows "refines num m c (forget (idKeyOf num i) (ClientRequest server j p) c, [eff])"
  using assms forget_ok[OF assms(1,2)] ledger_client[OF assms(2)] by (auto simp: refines_def ledger_forget)

lemma trackClient_refines:
  assumes "correlator_ok num m c"
  shows "refines num m c (correlator_step num m c (TrackClient i server token))"
proof (cases "reserved_id i \<or> has_own (pending_requests c) (idKeyOf num i) \<or> m \<le> length (pending_requests c)")
  case True
  then show ?thesis using assms by (auto simp: trackClient_def Let_def refines_refused)
next
  case False
  let ?key = "idKeyOf num i"
  let ?owns = "some_with (map_option (idKeyOf num) token) (\<lambda>k. \<not> has_own (progress_owners c) k)"
  define pk where "pk = (if ?owns then map_option (idKeyOf num) token else None)"
  define c' where "c' = c\<lparr>pending_requests := AList.update ?key (ClientRequest server i pk) (pending_requests c),
      progress_owners := (case pk of None \<Rightarrow> progress_owners c | Some k \<Rightarrow> AList.update k ?key (progress_owners c))\<rparr>"
  have fresh: "map_of (pending_requests c) ?key = None" using False by simp
  have pk: "pk = Some k \<Longrightarrow> map_of (progress_owners c) k = None" for k
    by (auto simp: pk_def split: if_splits)
  have step: "correlator_step num m c (TrackClient i server token) = (c', [Forwarded server i])"
    using False by (auto simp: trackClient_def Let_def c'_def pk_def)
  have no_owner: "map_of (progress_owners c) k \<noteq> Some ?key" for k
    using correlator_okD(5)[OF assms] fresh by (auto simp: owners_ok_def)
  have "owners_ok c'"
  proof (rule owners_okI)
    fix k key'
    assume "map_of (progress_owners c') k = Some key'"
    then show "\<exists>s i. map_of (pending_requests c') key' = Some (ClientRequest s i (Some k))"
      using ownedD[OF correlator_okD(5)[OF assms], of k key'] no_owner[of k]
      by (auto simp: c'_def split: option.splits if_splits)
  next
    fix k key' s i
    assume "map_of (pending_requests c') key' = Some (ClientRequest s i (Some k))"
    then show "map_of (progress_owners c') k = Some key'"
      using ownsD[OF correlator_okD(5)[OF assms], of key' s i k] pk
      by (auto simp: c'_def split: option.splits if_splits)
  qed
  then have "correlator_ok num m c'"
    using correlator_okD(1-4)[OF assms] False fresh
    by (auto simp: correlator_ok_def c'_def entry_ok_def length_update split: option.splits)
  moreover have "ledger_of c ?key = None" and "ledger_of c' = (ledger_of c)(?key \<mapsto> server)"
    using fresh by (auto simp: ledger_of_def client_server_def c'_def)
  ultimately show ?thesis unfolding step by (simp add: refines_def)
qed

lemma trackFanout_refines:
  assumes "correlator_ok num m c"
  shows "refines num m c (correlator_step num m c (TrackFanout server tag))"
proof (cases "m \<le> length (pending_requests c)")
  case True
  then show ?thesis using assms by (simp add: trackFanout_def refines_same)
next
  case False
  let ?n = "Suc (fanout_counter c)"
  let ?key = "idKeyOf num (fanout_id ?n)"
  have fresh: "map_of (pending_requests c) ?key = None"
  proof (cases "map_of (pending_requests c) ?key")
    case (Some entry)
    have "entry_ok num (fanout_counter c) ?key entry" by (rule correlator_okD(4)[OF assms Some])
    then show ?thesis
      by (cases entry) (auto simp: entry_ok_def dest!: reserved_key[OF sym] reserved_key)
  qed
  let ?c = "c\<lparr>fanout_counter := ?n,
     pending_requests := AList.update ?key (FanoutRequest server (fanout_id ?n) tag) (pending_requests c)\<rparr>"
  have no_owner: "map_of (progress_owners c) k \<noteq> Some ?key" for k
    using correlator_okD(5)[OF assms] fresh by (auto simp: owners_ok_def)
  have "owners_ok ?c"
    using ownedD[OF correlator_okD(5)[OF assms]] ownsD[OF correlator_okD(5)[OF assms]] no_owner
    by (intro owners_okI) (force split: if_splits)+
  moreover have "entry_ok num ?n key entry" if "map_of (pending_requests c) key = Some entry" for key entry
    using correlator_okD(4)[OF assms that] by (auto simp: entry_ok_def split: pending_request.splits intro: le_SucI)
  ultimately have "correlator_ok num m ?c"
    using correlator_okD(1-3)[OF assms] False fresh
    by (auto simp: correlator_ok_def length_update) (auto simp: entry_ok_def)
  moreover have "ledger_of ?c = ledger_of c"
    using fresh by (auto simp: ledger_of_def client_server_def)
  ultimately show ?thesis using False by (simp add: trackFanout_def Let_def refines_def)
qed

lemma settle_refines:
  assumes "correlator_ok num m c"
  shows "refines num m c (correlator_step num m c (Settle server i))"
proof (cases "i = IdNull \<or> \<not> some_with (map_of (pending_requests c) (idKeyOf num i)) (\<lambda>e. server_of_request e = server)")
  case True
  then show ?thesis
    using assms by (auto simp: settle_def take_request_def refines_same split: option.split)
next
  case False
  then obtain entry where e: "map_of (pending_requests c) (idKeyOf num i) = Some entry"
    "server_of_request entry = server" "i \<noteq> IdNull" by auto
  show ?thesis
  proof (cases entry)
    case (ClientRequest s j p)
    with e refines_answer[OF assms, of i server j p "Answered server i"] show ?thesis
      by (simp add: settle_def take_request_def)
  next
    case (FanoutRequest s j t)
    with e forget_ok[OF assms e(1)] show ?thesis
      by (simp add: settle_def take_request_def refines_def ledger_forget_fanout)
  qed
qed

lemma forgetClient_refines:
  assumes "correlator_ok num m c"
  shows "refines num m c (correlator_step num m c (ForgetClient server i))"
  using assms refines_answer[OF assms, of i server _ _ "Orphaned server i"]
  by (auto simp: forgetClient_def refines_same split: option.split pending_request.split)

lemma drop_entries_refines:
  assumes "correlator_ok num m c" and "wf_map entries"
    and "\<forall>(key, entry) \<in> set entries. map_of (pending_requests c) key = Some entry"
  shows "refines num m c (snd (drop_entries server entries c), map (Orphaned server) (fst (drop_entries server entries c)))"
  using assms
proof (induction server entries c rule: drop_entries.induct)
  case (2 server key entry entries c)
  have here: "map_of (pending_requests c) key = Some entry" using 2(5) by simp
  show ?case
  proof (cases "server_of_request entry = server")
    case False
    with 2 show ?thesis by simp
  next
    case True
    have IH: "refines num m (forget key entry c) (snd (drop_entries server entries (forget key entry c)),
        map (Orphaned server) (fst (drop_entries server entries (forget key entry c))))"
      using 2(4,5) True by (intro 2(2) forget_ok[OF 2(3) here]) (force simp: image_iff)+
    show ?thesis
    proof (cases entry)
      case (ClientRequest s i p)
      then have "key = idKeyOf num i" using correlator_okD(4)[OF 2(3) here] by (simp add: entry_ok_def)
      with True ClientRequest IH ledger_client[OF here[unfolded ClientRequest]] show ?thesis
        by (simp add: refines_def split_beta ledger_forget)
    next
      case (FanoutRequest s i t)
      with True IH here show ?thesis by (simp add: refines_def split_beta ledger_forget_fanout)
    qed
  qed
qed (simp add: refines_same)

lemma dropServer_refines:
  assumes "correlator_ok num m c"
  shows "refines num m c (correlator_step num m c (DropServer server))"
  using drop_entries_refines[OF assms correlator_okD(1)[OF assms], of server] correlator_okD(1)[OF assms]
  by (auto simp: dropServer_def split_beta)

lemma step_refines_ledger: "correlator_ok num m c \<Longrightarrow> refines num m c (correlator_step num m c call)"
  by (cases call) (metis trackClient_refines trackFanout_refines settle_refines dropServer_refines forgetClient_refines)+

interpretation correlator: refined_machine "correlator_step num m" "correlator_ok num m" "ledger_spec num" ledger_of
  using step_refines_ledger by unfold_locales (auto simp: refines_def)

section \<open>Properties\<close>

text \<open>C37. Answers are correlated: whatever members answer, drop out or send unasked, the answers
  forwarded to the agent and the errors it gets instead follow the ledger: each answers one request in
  flight, comes from the member that request was sent to, and is the only answer to it; the requests
  still pending are those the ledger has left.\<close>

theorem correlator_implements_ledger:
  "spec_run (ledger_spec num) Map.empty (snd (run (correlator_step num m) empty_correlator calls)) =
     Some (ledger_of (fst (run (correlator_step num m) empty_correlator calls)))"
  using correlator.run_refines[of num m empty_correlator calls] by simp

text \<open>The tables stay bounded and consistent: at most \<open>maxPending\<close> requests are tracked, and a
  progress token resolves to a member exactly when a client request that owns the token is in flight
  to it.\<close>

lemma correlator_bounded_and_scoped:
  "length (pending_requests (fst (run (correlator_step num m) empty_correlator calls))) \<le> m \<and>
   (progressServerOf num token (fst (run (correlator_step num m) empty_correlator calls)) = Some server \<longleftrightarrow>
     (\<exists>i. map_of (pending_requests (fst (run (correlator_step num m) empty_correlator calls))) (idKeyOf num i) =
        Some (ClientRequest server i (Some (idKeyOf num token)))))"
proof -
  let ?c = "fst (run (correlator_step num m) empty_correlator calls)"
  have ok: "correlator_ok num m ?c" by (rule correlator.run_ok) simp
  have "progressServerOf num token ?c = Some server \<longleftrightarrow>
      (\<exists>key i. map_of (pending_requests ?c) key = Some (ClientRequest server i (Some (idKeyOf num token))))"
    using ownsD[OF correlator_okD(5)[OF ok]] ownedD[OF correlator_okD(5)[OF ok]]
    by (fastforce simp: progressServerOf_def client_server_def split: option.splits pending_request.splits)
  also have "\<dots> \<longleftrightarrow> (\<exists>i. map_of (pending_requests ?c) (idKeyOf num i) =
      Some (ClientRequest server i (Some (idKeyOf num token))))"
    using correlator_okD(4)[OF ok] by (force simp: entry_ok_def)
  finally show ?thesis using correlator_okD(3)[OF ok] by simp
qed

end
