(* ===== verification/Pool_Children.thy ===== *)
theory Pool_Children
  imports Pool_Names Machine
begin

text \<open>
  \<open>pool/children.ts\<close>: the upstream sessions a pool holds, as a machine over what its promises and
  listeners report. Every call of \<open>openOne\<close> is an instance, numbered in order; its local variables
  \<open>isRouted\<close>, \<open>isStarting\<close> and \<open>hasEnded\<close> are the instance's record, and the object identity that
  \<open>isCurrentInstance\<close> compares is the number. \<open>opening\<close> holds the instance whose promise it stores,
  until that promise settles. The deadline, the negotiation itself and closing a child belong to other
  components: what they report comes in as an event.
\<close>

record child_instance =
  ci_server :: jstr
  ci_routed :: bool
  ci_starting :: bool
  ci_ended :: bool
  ci_stateless :: bool

record children =
  ch_table :: "nat route_table"
  ch_opening :: "(jstr \<times> nat) list"
  ch_instances :: "child_instance list"
  ch_closed :: bool

definition createPoolChildren :: children where
  "createPoolChildren = \<lparr>ch_table = emptyRouteTable, ch_opening = [], ch_instances = [], ch_closed = False\<rparr>"

datatype child_effect =
    OpenChild nat jstr
  | AttachRefused jstr jstr
  | Attached jstr nat
  | DetachedEvent jstr jstr
  | ChildMessage jstr bytes
  | ChildRequestDropped jstr rpc_id
  | AbandonStart jstr
  | CloseChild nat bool
  | Negotiate nat

datatype child_event =
    Ensure "jstr list"
  | OpenRefused nat jstr
  | Opened nat
  | Negotiated nat bool
  | NegotiationFailed nat jstr
  | StartClosed nat "jstr option"
  | SourceMessage nat bytes
  | RequestDropped nat rpc_id
  | SourceEnded nat jstr
  | Detach jstr jstr bool
  | CloseAll "jstr list"

definition detachRoute :: "jstr \<Rightarrow> jstr \<Rightarrow> children \<Rightarrow> nat option \<times> children \<times> child_effect list" where
  "detachRoute server reason ch =
     (case routeOf (ch_table ch) server of
        None \<Rightarrow> (None, ch, [])
      | Some n \<Rightarrow> (Some n, ch\<lparr>ch_table := withoutRoute (ch_table ch) server\<rparr>, [DetachedEvent server reason]))"

definition isCurrentInstance :: "children \<Rightarrow> nat \<Rightarrow> bool" where
  "isCurrentInstance ch n \<longleftrightarrow>
     (let inst = ch_instances ch ! n in \<not> ci_routed inst \<or> routeOf (ch_table ch) (ci_server inst) = Some n)"

definition with_instance :: "nat \<Rightarrow> (child_instance \<Rightarrow> child_instance) \<Rightarrow> children \<Rightarrow> children" where
  "with_instance n f ch = ch\<lparr>ch_instances := (ch_instances ch)[n := f (ch_instances ch ! n)]\<rparr>"

text \<open>The promise of \<open>openOne\<close> settles: \<open>finally(() => opening.delete(server))\<close>.\<close>

definition settle_open :: "nat \<Rightarrow> children \<Rightarrow> children" where
  "settle_open n ch = ch\<lparr>ch_opening := AList.delete (ci_server (ch_instances ch ! n)) (ch_opening ch)\<rparr>"

definition startOpen :: "jstr \<Rightarrow> children \<Rightarrow> children \<times> child_effect list" where
  "startOpen server ch =
     (let n = length (ch_instances ch) in
      (ch\<lparr>ch_instances := ch_instances ch @
             [\<lparr>ci_server = server, ci_routed = False, ci_starting = True, ci_ended = False, ci_stateless = False\<rparr>],
          ch_opening := AList.update server n (ch_opening ch)\<rparr>, [OpenChild n server]))"

text \<open>The loop of \<open>ensure\<close>; \<open>reserve\<close> is \<open>reserveChild(held)\<close>, whether it gave a slot.\<close>

fun ensure_servers :: "(nat \<Rightarrow> bool) \<Rightarrow> jstr list \<Rightarrow> children \<Rightarrow> children \<times> child_effect list" where
  "ensure_servers reserve [] ch = (ch, [])"
| "ensure_servers reserve (server # servers) ch =
     (if routeOf (ch_table ch) server \<noteq> None \<or> has_own (ch_opening ch) server then ensure_servers reserve servers ch
      else if \<not> reserve (length (serversOf (ch_table ch)) + length (ch_opening ch))
      then (let (ch', outs) = ensure_servers reserve servers ch in (ch', AttachRefused server (js ''pool-full'') # outs))
      else (let (ch1, outs1) = startOpen server ch; (ch2, outs2) = ensure_servers reserve servers ch1
            in (ch2, outs1 @ outs2)))"

text \<open>A start that failed closes its child first; \<open>StartClosed\<close> is that close being done.\<close>

definition start_failed :: "nat \<Rightarrow> children \<Rightarrow> children \<times> child_effect list" where
  "start_failed n ch = (with_instance n (\<lambda>i. i\<lparr>ci_starting := False\<rparr>) ch, [CloseChild n False])"

fun children_step :: "(nat \<Rightarrow> bool) \<Rightarrow> children \<Rightarrow> child_event \<Rightarrow> children \<times> child_effect list" where
  "children_step reserve ch (Ensure granted) =
     (if ch_closed ch then (ch, []) else ensure_servers reserve granted ch)"
| "children_step reserve ch (OpenRefused n reason) =
     (settle_open n ch, [AttachRefused (ci_server (ch_instances ch ! n)) reason])"
| "children_step reserve ch (Opened n) = (ch, [Negotiate n])"
| "children_step reserve ch (Negotiated n stateless) =
     (if ci_ended (ch_instances ch ! n) \<or> ch_closed ch then start_failed n ch
      else (settle_open n ((with_instance n (\<lambda>i. i\<lparr>ci_starting := False, ci_routed := True, ci_stateless := stateless\<rparr>) ch)
              \<lparr>ch_table := withRoute (ch_table ch) (ci_server (ch_instances ch ! n)) n\<rparr>),
            [Attached (ci_server (ch_instances ch ! n)) n]))"
| "children_step reserve ch (NegotiationFailed n reason) = start_failed n ch"
| "children_step reserve ch (StartClosed n reason) =
     (let failure = (if ci_ended (ch_instances ch ! n) then Some (js ''ended-during-start'') else reason) in
      (settle_open n ch,
       case failure of
         Some r \<Rightarrow> if ch_closed ch then [] else [AttachRefused (ci_server (ch_instances ch ! n)) r]
       | None \<Rightarrow> []))"
| "children_step reserve ch (SourceMessage n body) =
     (ch, if isCurrentInstance ch n then [ChildMessage (ci_server (ch_instances ch ! n)) body] else [])"
| "children_step reserve ch (RequestDropped n i) =
     (ch, if i \<noteq> IdNull \<and> isCurrentInstance ch n
          then [ChildRequestDropped (ci_server (ch_instances ch ! n)) i] else [])"
| "children_step reserve ch (SourceEnded n reason) =
     (let inst = ch_instances ch ! n in
      if \<not> ci_routed inst
      then (if ci_starting inst
            then (with_instance n (\<lambda>i. i\<lparr>ci_ended := True\<rparr>) ch, [AbandonStart (ci_server inst)]) else (ch, []))
      else (case detachRoute (ci_server inst) reason ch of
          (None, ch', outs) \<Rightarrow> (ch', outs)
        | (Some m, ch', outs) \<Rightarrow> (ch', outs @ [CloseChild m False])))"
| "children_step reserve ch (Detach server reason dirty) =
     (case detachRoute server reason ch of
        (None, ch', outs) \<Rightarrow> (ch', outs)
      | (Some m, ch', outs) \<Rightarrow> (ch', outs @ [CloseChild m dirty]))"
| "children_step reserve ch (CloseAll dirty) =
     (ch\<lparr>ch_closed := True, ch_table := emptyRouteTable\<rparr>,
      map (\<lambda>s. CloseChild (the (routeOf (ch_table ch) s)) (s \<in> set dirty)) (serversOf (ch_table ch)))"

section \<open>The invariant\<close>

text \<open>
  An event names an instance that exists, and reports on a start only while it is under way: the
  promises and listeners of an instance are created by that instance.
\<close>

definition under_way :: "children \<Rightarrow> nat \<Rightarrow> bool" where
  "under_way ch n \<longleftrightarrow> n < length (ch_instances ch) \<and>
     map_of (ch_opening ch) (ci_server (ch_instances ch ! n)) = Some n"

fun possible :: "children \<Rightarrow> child_event \<Rightarrow> bool" where
  "possible ch (OpenRefused n reason) \<longleftrightarrow> under_way ch n \<and> ci_starting (ch_instances ch ! n)"
| "possible ch (Opened n) \<longleftrightarrow> under_way ch n \<and> ci_starting (ch_instances ch ! n)"
| "possible ch (Negotiated n stateless) \<longleftrightarrow> under_way ch n \<and> ci_starting (ch_instances ch ! n)"
| "possible ch (NegotiationFailed n reason) \<longleftrightarrow> under_way ch n \<and> ci_starting (ch_instances ch ! n)"
| "possible ch (StartClosed n reason) \<longleftrightarrow> under_way ch n \<and> \<not> ci_starting (ch_instances ch ! n)"
| "possible ch (SourceMessage n body) \<longleftrightarrow> n < length (ch_instances ch)"
| "possible ch (RequestDropped n i) \<longleftrightarrow> n < length (ch_instances ch)"
| "possible ch (SourceEnded n reason) \<longleftrightarrow> n < length (ch_instances ch)"
| "possible ch _ \<longleftrightarrow> True"

inductive reachable :: "(nat \<Rightarrow> bool) \<Rightarrow> children \<Rightarrow> bool" for reserve where
  start: "reachable reserve createPoolChildren"
| step: "reachable reserve ch \<Longrightarrow> possible ch e \<Longrightarrow> reachable reserve (fst (children_step reserve ch e))"

definition children_ok :: "children \<Rightarrow> bool" where
  "children_ok ch \<longleftrightarrow>
     wf_map (ch_table ch) \<and> wf_map (ch_opening ch) \<and>
     (\<forall>s n. map_of (ch_table ch) s = Some n \<longrightarrow>
        n < length (ch_instances ch) \<and> ci_server (ch_instances ch ! n) = s \<and> ci_routed (ch_instances ch ! n)) \<and>
     (\<forall>s n. map_of (ch_opening ch) s = Some n \<longrightarrow>
        n < length (ch_instances ch) \<and> ci_server (ch_instances ch ! n) = s \<and> \<not> ci_routed (ch_instances ch ! n)) \<and>
     (\<forall>s. map_of (ch_opening ch) s \<noteq> None \<longrightarrow> map_of (ch_table ch) s = None) \<and>
     (ch_closed ch \<longrightarrow> ch_table ch = [])"

end
