(* ===== verification/Pool_Children_Safety.thy ===== *)
theory Pool_Children_Safety
  imports Pool_Children
begin

text \<open>
  The routing table of a pool: a server has at most one instance, starting or routed, a closed pool
  stays empty, and only the instance that holds a route is heard once it has been routed.
\<close>

inductive_cases reachable_cases: "reachable reserve ch"

lemma children_okD:
  assumes "children_ok ch"
  shows "wf_map (ch_table ch)" "wf_map (ch_opening ch)"
    "map_of (ch_table ch) s = Some n \<Longrightarrow> n < length (ch_instances ch) \<and> ci_server (ch_instances ch ! n) = s \<and> ci_routed (ch_instances ch ! n)"
    "map_of (ch_opening ch) s = Some n \<Longrightarrow> n < length (ch_instances ch) \<and> ci_server (ch_instances ch ! n) = s \<and> \<not> ci_routed (ch_instances ch ! n)"
    "map_of (ch_opening ch) s = Some n \<Longrightarrow> map_of (ch_table ch) s = None"
    "ch_closed ch \<Longrightarrow> ch_table ch = []"
  using assms unfolding children_ok_def by blast+

lemma routeOf_map_of [simp]: "routeOf table s = map_of table s"
  by (simp add: routeOf_def)

lemma children_okI:
  assumes "wf_map (ch_table ch)" "wf_map (ch_opening ch)"
    "\<And>s n. map_of (ch_table ch) s = Some n \<Longrightarrow> n < length (ch_instances ch) \<and> ci_server (ch_instances ch ! n) = s \<and> ci_routed (ch_instances ch ! n)"
    "\<And>s n. map_of (ch_opening ch) s = Some n \<Longrightarrow> n < length (ch_instances ch) \<and> ci_server (ch_instances ch ! n) = s \<and> \<not> ci_routed (ch_instances ch ! n)"
    "\<And>s n. map_of (ch_opening ch) s = Some n \<Longrightarrow> map_of (ch_table ch) s = None"
    "ch_closed ch \<Longrightarrow> ch_table ch = []"
  shows "children_ok ch"
  using assms unfolding children_ok_def by auto

lemma ok_shrink_table:
  assumes "children_ok ch" and "wf_map t" and "\<And>s n. map_of t s = Some n \<Longrightarrow> map_of (ch_table ch) s = Some n"
    and "ch_closed ch \<or> b \<Longrightarrow> t = []"
  shows "children_ok (ch\<lparr>ch_table := t, ch_closed := ch_closed ch \<or> b\<rparr>)"
proof (rule children_okI)
  fix s n
  show "map_of (ch_table (ch\<lparr>ch_table := t, ch_closed := ch_closed ch \<or> b\<rparr>)) s = None"
    if "map_of (ch_opening (ch\<lparr>ch_table := t, ch_closed := ch_closed ch \<or> b\<rparr>)) s = Some n"
  proof (cases "map_of t s")
    case (Some k)
    then show ?thesis using children_okD(5)[OF assms(1), of s n] assms(3)[of s k] that by simp
  qed simp
qed (use assms children_okD[OF assms(1)] in auto)

lemma detachRoute_ok:
  assumes "children_ok ch"
  shows "children_ok (fst (snd (detachRoute server reason ch)))"
proof (cases "map_of (ch_table ch) server")
  case (Some n)
  have "children_ok (ch\<lparr>ch_table := AList.delete server (ch_table ch), ch_closed := ch_closed ch \<or> False\<rparr>)"
    using children_okD(1,6)[OF assms] by (intro ok_shrink_table[OF assms]) (auto split: if_splits)
  then show ?thesis using Some by (simp add: detachRoute_def withoutRoute_def)
qed (simp add: detachRoute_def assms)

lemma detached_ok: "detachRoute server reason ch = (x, ch', outs) \<Longrightarrow> children_ok ch \<Longrightarrow> children_ok ch'"
  using detachRoute_ok[of ch server reason] by simp

lemma settle_open_ok:
  assumes "children_ok ch"
  shows "children_ok (settle_open n ch)"
  using children_okD[OF assms]
  by (intro children_okI) (auto simp: settle_open_def split: if_splits)

lemma with_instance_ok:
  assumes "children_ok ch" and "\<And>i. ci_server (f i) = ci_server i" and "\<And>i. ci_routed (f i) = ci_routed i"
  shows "children_ok (with_instance n f ch)"
proof -
  have nth: "ch_instances (with_instance n f ch) ! k =
      (if k = n \<and> n < length (ch_instances ch) then f (ch_instances ch ! n) else ch_instances ch ! k)" for k
    by (cases "n < length (ch_instances ch)") (auto simp: with_instance_def list_update_beyond)
  have same: "ci_server (ch_instances (with_instance n f ch) ! k) = ci_server (ch_instances ch ! k)"
    "ci_routed (ch_instances (with_instance n f ch) ! k) = ci_routed (ch_instances ch ! k)" for k
    unfolding nth by (simp_all add: assms(2,3))
  have len: "length (ch_instances (with_instance n f ch)) = length (ch_instances ch)" by (simp add: with_instance_def)
  have rest: "ch_table (with_instance n f ch) = ch_table ch" "ch_opening (with_instance n f ch) = ch_opening ch"
    "ch_closed (with_instance n f ch) = ch_closed ch" by (simp_all add: with_instance_def)
  show ?thesis using assms(1) unfolding children_ok_def rest same len .
qed

lemma startOpen_ok:
  assumes "children_ok ch" and "map_of (ch_table ch) server = None" and "map_of (ch_opening ch) server = None"
  shows "children_ok (fst (startOpen server ch))"
  using children_okD[OF assms(1)] assms(2,3)
  by (intro children_okI)
    (auto simp: startOpen_def Let_def nth_append less_Suc_eq split: if_splits)

lemma ensure_ok: "children_ok ch \<Longrightarrow> children_ok (fst (ensure_servers reserve servers ch))"
proof (induction reserve servers ch rule: ensure_servers.induct)
  case (2 reserve server servers ch)
  then show ?case
    using 2(3)[OF _ _ refl prod.collapse] startOpen_ok[of ch server] by (auto simp: split_beta)
qed simp

lemma attach_ok:
  assumes "children_ok ch" and "under_way ch n" and "\<not> ch_closed ch"
  shows "children_ok (settle_open n ((with_instance n (\<lambda>i. i\<lparr>ci_starting := False, ci_routed := True, ci_stateless := b\<rparr>) ch)
     \<lparr>ch_table := withRoute (ch_table ch) (ci_server (ch_instances ch ! n)) n\<rparr>))" (is "children_ok ?ch")
proof -
  let ?s = "ci_server (ch_instances ch ! n)"
  have n: "n < length (ch_instances ch)" "map_of (ch_opening ch) ?s = Some n" using assms(2) by (simp_all add: under_way_def)
  have inst: "ch_instances ?ch = (ch_instances ch)[n := (ch_instances ch ! n)\<lparr>ci_starting := False, ci_routed := True, ci_stateless := b\<rparr>]"
    and tab: "ch_table ?ch = AList.update ?s n (ch_table ch)"
    and op: "ch_opening ?ch = AList.delete ?s (ch_opening ch)"
    and cl: "ch_closed ?ch = ch_closed ch"
    using n by (simp_all add: settle_open_def with_instance_def withRoute_def)
  note ok = children_okD[OF assms(1)]
  show ?thesis
  proof (rule children_okI)
    fix s k assume "map_of (ch_table ?ch) s = Some k"
    then show "k < length (ch_instances ?ch) \<and> ci_server (ch_instances ?ch ! k) = s \<and> ci_routed (ch_instances ?ch ! k)"
      using ok(3)[of s k] n(1) unfolding inst tab by (cases "k = n") (auto split: if_splits)
  next
    fix s k assume o': "map_of (ch_opening ?ch) s = Some k"
    then have "s \<noteq> ?s" "map_of (ch_opening ch) s = Some k" unfolding op by (auto split: if_splits)
    moreover from this ok(4)[of s k] have "k \<noteq> n" by auto
    ultimately show "k < length (ch_instances ?ch) \<and> ci_server (ch_instances ?ch ! k) = s \<and> \<not> ci_routed (ch_instances ?ch ! k)"
      using ok(4)[of s k] unfolding inst by simp
    show "map_of (ch_table ?ch) s = None"
      using ok(5)[of s k] \<open>s \<noteq> ?s\<close> \<open>map_of (ch_opening ch) s = Some k\<close> unfolding tab by simp
  qed (use ok(1,2) assms(3) in \<open>simp_all add: tab op cl\<close>)
qed

lemma step_ok:
  assumes "children_ok ch" and "possible ch e"
  shows "children_ok (fst (children_step reserve ch e))"
proof (cases e)
  case (CloseAll dirty)
  have "children_ok (ch\<lparr>ch_table := [], ch_closed := ch_closed ch \<or> True\<rparr>)"
    by (intro ok_shrink_table[OF assms(1)]) auto
  moreover have "fst (children_step reserve ch e) = ch\<lparr>ch_table := [], ch_closed := ch_closed ch \<or> True\<rparr>"
    using CloseAll by (cases ch) (simp add: emptyRouteTable_def)
  ultimately show ?thesis by simp
next
  case (Negotiated n b)
  with assms attach_ok[of ch n b] show ?thesis
    by (auto simp: start_failed_def intro: with_instance_ok)
qed (use assms in \<open>auto simp: start_failed_def Let_def intro!: with_instance_ok settle_open_ok ensure_ok
       split: option.split prod.split intro: detached_ok\<close>)

lemma reachable_ok: "reachable reserve ch \<Longrightarrow> children_ok ch"
proof (induction rule: reachable.induct)
  case start
  then show ?case by (simp add: children_ok_def createPoolChildren_def emptyRouteTable_def)
qed (rule step_ok)


definition started :: "child_event list" where
  "started = [Ensure [js ''git''], Opened 0, Negotiated 0 False]"

lemma reachable_run:
  "reachable reserve ch \<Longrightarrow> list_all (\<lambda>k. possible (fst (run (children_step reserve) ch (take k es))) (es ! k)) [0..<length es] \<Longrightarrow>
     reachable reserve (fst (run (children_step reserve) ch es))"
proof (induction es rule: rev_induct)
  case (snoc e es)
  have "list_all (\<lambda>k. possible (fst (run (children_step reserve) ch (take k es))) (es ! k)) [0..<length es]"
    using snoc.prems(2) by (auto simp: list_all_iff nth_append)
  then have "reachable reserve (fst (run (children_step reserve) ch es))" by (rule snoc.IH[OF snoc.prems(1)])
  moreover have "possible (fst (run (children_step reserve) ch es)) e"
    using snoc.prems(2) by (simp add: list_all_iff nth_append)
  ultimately have "reachable reserve (fst (children_step reserve (fst (run (children_step reserve) ch es)) e))"
    by (rule reachable.step)
  then show ?case by (simp add: run_append split_beta)
qed simp


section \<open>Instances that are no longer the member\<close>

text \<open>A predecessor is not heard: once an instance has been routed and another instance, or none,
  holds its server's route, nothing it sends reaches the pool.\<close>

lemma predecessor_not_heard:
  assumes "reachable reserve ch" and "n < length (ch_instances ch)" and "ci_routed (ch_instances ch ! n)"
    and "map_of (ch_table ch) (ci_server (ch_instances ch ! n)) \<noteq> Some n"
  shows "children_step reserve ch (SourceMessage n body) = (ch, []) \<and> children_step reserve ch (RequestDropped n i) = (ch, [])"
  using assms by (simp add: isCurrentInstance_def Let_def)

definition replaced :: "child_event list" where
  "replaced = started @ [Detach (js ''git'') (js ''fanout-timeout'') True, Ensure [js ''git''], Opened 1, Negotiated 1 False]"

lemma predecessor_not_heard_witness:
  "children_step (\<lambda>_. True) (fst (run (children_step (\<lambda>_. True)) createPoolChildren replaced)) (SourceMessage 0 [0x7b]) =
     (fst (run (children_step (\<lambda>_. True)) createPoolChildren replaced), [])"
proof -
  let ?ch = "fst (run (children_step (\<lambda>_. True)) createPoolChildren replaced)"
  have "reachable (\<lambda>_. True) ?ch" by (rule reachable_run[OF reachable.start]) code_simp
  moreover have "0 < length (ch_instances ?ch)" "ci_routed (ch_instances ?ch ! 0)"
    "map_of (ch_table ?ch) (ci_server (ch_instances ?ch ! 0)) \<noteq> Some 0" by code_simp+
  ultimately show ?thesis using predecessor_not_heard by blast
qed

text \<open>A predecessor still ends its successor: the end of a source is not checked as its frames
  are. After a member was detached and its server opened again, the late end of the first session
  takes the route of the second away and closes it.\<close>

lemma late_end_detaches_successor:
  "map_of (ch_table (fst (run (children_step (\<lambda>_. True)) createPoolChildren replaced))) (js ''git'') = Some 1 \<and>
   children_step (\<lambda>_. True) (fst (run (children_step (\<lambda>_. True)) createPoolChildren replaced)) (SourceEnded 0 (js ''child-ended'')) =
     ((fst (run (children_step (\<lambda>_. True)) createPoolChildren replaced))\<lparr>ch_table := []\<rparr>,
      [DetachedEvent (js ''git'') (js ''child-ended''), CloseChild 1 False])"
  by code_simp

end
