(* ===== verification/Agent_Scope.thy ===== *)
theory Agent_Scope
  imports Policy_Match Json Text
begin

text \<open>
  What an agent may reach on a server: \<open>agents/resource-match.ts\<close> (resource URIs against grant
  patterns), \<open>agents/scope.ts\<close> (the grants of an agent record) and \<open>agents/effective.ts\<close> (the grants
  an agent has from its groups). \<open>new URL(raw)\<close> is the runtime's: \<open>parse_url\<close> returns its parts, or
  nothing for a thrown error.
\<close>

section \<open>Percent decoding\<close>

definition hex_value :: "u16 \<Rightarrow> nat option" where
  "hex_value c =
     (if in_range (CHR ''0'') (CHR ''9'') c then Some (unat c - 48)
      else if in_range (CHR ''a'') (CHR ''f'') c then Some (unat c - 87)
      else if in_range (CHR ''A'') (CHR ''F'') c then Some (unat c - 55) else None)"

definition percent :: u16 where
  "percent = unit_of (CHR ''%'')"

text \<open>One \<open>%XX\<close> at the start of the text, and what follows it.\<close>

fun octet :: "jstr \<Rightarrow> (nat \<times> jstr) option" where
  "octet (p # a # b # rest) =
     (if p \<noteq> percent then None
      else case (hex_value a, hex_value b) of (Some h, Some l) \<Rightarrow> Some (16 * h + l, rest) | _ \<Rightarrow> None)"
| "octet _ = None"

fun octets :: "nat \<Rightarrow> jstr \<Rightarrow> (nat list \<times> jstr) option" where
  "octets 0 s = Some ([], s)"
| "octets (Suc n) s =
     (case octet s of None \<Rightarrow> None
      | Some (b, rest) \<Rightarrow> (case octets n rest of None \<Rightarrow> None | Some (bs, rest') \<Rightarrow> Some (b # bs, rest')))"

definition continuation_octet :: "nat \<Rightarrow> bool" where
  "continuation_octet b \<longleftrightarrow> 128 \<le> b \<and> b < 192"

text \<open>How many octets follow the first one of a UTF-8 sequence; \<open>None\<close> for an octet no sequence starts with.\<close>

definition utf8_followers :: "nat \<Rightarrow> nat option" where
  "utf8_followers b = (if b < 128 then Some 0 else if b < 192 then None else if b < 224 then Some 1
     else if b < 240 then Some 2 else if b < 248 then Some 3 else None)"

definition utf8_lead_bits :: "nat \<Rightarrow> nat \<Rightarrow> nat" where
  "utf8_lead_bits n b = (if n = 0 then b else if n = 1 then b - 192 else if n = 2 then b - 224 else b - 240)"

definition utf8_least :: "nat \<Rightarrow> nat" where
  "utf8_least n = (if n = 0 then 0 else if n = 1 then 0x80 else if n = 2 then 0x800 else 0x10000)"

definition utf8_code_point_of :: "nat \<Rightarrow> nat list \<Rightarrow> nat option" where
  "utf8_code_point_of b bs =
     (let n = length bs; v = foldl (\<lambda>a c. 64 * a + (c - 128)) (utf8_lead_bits n b) bs in
      if list_all continuation_octet bs \<and> utf8_least n \<le> v \<and> v \<le> 0x10ffff \<and> \<not> (0xd800 \<le> v \<and> v \<le> 0xdfff)
      then Some v else None)"

definition code_point_units :: "nat \<Rightarrow> jstr" where
  "code_point_units v =
     (if v < 0x10000 then [word_of_nat v]
      else [word_of_nat (0xd800 + (v - 0x10000) div 0x400), word_of_nat (0xdc00 + (v - 0x10000) mod 0x400)])"

text \<open>A percent-encoded character at the start of the text.\<close>

definition encoded_char :: "jstr \<Rightarrow> (jstr \<times> jstr) option" where
  "encoded_char s =
     (case octet s of None \<Rightarrow> None
      | Some (b, rest) \<Rightarrow>
          (case utf8_followers b of None \<Rightarrow> None
           | Some n \<Rightarrow>
               (case octets n rest of None \<Rightarrow> None
                | Some (bs, rest') \<Rightarrow> map_option (\<lambda>v. (code_point_units v, rest')) (utf8_code_point_of b bs))))"

lemma octet_shorter: "octet s = Some (b, rest) \<Longrightarrow> length rest < length s"
  by (cases s rule: octet.cases) (auto split: if_splits option.splits)

lemma octets_shorter: "octets n s = Some (bs, rest) \<Longrightarrow> length rest \<le> length s"
  by (induction n arbitrary: s bs rest) (fastforce split: option.splits dest: octet_shorter)+

lemma encoded_char_shorter: "encoded_char s = Some (us, rest) \<Longrightarrow> length rest < length s"
  by (auto simp: encoded_char_def split: option.splits dest!: octet_shorter octets_shorter)

text \<open>\<open>decodeURIComponent\<close>; \<open>None\<close> is the \<open>URIError\<close> it throws.\<close>

function decodeURIComponent :: "jstr \<Rightarrow> jstr option" where
  "decodeURIComponent [] = Some []"
| "decodeURIComponent (c # s) =
     (if c \<noteq> percent then map_option ((#) c) (decodeURIComponent s)
      else case encoded_char (c # s) of None \<Rightarrow> None
        | Some (us, rest) \<Rightarrow> map_option ((@) us) (decodeURIComponent rest))"
  by pat_completeness auto
termination
  by (relation "measure length") (auto dest: encoded_char_shorter)

section \<open>Resource URIs\<close>

record url_parts =
  up_protocol :: jstr
  up_host :: jstr
  up_pathname :: jstr
  up_search :: jstr
  up_hash :: jstr

abbreviation slash :: u16 where "slash \<equiv> unit_of (CHR 0x2f)"
abbreviation backslash :: u16 where "backslash \<equiv> unit_of (CHR 0x5c)"

definition decode_segment :: "jstr \<Rightarrow> jstr option" where
  "decode_segment segment =
     (case decodeURIComponent segment of None \<Rightarrow> None
      | Some decoded \<Rightarrow>
          if decoded = js ''.'' \<or> decoded = js ''..'' then None
          else if slash \<in> set decoded \<or> backslash \<in> set decoded then None else Some decoded)"

fun decode_segments :: "jstr list \<Rightarrow> jstr list option" where
  "decode_segments [] = Some []"
| "decode_segments (s # ss) =
     (case decode_segment s of None \<Rightarrow> None | Some d \<Rightarrow> map_option ((#) d) (decode_segments ss))"

definition decodePathOnce :: "jstr \<Rightarrow> jstr option" where
  "decodePathOnce pathname = map_option (join_with [slash]) (decode_segments (split_on slash pathname))"

definition normalizeResourceUri :: "(jstr \<Rightarrow> url_parts option) \<Rightarrow> jstr \<Rightarrow> jstr option" where
  "normalizeResourceUri parse_url raw =
     (case parse_url raw of None \<Rightarrow> None
      | Some u \<Rightarrow>
          (case decodePathOnce (up_pathname u) of None \<Rightarrow> None
           | Some path \<Rightarrow>
               if up_host u = [] \<and> \<not> prefix [slash] (up_pathname u)
               then Some (up_protocol u @ path @ up_search u @ up_hash u)
               else Some (up_protocol u @ js ''//'' @ up_host u @ path @ up_search u @ up_hash u)))"

datatype compiled_pattern = Exact jstr | PrefixOf jstr jstr

definition compilePattern :: "(jstr \<Rightarrow> url_parts option) \<Rightarrow> jstr \<Rightarrow> compiled_pattern option" where
  "compilePattern parse_url pattern =
     (if \<not> ends_with_star pattern then map_option Exact (normalizeResourceUri parse_url pattern)
      else map_option
        (\<lambda>base. let exact = (if suffix [slash] base then butlast base else base) in PrefixOf exact (exact @ [slash]))
        (normalizeResourceUri parse_url (butlast pattern)))"

fun matches_compiled :: "jstr \<Rightarrow> compiled_pattern \<Rightarrow> bool" where
  "matches_compiled normalized (Exact v) \<longleftrightarrow> normalized = v"
| "matches_compiled normalized (PrefixOf exact with_slash) \<longleftrightarrow> normalized = exact \<or> prefix with_slash normalized"

definition resourceUriMatcher :: "(jstr \<Rightarrow> url_parts option) \<Rightarrow> jstr list \<Rightarrow> jstr \<Rightarrow> bool" where
  "resourceUriMatcher parse_url patterns uri =
     (case normalizeResourceUri parse_url uri of None \<Rightarrow> False
      | Some normalized \<Rightarrow> list_ex (matches_compiled normalized) (List.map_filter (compilePattern parse_url) patterns))"

section \<open>The grants of an agent\<close>

datatype pattern_list = AnyName | Names "jstr list"

datatype file_op = FileRead | FileWrite | FileEdit | FileDelete

record file_rule =
  fl_path :: jstr
  fl_ops :: "file_op list"
  fl_identity :: "(jstr \<times> jstr) option"

record agent_grant =
  gr_tools :: pattern_list
  gr_resources :: "pattern_list option"
  gr_prompts :: "pattern_list option"
  gr_paths :: "file_rule list option"

record agent_record =
  ag_name :: jstr
  ag_created_at :: jstr
  ag_revoked_at :: "jstr option"
  ag_grants :: "(jstr \<times> agent_grant) list"

datatype grant_rules = AllGranted | NoneGranted | Rules "(jstr \<times> unit) list"

datatype pattern_field = ToolsField | ResourcesField | PromptsField

fun grant_field :: "pattern_field \<Rightarrow> agent_grant \<Rightarrow> pattern_list option" where
  "grant_field ToolsField g = Some (gr_tools g)"
| "grant_field ResourcesField g = gr_resources g"
| "grant_field PromptsField g = gr_prompts g"

definition from_entries :: "jstr list \<Rightarrow> (jstr \<times> unit) list" where
  "from_entries ps = foldl (\<lambda>m p. AList.update p () m) [] ps"

definition resolveGrantRules :: "agent_record \<Rightarrow> jstr \<Rightarrow> pattern_field \<Rightarrow> grant_rules" where
  "resolveGrantRules agent server field =
     (if ag_revoked_at agent \<noteq> None then NoneGranted
      else case Option.bind (map_of (ag_grants agent) server) (grant_field field) of
        None \<Rightarrow> NoneGranted
      | Some AnyName \<Rightarrow> AllGranted
      | Some (Names ps) \<Rightarrow> if ps = [] then NoneGranted else Rules (from_entries ps))"

fun grantedBy :: "grant_rules \<Rightarrow> jstr \<Rightarrow> bool" where
  "grantedBy AllGranted subject \<longleftrightarrow> True"
| "grantedBy NoneGranted subject \<longleftrightarrow> False"
| "grantedBy (Rules rs) subject \<longleftrightarrow> matchToolRule (Some rs) subject \<noteq> None"

fun resourceGrantedBy :: "(jstr \<Rightarrow> url_parts option) \<Rightarrow> grant_rules \<Rightarrow> jstr \<Rightarrow> bool" where
  "resourceGrantedBy parse_url AllGranted uri \<longleftrightarrow> True"
| "resourceGrantedBy parse_url NoneGranted uri \<longleftrightarrow> False"
| "resourceGrantedBy parse_url (Rules rs) uri \<longleftrightarrow> resourceUriMatcher parse_url (keys rs) uri"

record method_grants =
  mg_resource_granted :: "jstr \<Rightarrow> bool"
  mg_prompt_granted :: "jstr \<Rightarrow> bool"
  mg_has_resources :: bool
  mg_has_prompts :: bool

record agent_scope =
  as_granted :: "jstr \<Rightarrow> bool"
  as_methods :: method_grants

definition agentScope :: "(jstr \<Rightarrow> url_parts option) \<Rightarrow> agent_record \<Rightarrow> jstr \<Rightarrow> agent_scope" where
  "agentScope parse_url agent server =
     (let resource_rules = resolveGrantRules agent server ResourcesField;
          prompt_rules = resolveGrantRules agent server PromptsField
      in \<lparr>as_granted = grantedBy (resolveGrantRules agent server ToolsField),
          as_methods = \<lparr>mg_resource_granted = resourceGrantedBy parse_url resource_rules,
            mg_prompt_granted = grantedBy prompt_rules,
            mg_has_resources = (resource_rules \<noteq> NoneGranted),
            mg_has_prompts = (prompt_rules \<noteq> NoneGranted)\<rparr>\<rparr>)"

definition filterVisible :: "agent_scope \<Rightarrow> jstr list \<Rightarrow> jstr list" where
  "filterVisible scope tools = filter (as_granted scope) tools"

section \<open>Grants inherited from groups\<close>

record group_record =
  gp_name :: jstr
  gp_members :: "jstr list"
  gp_grants :: "(jstr \<times> agent_grant) list"

datatype grant_source = AgentSource "jstr list" | GroupSource "jstr list"

text \<open>The set of names collected so far; a star ends the loop.\<close>

fun union_values :: "pattern_list list \<Rightarrow> jstr list \<Rightarrow> pattern_list" where
  "union_values [] names = Names (sort_unique names)"
| "union_values (AnyName # vs) names = AnyName"
| "union_values (Names ps # vs) names = union_values vs (names @ ps)"

definition unionValues :: "pattern_list list \<Rightarrow> pattern_list" where
  "unionValues values = union_values values []"

definition unionOptional :: "agent_grant list \<Rightarrow> (agent_grant \<Rightarrow> pattern_list option) \<Rightarrow> pattern_list option" where
  "unionOptional grants field =
     (let declared = List.map_filter field grants in if declared = [] then None else Some (unionValues declared))"

definition file_ops :: "file_op list" where
  "file_ops = [FileRead, FileWrite, FileEdit, FileDelete]"

fun file_op_str :: "file_op \<Rightarrow> jstr" where
  "file_op_str FileRead = js ''read''"
| "file_op_str FileWrite = js ''write''"
| "file_op_str FileEdit = js ''edit''"
| "file_op_str FileDelete = js ''delete''"

definition normalizedRule :: "file_rule \<Rightarrow> file_rule" where
  "normalizedRule rule = rule\<lparr>fl_ops := filter (\<lambda>op. op \<in> set (fl_ops rule)) file_ops\<rparr>"

definition path_rule_key :: "file_rule \<Rightarrow> jstr" where
  "path_rule_key rule = fl_path rule @ [0] @ join_with (js '','') (map file_op_str (fl_ops rule)) @ [0]
     @ (case fl_identity rule of None \<Rightarrow> [] | Some (dev, ino) \<Rightarrow> ino)"

definition unionPaths :: "agent_grant list \<Rightarrow> file_rule list option" where
  "unionPaths grants =
     (let declared = List.map_filter gr_paths grants in
      if declared = [] then None
      else let keyed = foldl (\<lambda>m rule. AList.update (path_rule_key rule) rule m) [] (map normalizedRule (concat declared))
        in Some (map snd (sort_key fst keyed)))"

definition mergeGrants :: "agent_grant list \<Rightarrow> agent_grant" where
  "mergeGrants grants = \<lparr>gr_tools = unionValues (map gr_tools grants), gr_resources = unionOptional grants gr_resources,
     gr_prompts = unionOptional grants gr_prompts, gr_paths = unionPaths grants\<rparr>"

type_synonym collected = "(jstr \<times> jstr list \<times> agent_grant list) list"

definition collect_grant :: "jstr \<Rightarrow> collected \<Rightarrow> jstr \<times> agent_grant \<Rightarrow> collected" where
  "collect_grant gname byServer entry =
     (let (server, grant) = entry;
          (groups, grants) = (case map_of byServer server of Some e \<Rightarrow> e | None \<Rightarrow> ([], []))
      in AList.update server (groups @ [gname], grants @ [grant]) byServer)"

definition collectGroupGrants :: "jstr \<Rightarrow> group_record list \<Rightarrow> collected" where
  "collectGroupGrants agent groups =
     foldl (\<lambda>m g. if agent \<notin> set (gp_members g) then m else foldl (collect_grant (gp_name g)) m (gp_grants g)) [] groups"

record effective_grants =
  eg_grants :: "(jstr \<times> agent_grant) list"
  eg_sources :: "(jstr \<times> grant_source) list"

definition effectiveGrantsOf :: "agent_record \<Rightarrow> group_record list \<Rightarrow> effective_grants" where
  "effectiveGrantsOf agent groups =
     (let byServer = collectGroupGrants (ag_name agent) groups;
          own = map (\<lambda>server. (server, AgentSource (case map_of byServer server of Some (gs, _) \<Rightarrow> gs | None \<Rightarrow> [])))
                  (keys (ag_grants agent));
          others = filter (\<lambda>(server, _). \<not> has_own (ag_grants agent) server) byServer;
          inherited = map (\<lambda>(server, gs, grants). (server, mergeGrants grants)) others
      in \<lparr>eg_grants = (if inherited = [] then ag_grants agent else ag_grants agent @ inherited),
          eg_sources = own @ map (\<lambda>(server, gs, grants). (server, GroupSource gs)) others\<rparr>)"

definition materializeAgent :: "agent_record \<Rightarrow> group_record list \<Rightarrow> agent_record" where
  "materializeAgent agent groups = agent\<lparr>ag_grants := eg_grants (effectiveGrantsOf agent groups)\<rparr>"

end
