(* ===== verification/Agent_Scope_Safety.thy ===== *)
theory Agent_Scope_Safety
  imports Agent_Scope
begin

text \<open>
  What the grants of an agent let through: a resource grant reaches nothing outside its pattern, and an
  agent's effective grants are its own for a server it has any for, and otherwise its groups' together.
\<close>

section \<open>Resource patterns\<close>

text \<open>The segments of a path are plain: no dot segment and no separator in any of them.\<close>

definition plain_segments :: "jstr \<Rightarrow> bool" where
  "plain_segments path \<longleftrightarrow>
     (\<forall>s \<in> set (split_on slash path). s \<noteq> js ''.'' \<and> s \<noteq> js ''..'' \<and> backslash \<notin> set s)"

lemma decode_segments_plain:
  "decode_segments ss = Some ds \<Longrightarrow> length ds = length ss \<and>
     (\<forall>d \<in> set ds. d \<noteq> js ''.'' \<and> d \<noteq> js ''..'' \<and> slash \<notin> set d \<and> backslash \<notin> set d)"
  by (induction ss arbitrary: ds) (auto simp: decode_segment_def split: option.splits if_splits)

lemma decodePathOnce_plain: "decodePathOnce p = Some path \<Longrightarrow> plain_segments path"
proof -
  assume "decodePathOnce p = Some path"
  then obtain ds where ds: "decode_segments (split_on slash p) = Some ds" and path: "path = join_with [slash] ds"
    by (auto simp: decodePathOnce_def)
  have "ds \<noteq> []" using decode_segments_plain[OF ds] by auto
  then have "split_on slash path = ds"
    using decode_segments_plain[OF ds] by (auto simp: path intro!: split_join)
  then show ?thesis using decode_segments_plain[OF ds] by (auto simp: plain_segments_def)
qed

text \<open>\<open>normal\<close> is the canonical text of a URI: its parts around a path with plain segments.\<close>

definition canonical_uri :: "(jstr \<Rightarrow> url_parts option) \<Rightarrow> jstr \<Rightarrow> jstr \<Rightarrow> bool" where
  "canonical_uri parse_url uri normal \<longleftrightarrow>
     normalizeResourceUri parse_url uri = Some normal \<and>
     some_with (parse_url uri) (\<lambda>u. some_with (decodePathOnce (up_pathname u)) (\<lambda>path.
       plain_segments path \<and>
       (normal = up_protocol u @ path @ up_search u @ up_hash u
        \<or> normal = up_protocol u @ js ''//'' @ up_host u @ path @ up_search u @ up_hash u)))"

lemma normalize_canonical: "normalizeResourceUri parse_url uri = Some n \<Longrightarrow> canonical_uri parse_url uri n"
  by (auto simp: canonical_uri_def normalizeResourceUri_def decodePathOnce_plain split: option.splits if_splits)

definition without_trailing_slash :: "jstr \<Rightarrow> jstr" where
  "without_trailing_slash s = (if suffix [slash] s then butlast s else s)"


definition sample_url :: "jstr \<Rightarrow> url_parts option" where
  "sample_url raw =
     (if prefix (js ''file://'') raw
      then Some \<lparr>up_protocol = js ''file:'', up_host = [], up_pathname = drop 7 raw, up_search = [], up_hash = []\<rparr>
      else None)"


lemma traversal_refused:
  "\<not> resourceUriMatcher sample_url [js ''file:///work/*''] (js ''file:///work/%2e%2e/etc'')"
  "\<not> resourceUriMatcher sample_url [js ''file:///work/*''] (js ''file:///work/..%2fetc'')"
  "\<not> resourceUriMatcher sample_url [js ''file:///work*''] (js ''file:///work-evil'')"
  by code_simp+

section \<open>Effective grants\<close>

text \<open>A value of a grant covers a name.\<close>

fun covers :: "pattern_list \<Rightarrow> jstr \<Rightarrow> bool" where
  "covers AnyName t \<longleftrightarrow> True"
| "covers (Names ps) t \<longleftrightarrow> (\<exists>p \<in> set ps. p = t \<or> glob_covers t p)"

lemma keys_from_entries: "set (map fst (from_entries ps)) = set ps"
proof -
  have "set (map fst (foldl (\<lambda>m p. AList.update p () m) m0 ps)) = set (map fst m0) \<union> set ps" for m0
    by (induction ps arbitrary: m0) (auto simp: dom_update)
  then show ?thesis by (simp add: from_entries_def)
qed

lemma matchToolRule_from_entries:
  "matchToolRule (Some (from_entries ps)) t \<noteq> None \<longleftrightarrow> covers (Names ps) t"
proof -
  have "fst ` set (from_entries ps) = set ps" using keys_from_entries[of ps] by simp
  then show ?thesis by (simp add: matchToolRule_None_iff some_rule_def)
qed

lemma grantedBy_names: "grantedBy (if ps = [] then NoneGranted else Rules (from_entries ps)) t \<longleftrightarrow> covers (Names ps) t"
  using matchToolRule_from_entries[of ps t] by simp

lemma covers_union_values: "covers (union_values vs names) t \<longleftrightarrow> covers (Names names) t \<or> (\<exists>v \<in> set vs. covers v t)"
  by (induction vs names rule: union_values.induct) auto

lemma covers_unionValues: "covers (unionValues vs) t \<longleftrightarrow> (\<exists>v \<in> set vs. covers v t)"
  by (simp add: unionValues_def covers_union_values)

lemma gr_tools_merge [simp]: "covers (gr_tools (mergeGrants gs)) t \<longleftrightarrow> (\<exists>g \<in> set gs. covers (gr_tools g) t)"
  by (simp add: mergeGrants_def covers_unionValues)

lemma grantedBy_resolve:
  "grantedBy (resolveGrantRules agent server field) t \<longleftrightarrow>
     ag_revoked_at agent = None \<and>
     some_with (map_of (ag_grants agent) server) (\<lambda>g. some_with (grant_field field g) (\<lambda>v. covers v t))"
proof (cases "Option.bind (map_of (ag_grants agent) server) (grant_field field)")
  case None
  then show ?thesis
    by (cases "map_of (ag_grants agent) server") (simp_all add: resolveGrantRules_def)
next
  case (Some v)
  then show ?thesis
    by (cases v) (auto simp: resolveGrantRules_def bind_eq_Some_conv grantedBy_names simp del: covers.simps(2))
qed

text \<open>The grants collected for a server, in the order they come.\<close>

definition server_grants :: "jstr \<Rightarrow> (jstr \<times> agent_grant) list \<Rightarrow> agent_grant list" where
  "server_grants server gs = map snd (filter (\<lambda>e. fst e = server) gs)"

definition collected_grants :: "collected \<Rightarrow> jstr \<Rightarrow> agent_grant list" where
  "collected_grants m server = (case map_of m server of None \<Rightarrow> [] | Some e \<Rightarrow> snd e)"

lemma collect_grant_grants:
  "collected_grants (collect_grant g m e) server = collected_grants m server @ server_grants server [e]"
  by (cases e) (auto simp: collect_grant_def collected_grants_def server_grants_def split: option.splits)

lemma collect_group_grants:
  "collected_grants (foldl (collect_grant g) m es) server = collected_grants m server @ server_grants server es"
  by (induction es arbitrary: m) (auto simp: collect_grant_grants server_grants_def)

lemma collectGroupGrants_grants:
  "collected_grants (collectGroupGrants agent groups) server =
     concat (map (\<lambda>g. server_grants server (gp_grants g)) (filter (\<lambda>g. agent \<in> set (gp_members g)) groups))"
proof -
  have "collected_grants (foldl (\<lambda>m g. if agent \<notin> set (gp_members g) then m
      else foldl (collect_grant (gp_name g)) m (gp_grants g)) m0 groups) server =
     collected_grants m0 server @
       concat (map (\<lambda>g. server_grants server (gp_grants g)) (filter (\<lambda>g. agent \<in> set (gp_members g)) groups))" for m0
    by (induction groups arbitrary: m0) (simp_all add: collect_group_grants)
  from this[of "[]"] show ?thesis by (simp add: collectGroupGrants_def collected_grants_def)
qed

lemma wf_collect_grant: "wf_map m \<Longrightarrow> wf_map (collect_grant g m e)"
  by (auto simp: collect_grant_def split: prod.splits)

lemma wf_collectGroupGrants: "wf_map (collectGroupGrants agent groups)"
proof -
  have step: "wf_map m \<Longrightarrow> wf_map (foldl (collect_grant g) m es)" for m es g
    by (induction es arbitrary: m) (simp_all add: wf_collect_grant)
  have "wf_map m \<Longrightarrow> wf_map (foldl (\<lambda>m g. if agent \<notin> set (gp_members g) then m
      else foldl (collect_grant (gp_name g)) m (gp_grants g)) m groups)" for m
    by (induction groups arbitrary: m) (simp_all add: step)
  then show ?thesis by (simp add: collectGroupGrants_def)
qed

definition inherited_grants :: "agent_record \<Rightarrow> group_record list \<Rightarrow> (jstr \<times> agent_grant) list" where
  "inherited_grants agent groups =
     map (\<lambda>(server, gs, grants). (server, mergeGrants grants))
       (filter (\<lambda>(server, _). \<not> has_own (ag_grants agent) server) (collectGroupGrants (ag_name agent) groups))"

lemma effective_grants_append:
  "ag_grants (materializeAgent agent groups) = ag_grants agent @ inherited_grants agent groups"
  by (simp add: materializeAgent_def effectiveGrantsOf_def Let_def inherited_grants_def)

lemma map_of_inherited:
  "map_of (inherited_grants agent groups) server =
     (if has_own (ag_grants agent) server then None
      else map_option (\<lambda>(gs, grants). mergeGrants grants) (map_of (collectGroupGrants (ag_name agent) groups) server))"
proof -
  have "map_of (map (\<lambda>(server, gs, grants). (server, mergeGrants grants))
       (filter (\<lambda>(server, _). \<not> has_own (ag_grants agent) server) m)) server =
     (if has_own (ag_grants agent) server then None
      else map_option (\<lambda>(gs, grants). mergeGrants grants) (map_of m server))" for m :: collected
    by (induction m) auto
  then show ?thesis by (simp add: inherited_grants_def)
qed

lemma effective_grant:
  "map_of (ag_grants (materializeAgent agent groups)) server =
     (case map_of (ag_grants agent) server of Some g \<Rightarrow> Some g
      | None \<Rightarrow> map_option (\<lambda>(gs, grants). mergeGrants grants) (map_of (collectGroupGrants (ag_name agent) groups) server))"
  by (simp add: effective_grants_append map_of_append map_add_def map_of_inherited split: option.splits)

text \<open>C10. What an agent may call is decided by its own grants for a server if it has any there, and
  otherwise by the grants of the groups it is a member of, taken together: a tool is granted exactly when
  one of those covers its name, and a revoked agent is granted nothing. A group never widens a server the
  agent has a grant of its own for.\<close>

theorem effective_tool_granted_iff:
  "as_granted (agentScope parse_url (materializeAgent agent groups) server) tool \<longleftrightarrow>
     ag_revoked_at agent = None \<and>
     (case map_of (ag_grants agent) server of
        Some own \<Rightarrow> covers (gr_tools own) tool
      | None \<Rightarrow> \<exists>gp \<in> set groups. ag_name agent \<in> set (gp_members gp) \<and>
          (\<exists>g. (server, g) \<in> set (gp_grants gp) \<and> covers (gr_tools g) tool))"
proof -
  have scope: "as_granted (agentScope parse_url a server) tool \<longleftrightarrow>
      ag_revoked_at a = None \<and> some_with (map_of (ag_grants a) server) (\<lambda>g. covers (gr_tools g) tool)" for a
    by (simp add: agentScope_def Let_def grantedBy_resolve)
  have revoked: "ag_revoked_at (materializeAgent agent groups) = ag_revoked_at agent"
    by (simp add: materializeAgent_def)
  have merged: "(\<exists>g \<in> set (collected_grants (collectGroupGrants (ag_name agent) groups) server). covers (gr_tools g) tool)
     \<longleftrightarrow> (\<exists>gp \<in> set groups. ag_name agent \<in> set (gp_members gp) \<and>
          (\<exists>g. (server, g) \<in> set (gp_grants gp) \<and> covers (gr_tools g) tool))"
    by (fastforce simp: collectGroupGrants_grants server_grants_def)
  have "some_with (map_option (\<lambda>(gs, grants). mergeGrants grants)
        (map_of (collectGroupGrants (ag_name agent) groups) server)) (\<lambda>g. covers (gr_tools g) tool)
     \<longleftrightarrow> (\<exists>g \<in> set (collected_grants (collectGroupGrants (ag_name agent) groups) server). covers (gr_tools g) tool)"
    by (cases "map_of (collectGroupGrants (ag_name agent) groups) server") (auto simp: collected_grants_def)
  with merged scope revoked show ?thesis
    by (cases "map_of (ag_grants agent) server") (simp_all add: effective_grant)
qed

section \<open>Observations\<close>

text \<open>
  The key two folder rules are told apart by holds the inode of a cut-out and not its device, so one of
  two cut-outs of the same path with the same inode on different devices is lost.
\<close>

lemma cutouts_same_inode_collapse:
  "unionPaths
     [\<lparr>gr_tools = AnyName, gr_resources = None, gr_prompts = None,
        gr_paths = Some [\<lparr>fl_path = js ''/a'', fl_ops = [], fl_identity = Some (js ''1'', js ''7'')\<rparr>]\<rparr>,
      \<lparr>gr_tools = AnyName, gr_resources = None, gr_prompts = None,
        gr_paths = Some [\<lparr>fl_path = js ''/a'', fl_ops = [], fl_identity = Some (js ''2'', js ''7'')\<rparr>]\<rparr>]
   = Some [\<lparr>fl_path = js ''/a'', fl_ops = [], fl_identity = Some (js ''2'', js ''7'')\<rparr>]"
  by code_simp

text \<open>
  An encoded delimiter of a path is decoded in place, so a URI whose path holds \<open>%3F\<close> has the canonical
  form of the URI with a query.
\<close>

lemma encoded_query_collides:
  assumes "parse_url u = Some \<lparr>up_protocol = js ''https:'', up_host = js ''h'', up_pathname = js ''/a%3Fx'', up_search = [], up_hash = []\<rparr>"
    and "parse_url v = Some \<lparr>up_protocol = js ''https:'', up_host = js ''h'', up_pathname = js ''/a'', up_search = js ''?x'', up_hash = []\<rparr>"
  shows "normalizeResourceUri parse_url u = normalizeResourceUri parse_url v"
proof -
  have "decodePathOnce (js ''/a%3Fx'') = Some (js ''/a?x'')" "decodePathOnce (js ''/a'') = Some (js ''/a'')"
    by code_simp+
  then show ?thesis using assms by (simp add: normalizeResourceUri_def js_append)
qed

end
