(* ===== verification/Method_Grants.thy ===== *)
theory Method_Grants
  imports Agent_Scope Policy_Types Protocol
begin

text \<open>
  \<open>agents/method-grants.ts\<close>: which methods outside \<open>tools/call\<close> a grant covers, the decision on one
  frame, and the filter of a list response.
\<close>

datatype list_kind = ResourcesList | PromptsList

datatype method_check = CheckUri | CheckName | CheckList list_kind | CheckCompletion

record method_spec =
  ms_class :: tool_class
  ms_check :: method_check

definition grant_managed_methods :: "(jstr \<times> method_spec) list" where
  "grant_managed_methods =
     [(js ''resources/read'', \<lparr>ms_class = ReadClass, ms_check = CheckUri\<rparr>),
      (js ''resources/list'', \<lparr>ms_class = ReadClass, ms_check = CheckList ResourcesList\<rparr>),
      (js ''resources/subscribe'', \<lparr>ms_class = WriteClass, ms_check = CheckUri\<rparr>),
      (js ''resources/unsubscribe'', \<lparr>ms_class = WriteClass, ms_check = CheckUri\<rparr>),
      (js ''prompts/get'', \<lparr>ms_class = ReadClass, ms_check = CheckName\<rparr>),
      (js ''prompts/list'', \<lparr>ms_class = ReadClass, ms_check = CheckList PromptsList\<rparr>),
      (js ''completion/complete'', \<lparr>ms_class = ReadClass, ms_check = CheckCompletion\<rparr>)]"

datatype fallback_reason = NoGrant | OutsideVocabulary

record decided_method =
  dm_rule :: jstr
  dm_class :: tool_class
  dm_params :: "json option"

datatype method_outcome =
    MethodFallback fallback_reason
  | MethodDeny decided_method
  | MethodForward decided_method "list_kind option"

definition paramsOf :: "(jstr \<Rightarrow> json option) \<Rightarrow> jstr \<Rightarrow> json option" where
  "paramsOf parse raw =
     (case try_parse_object parse raw of None \<Rightarrow> None | Some o' \<Rightarrow> get_prop o' (js ''params''))"

definition grantedRuleOf :: "jstr \<Rightarrow> jstr" where
  "grantedRuleOf m = js ''agent: method granted: '' @ m"

definition malformedDeny :: "jstr \<Rightarrow> json option \<Rightarrow> method_outcome" where
  "malformedDeny m params = MethodDeny \<lparr>dm_rule = js ''agent: malformed method params: '' @ m,
     dm_class = DestructiveClass, dm_params = params\<rparr>"

fun list_kind_str :: "list_kind \<Rightarrow> jstr" where
  "list_kind_str ResourcesList = js ''resources''"
| "list_kind_str PromptsList = js ''prompts''"

fun hasListGrant :: "method_grants \<Rightarrow> list_kind \<Rightarrow> bool" where
  "hasListGrant g ResourcesList = mg_has_resources g"
| "hasListGrant g PromptsList = mg_has_prompts g"

fun listItemPredicate :: "method_grants \<Rightarrow> list_kind \<Rightarrow> jstr \<Rightarrow> bool" where
  "listItemPredicate g ResourcesList = mg_resource_granted g"
| "listItemPredicate g PromptsList = mg_prompt_granted g"

definition no_grant_for :: "list_kind \<Rightarrow> jstr \<Rightarrow> jstr" where
  "no_grant_for kind subject = js ''agent: no '' @ list_kind_str kind @ js '' grant for '' @ subject"

definition decideSubject ::
  "(jstr \<Rightarrow> json option) \<Rightarrow> jstr \<Rightarrow> jstr \<Rightarrow> tool_class \<Rightarrow> bool \<Rightarrow> jstr \<Rightarrow> list_kind \<Rightarrow> (jstr \<Rightarrow> bool) \<Rightarrow> method_outcome" where
  "decideSubject parse m raw cls has_grant field kind granted =
     (if \<not> has_grant then MethodFallback NoGrant
      else let params = paramsOf parse raw in
        case as_str (case as_obj params of None \<Rightarrow> None | Some ps \<Rightarrow> get_prop ps field) of
          None \<Rightarrow> malformedDeny m params
        | Some subject \<Rightarrow>
            if granted subject
            then MethodForward \<lparr>dm_rule = grantedRuleOf m, dm_class = cls, dm_params = params\<rparr> None
            else MethodDeny \<lparr>dm_rule = no_grant_for kind subject, dm_class = cls, dm_params = params\<rparr>)"

definition completionSubjectOf :: "json option \<Rightarrow> (list_kind \<times> jstr) option" where
  "completionSubjectOf ref =
     (case as_obj ref of None \<Rightarrow> None
      | Some ps \<Rightarrow>
          (let kind = as_str (get_prop ps (js ''type''));
               name = as_str (get_prop ps (js ''name'')); uri = as_str (get_prop ps (js ''uri''))
           in if kind = Some (js ''ref/prompt'') \<and> name \<noteq> None then map_option (Pair PromptsList) name
              else if kind = Some (js ''ref/resource'') \<and> uri \<noteq> None then map_option (Pair ResourcesList) uri
              else None))"

definition decideCompletion ::
  "(jstr \<Rightarrow> json option) \<Rightarrow> jstr \<Rightarrow> jstr \<Rightarrow> tool_class \<Rightarrow> method_grants \<Rightarrow> method_outcome" where
  "decideCompletion parse m raw cls g =
     (if \<not> mg_has_resources g \<and> \<not> mg_has_prompts g then MethodFallback NoGrant
      else let params = paramsOf parse raw in
        case completionSubjectOf (case as_obj params of None \<Rightarrow> None | Some ps \<Rightarrow> get_prop ps (js ''ref'')) of
          None \<Rightarrow> malformedDeny m params
        | Some (kind, value) \<Rightarrow>
            if \<not> hasListGrant g kind then MethodFallback NoGrant
            else if listItemPredicate g kind value
            then MethodForward \<lparr>dm_rule = grantedRuleOf m, dm_class = cls, dm_params = params\<rparr> None
            else MethodDeny \<lparr>dm_rule = no_grant_for kind value, dm_class = cls, dm_params = params\<rparr>)"

definition decideMethodGrant ::
  "(jstr \<Rightarrow> json option) \<Rightarrow> jstr \<Rightarrow> jstr \<Rightarrow> method_grants option \<Rightarrow> method_outcome" where
  "decideMethodGrant parse m raw grants =
     (case map_of grant_managed_methods m of None \<Rightarrow> MethodFallback OutsideVocabulary
      | Some spec \<Rightarrow>
          (case grants of None \<Rightarrow> MethodFallback NoGrant
           | Some g \<Rightarrow>
               (case ms_check spec of
                  CheckUri \<Rightarrow> decideSubject parse m raw (ms_class spec) (mg_has_resources g) (js ''uri'')
                    ResourcesList (mg_resource_granted g)
                | CheckName \<Rightarrow> decideSubject parse m raw (ms_class spec) (mg_has_prompts g) (js ''name'')
                    PromptsList (mg_prompt_granted g)
                | CheckList kind \<Rightarrow>
                    if \<not> hasListGrant g kind then MethodFallback NoGrant
                    else MethodForward \<lparr>dm_rule = grantedRuleOf m, dm_class = ms_class spec,
                      dm_params = paramsOf parse raw\<rparr> (Some kind)
                | CheckCompletion \<Rightarrow> decideCompletion parse m raw (ms_class spec) g)))"

section \<open>List responses\<close>

record filtered_list =
  fm_serialized :: jstr
  fm_removed :: "jstr list"
  fm_kept :: nat
  fm_unreadable :: nat

definition item_field :: "list_kind \<Rightarrow> jstr" where
  "item_field kind = (if kind = ResourcesList then js ''uri'' else js ''name'')"

definition item_subject :: "list_kind \<Rightarrow> json \<Rightarrow> jstr option" where
  "item_subject kind item =
     (case as_obj (Some item) of None \<Rightarrow> None | Some ps \<Rightarrow> as_str (get_prop ps (item_field kind)))"

definition item_kept :: "list_kind \<Rightarrow> (jstr \<Rightarrow> bool) \<Rightarrow> json \<Rightarrow> bool" where
  "item_kept kind granted item = (case item_subject kind item of None \<Rightarrow> False | Some s \<Rightarrow> granted s)"

definition filterMethodListResult ::
  "(jstr \<Rightarrow> json option) \<Rightarrow> (64 word \<Rightarrow> jstr) \<Rightarrow> jstr \<Rightarrow> list_kind \<Rightarrow> (jstr \<Rightarrow> bool) \<Rightarrow> filtered_list option" where
  "filterMethodListResult parse num raw kind granted =
     (case try_parse_object parse raw of None \<Rightarrow> None
      | Some parsed \<Rightarrow>
          (case as_obj (get_prop parsed (js ''result'')) of None \<Rightarrow> None
           | Some result \<Rightarrow>
               (case as_arr (get_prop result (list_kind_str kind)) of None \<Rightarrow> None
                | Some items \<Rightarrow>
                    (let kept = filter (item_kept kind granted) items;
                         subjects = List.map_filter (item_subject kind) items;
                         serialized = json_text num (JObj (with_prop parsed (js ''result'')
                           (JObj (with_prop result (list_kind_str kind) (JArr kept)))))
                     in if unit_of (CHR 0x0a) \<in> set serialized then None
                        else Some \<lparr>fm_serialized = serialized,
                          fm_removed = filter (\<lambda>s. \<not> granted s) subjects, fm_kept = length kept,
                          fm_unreadable = length (filter (\<lambda>i. item_subject kind i = None) items)\<rparr>))))"

section \<open>What a decision rests on\<close>

text \<open>The subject a managed method names in its parameters, if it must name one.\<close>

fun check_kind :: "method_check \<Rightarrow> list_kind option" where
  "check_kind CheckUri = Some ResourcesList"
| "check_kind CheckName = Some PromptsList"
| "check_kind (CheckList kind) = Some kind"
| "check_kind CheckCompletion = None"

definition named_subject :: "method_check \<Rightarrow> json option \<Rightarrow> (list_kind \<times> jstr) option" where
  "named_subject check params =
     (let ps = (case as_obj params of None \<Rightarrow> [] | Some ps \<Rightarrow> ps) in
      case check of
        CheckUri \<Rightarrow> map_option (Pair ResourcesList) (as_str (get_prop ps (js ''uri'')))
      | CheckName \<Rightarrow> map_option (Pair PromptsList) (as_str (get_prop ps (js ''name'')))
      | CheckList kind \<Rightarrow> None
      | CheckCompletion \<Rightarrow> completionSubjectOf (get_prop ps (js ''ref'')))"

definition method_covered :: "method_grants \<Rightarrow> method_spec \<Rightarrow> json option \<Rightarrow> bool" where
  "method_covered g spec params \<longleftrightarrow>
     (case ms_check spec of
        CheckList kind \<Rightarrow> hasListGrant g kind
      | check \<Rightarrow> (case named_subject check params of None \<Rightarrow> False
          | Some (kind, s) \<Rightarrow> hasListGrant g kind \<and> listItemPredicate g kind s))"

definition forwards :: "method_outcome \<Rightarrow> bool" where
  "forwards out = (case out of MethodForward d l \<Rightarrow> True | _ \<Rightarrow> False)"

lemma get_prop_Nil [simp]: "get_prop [] k = None"
  by (simp add: get_prop_def)

lemma forwards_simps [simp]:
  "forwards (MethodForward d l)" "\<not> forwards (MethodFallback r)" "\<not> forwards (MethodDeny d)" "\<not> forwards (malformedDeny m p)"
  by (simp_all add: forwards_def malformedDeny_def)

lemma decideSubject_forwards:
  "forwards (decideSubject parse m raw cls h field kind granted) \<longleftrightarrow>
     h \<and> (\<exists>ps s. paramsOf parse raw = Some (JObj ps) \<and> get_prop ps field = Some (JStr s) \<and> granted s)"
  by (auto simp: decideSubject_def Let_def split: option.splits)

lemma completionSubjectOf_None [simp]: "completionSubjectOf None = None"
  by (simp add: completionSubjectOf_def)

lemma hasListGrant_some: "hasListGrant g kind \<Longrightarrow> mg_has_resources g \<or> mg_has_prompts g"
  by (cases kind) simp_all

lemma decideCompletion_forwards:
  "forwards (decideCompletion parse m raw cls g) \<longleftrightarrow>
     (\<exists>ps kind s. paramsOf parse raw = Some (JObj ps) \<and> completionSubjectOf (get_prop ps (js ''ref'')) = Some (kind, s)
        \<and> hasListGrant g kind \<and> listItemPredicate g kind s)"
  by (auto simp: decideCompletion_def Let_def split: option.splits dest: hasListGrant_some)

text \<open>C11. A frame of a grant-managed method is forwarded exactly when the method is in the vocabulary,
  the agent has grants at all, and they cover what the frame asks for: the resource or prompt its own
  parameters name, under a grant of that family, or the family's list. Everything else, unreadable
  parameters included, is denied.\<close>

theorem method_forwarded_iff:
  "forwards (decideMethodGrant parse m raw grants) \<longleftrightarrow>
     some_with (map_of grant_managed_methods m)
       (\<lambda>spec. some_with grants (\<lambda>g. method_covered g spec (paramsOf parse raw)))"
proof (cases "map_of grant_managed_methods m")
  case (Some spec)
  show ?thesis
  proof (cases grants)
    case (Some g)
    with \<open>map_of grant_managed_methods m = Some spec\<close> show ?thesis
      by (cases "ms_check spec"; cases "paramsOf parse raw")
        (auto simp: decideMethodGrant_def method_covered_def named_subject_def decideSubject_forwards
          decideCompletion_forwards split: option.splits prod.splits)
  qed (simp add: decideMethodGrant_def Some)
qed (simp add: decideMethodGrant_def)

text \<open>A filtered list carries only granted entries: what the client receives for \<open>resources/list\<close> or
  \<open>prompts/list\<close> is the server's result with its list replaced by the entries that name a granted
  subject, in their order; nothing unreadable survives, and every entry is accounted for as kept,
  removed or unreadable.\<close>

lemma filtered_list_granted:
  assumes "filterMethodListResult parse num raw kind granted = Some f"
  shows "\<exists>parsed result items kept.
     parse raw = Some (JObj parsed) \<and> get_prop parsed (js ''result'') = Some (JObj result)
     \<and> get_prop result (list_kind_str kind) = Some (JArr items)
     \<and> fm_serialized f = json_text num (JObj (with_prop parsed (js ''result'')
          (JObj (with_prop result (list_kind_str kind) (JArr kept)))))
     \<and> subseq kept items \<and> (\<forall>i \<in> set kept. some_with (item_subject kind i) granted)
     \<and> length items = fm_kept f + length (fm_removed f) + fm_unreadable f"
proof -
  obtain parsed result items where
    in': "parse raw = Some (JObj parsed)" "get_prop parsed (js ''result'') = Some (JObj result)"
      "get_prop result (list_kind_str kind) = Some (JArr items)"
    using assms by (auto simp: filterMethodListResult_def split: option.splits)
  have out: "fm_serialized f = json_text num (JObj (with_prop parsed (js ''result'')
          (JObj (with_prop result (list_kind_str kind) (JArr (filter (item_kept kind granted) items))))))"
    "fm_kept f = length (filter (item_kept kind granted) items)"
    "fm_removed f = filter (\<lambda>s. \<not> granted s) (List.map_filter (item_subject kind) items)"
    "fm_unreadable f = length (filter (\<lambda>i. item_subject kind i = None) items)"
    using assms in' by (simp_all add: filterMethodListResult_def try_parse_object_def Let_def del: json_text.simps split: if_splits)
     (auto simp del: json_text.simps)
  have count: "length is = length (filter (item_kept kind granted) is)
      + length (filter (\<lambda>s. \<not> granted s) (List.map_filter (item_subject kind) is))
      + length (filter (\<lambda>i. item_subject kind i = None) is)" for "is"
    by (induction "is") (auto simp: item_kept_def map_filter_simps split: option.splits)
  have "subseq (filter (item_kept kind granted) items) items" by simp
  moreover have "\<forall>i \<in> set (filter (item_kept kind granted) items). some_with (item_subject kind i) granted"
    by (auto simp: item_kept_def split: option.splits)
  ultimately show ?thesis using in' out count[of items] by metis
qed

lemma filtered_list_granted_witness:
  "\<exists>f. filterMethodListResult
       (\<lambda>_. Some (JObj [(js ''result'', JObj [(js ''prompts'', JArr [JObj [(js ''name'', JStr (js ''a''))],
          JObj [(js ''name'', JStr (js ''b''))], JNull])])])) (\<lambda>_. []) [] PromptsList (\<lambda>s. s = js ''a'') = Some f
     \<and> 3 = fm_kept f + length (fm_removed f) + fm_unreadable f"
proof -
  let ?parse = "\<lambda>_::jstr. Some (JObj [(js ''result'', JObj [(js ''prompts'', JArr [JObj [(js ''name'', JStr (js ''a''))],
          JObj [(js ''name'', JStr (js ''b''))], JNull])])])"
  let ?f = "filterMethodListResult ?parse (\<lambda>_. []) [] PromptsList (\<lambda>s. s = js ''a'')"
  have "?f \<noteq> None" by code_simp
  then obtain f where f: "?f = Some f" by auto
  from filtered_list_granted[OF f] f show ?thesis
    by (auto simp: get_prop_def)
qed

end
