(* ===== verification/Tool_Use.thy ===== *)
theory Tool_Use
  imports Machine Protocol
begin

text \<open>
  \<open>proxy/tool-use-answers.ts\<close>: the answers kept for the agent's tool uses, so that a resent call is
  answered and not run again, the claims that let one session at a time run a tool use, and the noted
  withdrawals. The clock is read by the caller and comes in as \<open>now\<close>, and an ISO timestamp is kept
  as its milliseconds; a claim is known by the number it
  was given when it was made, for the identity of the object it is in the source.
\<close>

section \<open>State\<close>

definition tool_use_answer_ttl_ms :: int where "tool_use_answer_ttl_ms = 24 * 60 * 60 * 1000"
definition max_kept_answer_bytes :: nat where "max_kept_answer_bytes = 1024 * 1024"
definition max_kept_answers_bytes :: nat where "max_kept_answers_bytes = 64 * 1024 * 1024"
definition max_kept_answers_per_agent_bytes :: nat where
  "max_kept_answers_per_agent_bytes = max_kept_answers_bytes div 4"
definition tool_use_claim_max_age_ms :: int where "tool_use_claim_max_age_ms = 25 * 60 * 60 * 1000"
definition max_noted_withdrawals :: nat where "max_noted_withdrawals = 10000"
definition claims_sweep_at :: nat where "claims_sweep_at = 10000"

record call_identity =
  cid_server :: jstr
  cid_tool :: jstr
  cid_args :: jstr

record answer_to_keep =
  ak_call :: call_identity
  ak_response :: jstr
  ak_delivered :: bool

record stored_answer =
  sa_answer :: answer_to_keep
  sa_kept_at :: int
  sa_scope :: jstr
  sa_bytes :: nat

record use_limits =
  ul_total :: nat
  ul_scope :: nat

record tool_uses =
  tu_answers :: "(jstr \<times> stored_answer) list"
  tu_claims :: "(jstr \<times> int \<times> nat) list"
  tu_withdrawals :: "(jstr \<times> int \<times> int) list"
  tu_waiters :: "(jstr \<times> nat list) list"
  tu_total :: int
  tu_scopes :: "(jstr \<times> int) list"
  tu_next :: nat

definition createToolUseAnswers :: tool_uses where
  "createToolUseAnswers = \<lparr>tu_answers = [], tu_claims = [], tu_withdrawals = [], tu_waiters = [], tu_total = 0,
     tu_scopes = [], tu_next = 0\<rparr>"

definition keyOf :: "jstr \<Rightarrow> jstr \<Rightarrow> jstr" where
  "keyOf scope use = scope @ [0] @ use"

definition isSameCall :: "call_identity \<Rightarrow> call_identity \<Rightarrow> bool" where
  "isSameCall a c \<longleftrightarrow> cid_server a = cid_server c \<and> cid_tool a = cid_tool c \<and> cid_args a = cid_args c"

section \<open>Answers\<close>

definition bytesOf :: "tool_uses \<Rightarrow> jstr \<Rightarrow> int" where
  "bytesOf s scope = (case map_of (tu_scopes s) scope of Some n \<Rightarrow> n | None \<Rightarrow> 0)"

definition forget_answer :: "jstr \<Rightarrow> tool_uses \<Rightarrow> tool_uses" where
  "forget_answer key s =
     (case map_of (tu_answers s) key of None \<Rightarrow> s
      | Some st \<Rightarrow>
          (let left = bytesOf s (sa_scope st) - int (sa_bytes st)
           in s\<lparr>tu_answers := AList.delete key (tu_answers s), tu_total := tu_total s - int (sa_bytes st),
                tu_scopes := (if left > 0 then AList.update (sa_scope st) left (tu_scopes s)
                              else AList.delete (sa_scope st) (tu_scopes s))\<rparr>))"

definition isExpired :: "stored_answer \<Rightarrow> int \<Rightarrow> bool" where
  "isExpired st now \<longleftrightarrow> now - sa_kept_at st \<ge> tool_use_answer_ttl_ms"

text \<open>One of the two loops of \<open>evictUntil\<close>, over a copy of the table made when it starts.\<close>

fun evict_pass ::
  "(tool_uses \<Rightarrow> bool) \<Rightarrow> (stored_answer \<Rightarrow> bool) \<Rightarrow> (jstr \<times> stored_answer) list \<Rightarrow> tool_uses \<Rightarrow> tool_uses" where
  "evict_pass fits candidate [] s = s"
| "evict_pass fits candidate ((key, st) # rest) s =
     (if fits s then s
      else evict_pass fits candidate rest (if candidate st then forget_answer key s else s))"

definition evictUntil :: "(tool_uses \<Rightarrow> bool) \<Rightarrow> (stored_answer \<Rightarrow> bool) \<Rightarrow> tool_uses \<Rightarrow> tool_uses" where
  "evictUntil fits candidate s =
     (let s1 = evict_pass fits (\<lambda>st. candidate st \<and> ak_delivered (sa_answer st)) (tu_answers s) s
      in evict_pass fits candidate (tu_answers s1) s1)"

definition forget_expired :: "int \<Rightarrow> tool_uses \<Rightarrow> tool_uses" where
  "forget_expired now s = foldl (\<lambda>s (key, st). if isExpired st now then forget_answer key s else s) s (tu_answers s)"

definition makeRoom :: "use_limits \<Rightarrow> jstr \<Rightarrow> nat \<Rightarrow> int \<Rightarrow> tool_uses \<Rightarrow> tool_uses" where
  "makeRoom lim scope incoming now s =
     evictUntil (\<lambda>s. tu_total s + int incoming \<le> int (ul_total lim)) (\<lambda>st. True)
       (evictUntil (\<lambda>s. bytesOf s scope + int incoming \<le> int (ul_scope lim)) (\<lambda>st. sa_scope st = scope)
         (forget_expired now s))"

datatype keep_outcome = Kept | TooLarge

definition keep ::
  "use_limits \<Rightarrow> jstr \<Rightarrow> jstr \<Rightarrow> answer_to_keep \<Rightarrow> int \<Rightarrow> tool_uses \<Rightarrow> keep_outcome \<times> tool_uses" where
  "keep lim scope use answer now s =
     (let n = length (utf8_encode (ak_response answer)) in
      if n > max_kept_answer_bytes \<or> n > ul_scope lim \<or> n > ul_total lim then (TooLarge, s)
      else let key = keyOf scope use;
               s1 = makeRoom lim scope n now (forget_answer key s)
        in (Kept, s1\<lparr>tu_answers := AList.update key
                 \<lparr>sa_answer = answer, sa_kept_at = now, sa_scope = scope, sa_bytes = n\<rparr> (tu_answers s1),
               tu_total := tu_total s1 + int n,
               tu_scopes := AList.update scope (bytesOf s1 scope + int n) (tu_scopes s1)\<rparr>))"

definition find_answer ::
  "jstr \<Rightarrow> jstr \<Rightarrow> call_identity \<Rightarrow> int \<Rightarrow> tool_uses \<Rightarrow> (answer_to_keep \<times> int) option \<times> tool_uses" where
  "find_answer scope use c now s =
     (let key = keyOf scope use in
      case map_of (tu_answers s) key of None \<Rightarrow> (None, s)
      | Some st \<Rightarrow>
          if isExpired st now then (None, forget_answer key s)
          else if \<not> isSameCall (ak_call (sa_answer st)) c then (None, s)
          else (Some (sa_answer st, sa_kept_at st), s))"

section \<open>Claims\<close>

text \<open>Waking the waiters of a key resolves their promises; the numbers of those are returned.\<close>

definition wakeReleased :: "jstr \<Rightarrow> tool_uses \<Rightarrow> tool_uses \<times> nat list" where
  "wakeReleased key s =
     (case map_of (tu_waiters s) key of None \<Rightarrow> (s, [])
      | Some ws \<Rightarrow> (s\<lparr>tu_waiters := AList.delete key (tu_waiters s)\<rparr>, ws))"

definition claim_lapsed :: "int \<Rightarrow> int \<Rightarrow> bool" where
  "claim_lapsed claimed_at now \<longleftrightarrow> \<not> now - claimed_at < tool_use_claim_max_age_ms"

fun sweep_claims :: "int \<Rightarrow> (jstr \<times> int \<times> nat) list \<Rightarrow> tool_uses \<Rightarrow> tool_uses \<times> nat list" where
  "sweep_claims now [] s = (s, [])"
| "sweep_claims now ((held, at, token) # rest) s =
     (if \<not> claim_lapsed at now then sweep_claims now rest s
      else let (s1, woken) = wakeReleased held (s\<lparr>tu_claims := AList.delete held (tu_claims s)\<rparr>);
               (s2, more) = sweep_claims now rest s1
        in (s2, woken @ more))"

definition claim :: "jstr \<Rightarrow> jstr \<Rightarrow> int \<Rightarrow> tool_uses \<Rightarrow> nat option \<times> tool_uses \<times> nat list" where
  "claim scope use now s =
     (let key = keyOf scope use;
          (s1, woken) = (if length (tu_claims s) \<ge> claims_sweep_at then sweep_claims now (tu_claims s) s else (s, []))
      in if some_with (map_of (tu_claims s1) key) (\<lambda>(at, token). \<not> claim_lapsed at now) then (None, s1, woken)
         else (Some (tu_next s1),
           s1\<lparr>tu_claims := AList.update key (now, tu_next s1) (tu_claims s1), tu_next := Suc (tu_next s1)\<rparr>, woken))"

definition release :: "jstr \<Rightarrow> jstr \<Rightarrow> nat \<Rightarrow> tool_uses \<Rightarrow> tool_uses \<times> nat list" where
  "release scope use token s =
     (let key = keyOf scope use in
      if map_option snd (map_of (tu_claims s) key) \<noteq> Some token then (s, [])
      else wakeReleased key (s\<lparr>tu_claims := AList.delete key (tu_claims s)\<rparr>))"

text \<open>
  \<open>whenReleased\<close>: \<open>None\<close> when the promise is resolved at once, otherwise its number and the time its
  timer is set to. When the timer fires, the waiter takes itself out.
\<close>

definition whenReleased :: "jstr \<Rightarrow> jstr \<Rightarrow> int \<Rightarrow> tool_uses \<Rightarrow> (nat \<times> int) option \<times> tool_uses" where
  "whenReleased scope use now s =
     (let key = keyOf scope use;
          age = (case map_of (tu_claims s) key of None \<Rightarrow> tool_use_claim_max_age_ms | Some (at, token) \<Rightarrow> now - at)
      in if age \<ge> tool_use_claim_max_age_ms then (None, s)
         else (Some (tu_next s, now + (tool_use_claim_max_age_ms - age)),
           s\<lparr>tu_waiters := AList.update key
               ((case map_of (tu_waiters s) key of Some ws \<Rightarrow> ws | None \<Rightarrow> []) @ [tu_next s]) (tu_waiters s),
             tu_next := Suc (tu_next s)\<rparr>))"

definition waiter_lapsed :: "jstr \<Rightarrow> jstr \<Rightarrow> nat \<Rightarrow> tool_uses \<Rightarrow> tool_uses \<times> nat list" where
  "waiter_lapsed scope use w s =
     (let key = keyOf scope use in
      (case map_of (tu_waiters s) key of None \<Rightarrow> s
       | Some ws \<Rightarrow> s\<lparr>tu_waiters := AList.update key (removeAll w ws) (tu_waiters s)\<rparr>, [w]))"

section \<open>Withdrawals\<close>

definition noteWithdrawn :: "jstr \<Rightarrow> jstr \<Rightarrow> int \<Rightarrow> int \<Rightarrow> tool_uses \<Rightarrow> tool_uses" where
  "noteWithdrawn scope use at now s =
     (let key = keyOf scope use;
          w1 = AList.delete key (tu_withdrawals s);
          w2 = (if length w1 \<ge> max_noted_withdrawals then tl w1 else w1)
      in s\<lparr>tu_withdrawals := AList.update key (at, now) w2\<rparr>)"

definition withdrawnAt :: "jstr \<Rightarrow> jstr \<Rightarrow> int \<Rightarrow> tool_uses \<Rightarrow> int option" where
  "withdrawnAt scope use now s =
     (case map_of (tu_withdrawals s) (keyOf scope use) of None \<Rightarrow> None
      | Some (at, noted) \<Rightarrow> if now - noted \<ge> tool_use_answer_ttl_ms then None else Some at)"

section \<open>As a machine\<close>

datatype use_call =
    KeepAnswer jstr jstr answer_to_keep int
  | FindAnswer jstr jstr call_identity int
  | Claim jstr jstr int
  | Release jstr jstr nat
  | WhenReleased jstr jstr int
  | WaiterLapsed jstr jstr nat
  | NoteWithdrawn jstr jstr int int

datatype use_effect =
    Found "(answer_to_keep \<times> int) option"
  | Claimed "nat option"
  | Woken nat
  | KeepResult keep_outcome
  | Waiting "nat option"

fun use_step :: "use_limits \<Rightarrow> tool_uses \<Rightarrow> use_call \<Rightarrow> tool_uses \<times> use_effect list" where
  "use_step lim s (KeepAnswer scope use answer now) =
     (let (out, s') = keep lim scope use answer now s in (s', [KeepResult out]))"
| "use_step lim s (FindAnswer scope use c now) =
     (let (found, s') = find_answer scope use c now s in (s', [Found found]))"
| "use_step lim s (Claim scope use now) =
     (let (token, s', woken) = claim scope use now s in (s', map Woken woken @ [Claimed token]))"
| "use_step lim s (Release scope use token) = (let (s', woken) = release scope use token s in (s', map Woken woken))"
| "use_step lim s (WhenReleased scope use now) =
     (let (w, s') = whenReleased scope use now s in (s', [Waiting (map_option fst w)]))"
| "use_step lim s (WaiterLapsed scope use w) = (let (s', woken) = waiter_lapsed scope use w s in (s', map Woken woken))"
| "use_step lim s (NoteWithdrawn scope use at now) = (noteWithdrawn scope use at now s, [])"

end
