(* ===== verification/Tool_Use_Safety.thy ===== *)
theory Tool_Use_Safety
  imports Tool_Use
begin

text \<open>
  The byte counts of the kept answers are the sums they stand for and stay within the limits whatever
  the order of the calls; a kept answer is given back to the call it was kept for; a claim excludes every
  other until it is released or lapses.
\<close>

section \<open>The accounts\<close>

definition bytes_where :: "(stored_answer \<Rightarrow> bool) \<Rightarrow> (jstr \<times> stored_answer) list \<Rightarrow> int" where
  "bytes_where P m = sum_list (map (\<lambda>(k, st). if P st then int (sa_bytes st) else 0) m)"

definition accounted :: "tool_uses \<Rightarrow> bool" where
  "accounted s \<longleftrightarrow> wf_map (tu_answers s) \<and> tu_total s = bytes_where (\<lambda>_. True) (tu_answers s) \<and>
     (\<forall>scope. bytesOf s scope = bytes_where (\<lambda>st. sa_scope st = scope) (tu_answers s))"

definition within :: "use_limits \<Rightarrow> tool_uses \<Rightarrow> bool" where
  "within lim s \<longleftrightarrow> tu_total s \<le> int (ul_total lim) \<and> (\<forall>scope. bytesOf s scope \<le> int (ul_scope lim))"

definition uses_ok :: "use_limits \<Rightarrow> tool_uses \<Rightarrow> bool" where
  "uses_ok lim s \<longleftrightarrow> accounted s \<and> within lim s"

lemma bytes_where_nonneg: "0 \<le> bytes_where P m"
  by (induction m) (auto simp: bytes_where_def)

lemma bytes_where_none: "\<forall>(k, st) \<in> set m. \<not> P st \<Longrightarrow> bytes_where P m = 0"
  by (induction m) (auto simp: bytes_where_def)

lemma bytes_where_delete:
  "wf_map m \<Longrightarrow> map_of m key = Some st \<Longrightarrow>
     bytes_where P (AList.delete key m) = bytes_where P m - (if P st then int (sa_bytes st) else 0)"
proof (induction m)
  case (Cons e m)
  show ?case
  proof (cases "fst e = key")
    case True
    then have "key \<notin> set (map fst m)" "e = (key, st)" using Cons.prems by (auto simp: prod_eq_iff)
    then have "AList.delete key (e # m) = m" by simp
    then show ?thesis by (simp add: bytes_where_def \<open>e = (key, st)\<close>)
  next
    case False
    then have "AList.delete key (e # m) = e # AList.delete key m" by (cases e) simp
    then show ?thesis using Cons False by (cases e) (simp add: bytes_where_def)
  qed
qed simp

lemma bytes_where_new:
  "\<not> has_own m key \<Longrightarrow> bytes_where P (AList.update key st m) = bytes_where P m + (if P st then int (sa_bytes st) else 0)"
proof -
  assume "\<not> has_own m key"
  then have "AList.update key st m = m @ [(key, st)]"
    by (intro keys_update_new) (simp add: map_of_eq_None_iff)
  then show ?thesis by (simp add: bytes_where_def)
qed

lemma forget_answers [simp]: "tu_answers (forget_answer key s) = AList.delete key (tu_answers s)"
proof (cases "map_of (tu_answers s) key")
  case None
  then have "key \<notin> fst ` set (tu_answers s)" by (simp add: map_of_eq_None_iff)
  then show ?thesis by (simp add: forget_answer_def None)
qed (simp add: forget_answer_def Let_def)

lemma forget_bytes:
  assumes "accounted s"
  shows "bytesOf (forget_answer key s) scope = bytes_where (\<lambda>st. sa_scope st = scope) (AList.delete key (tu_answers s))"
    and "tu_total (forget_answer key s) = bytes_where (\<lambda>_. True) (AList.delete key (tu_answers s))"
proof -
  have wf: "wf_map (tu_answers s)" and tot: "tu_total s = bytes_where (\<lambda>_. True) (tu_answers s)"
    and sc: "bytesOf s scope = bytes_where (\<lambda>st. sa_scope st = scope) (tu_answers s)" for scope
    using assms by (auto simp: accounted_def)
  show "bytesOf (forget_answer key s) scope = bytes_where (\<lambda>st. sa_scope st = scope) (AList.delete key (tu_answers s))"
  proof (cases "map_of (tu_answers s) key")
    case None
    then show ?thesis using sc[of scope] forget_answers[of key s] by (simp add: forget_answer_def)
  next
    case (Some st)
    note del = bytes_where_delete[OF wf Some, of "\<lambda>st. sa_scope st = scope"]
    show ?thesis
    proof (cases "sa_scope st = scope")
      case True
      have "0 \<le> bytesOf s scope - int (sa_bytes st)"
        using del True sc[of scope] bytes_where_nonneg[of "\<lambda>st. sa_scope st = scope" "AList.delete key (tu_answers s)"] by simp
      moreover have "bytesOf (forget_answer key s) scope =
          (if bytesOf s scope - int (sa_bytes st) > 0 then bytesOf s scope - int (sa_bytes st) else 0)"
        using Some True by (simp add: forget_answer_def Let_def bytesOf_def)
      ultimately show ?thesis using del True sc[of scope] by simp
    next
      case False
      have "bytesOf (forget_answer key s) scope = bytesOf s scope"
        using Some False by (simp add: forget_answer_def Let_def bytesOf_def)
      then show ?thesis using del False sc[of scope] by simp
    qed
  qed
  show "tu_total (forget_answer key s) = bytes_where (\<lambda>_. True) (AList.delete key (tu_answers s))"
  proof (cases "map_of (tu_answers s) key")
    case None
    then show ?thesis using tot forget_answers[of key s] by (simp add: forget_answer_def)
  next
    case (Some st)
    then show ?thesis using bytes_where_delete[OF wf Some, of "\<lambda>_. True"] tot
      by (simp add: forget_answer_def Let_def)
  qed
qed

lemma accounted_forget: "accounted s \<Longrightarrow> accounted (forget_answer key s)"
  by (simp add: accounted_def[of "forget_answer key s"] forget_bytes) (simp add: accounted_def)

lemma bytes_where_delete_le: "wf_map m \<Longrightarrow> bytes_where P (AList.delete key m) \<le> bytes_where P m"
proof (cases "map_of m key")
  case None
  then have "AList.delete key m = m" by (simp add: map_of_eq_None_iff)
  then show ?thesis by simp
qed (simp add: bytes_where_delete)

lemma forget_le:
  assumes "accounted s"
  shows "bytesOf (forget_answer key s) scope \<le> bytesOf s scope" and "tu_total (forget_answer key s) \<le> tu_total s"
  using assms by (simp_all add: forget_bytes[OF assms] bytes_where_delete_le accounted_def)

section \<open>Making room\<close>

text \<open>What forgetting keeps, evicting keeps.\<close>

lemma evict_pass_keeps:
  assumes "\<And>k s. Q s \<Longrightarrow> Q (forget_answer k s)"
  shows "Q s \<Longrightarrow> Q (evict_pass fits candidate m s)"
  by (induction fits candidate m s rule: evict_pass.induct) (auto simp: assms)

lemma evictUntil_keeps:
  assumes "\<And>k s. Q s \<Longrightarrow> Q (forget_answer k s)"
  shows "Q s \<Longrightarrow> Q (evictUntil fits candidate s)"
  by (simp add: evictUntil_def Let_def evict_pass_keeps[of Q, OF assms])

lemma forget_expired_keeps:
  assumes "\<And>k s. Q s \<Longrightarrow> Q (forget_answer k s)"
  shows "Q s \<Longrightarrow> Q (forget_expired now s)"
proof -
  have "Q s \<Longrightarrow> Q (foldl (\<lambda>s (key, st). if isExpired st now then forget_answer key s else s) s m)" for m
    by (induction m arbitrary: s) (auto simp: assms)
  then show "Q s \<Longrightarrow> Q (forget_expired now s)" by (simp add: forget_expired_def)
qed

text \<open>A full pass ends with enough room, or with no candidate left.\<close>

lemma in_delete_iff: "wf_map m \<Longrightarrow> (k, v) \<in> set (AList.delete key m) \<longleftrightarrow> k \<noteq> key \<and> (k, v) \<in> set m"
  by (auto simp: AList.delete_eq)

lemma evict_pass_done:
  "accounted s \<Longrightarrow> (\<And>k st. (k, st) \<in> set (tu_answers s) \<Longrightarrow> candidate st \<Longrightarrow> (k, st) \<in> set m) \<Longrightarrow>
   fits (evict_pass fits candidate m s) \<or>
   (\<forall>(k, st) \<in> set (tu_answers (evict_pass fits candidate m s)). \<not> candidate st)"
proof (induction fits candidate m s rule: evict_pass.induct)
  case (2 fits candidate key st rest s)
  show ?case
  proof (cases "fits s")
    case False
    define s' where "s' = (if candidate st then forget_answer key s else s)"
    have acc: "accounted s'" using 2(2) by (simp add: s'_def accounted_forget)
    have "(k, st') \<in> set rest" if "(k, st') \<in> set (tu_answers s')" "candidate st'" for k st'
      using that 2(2) 2(3)[of k st'] by (auto simp: s'_def accounted_def in_delete_iff split: if_splits)
    then show ?thesis using 2(1)[OF False] acc False by (simp add: s'_def)
  qed simp
qed auto

lemma evictUntil_done:
  assumes "accounted s"
  shows "fits (evictUntil fits candidate s) \<or> (\<forall>(k, st) \<in> set (tu_answers (evictUntil fits candidate s)). \<not> candidate st)"
proof -
  define s1 where "s1 = evict_pass fits (\<lambda>st. candidate st \<and> ak_delivered (sa_answer st)) (tu_answers s) s"
  have "accounted s1" unfolding s1_def by (rule evict_pass_keeps[of accounted, OF accounted_forget assms])
  from evict_pass_done[OF this, of candidate "tu_answers s1" fits]
  show ?thesis by (simp add: evictUntil_def Let_def s1_def)
qed

definition room_for :: "use_limits \<Rightarrow> jstr \<Rightarrow> nat \<Rightarrow> tool_uses \<Rightarrow> bool" where
  "room_for lim scope n s \<longleftrightarrow> tu_total s + int n \<le> int (ul_total lim) \<and> bytesOf s scope + int n \<le> int (ul_scope lim)"

lemma uses_ok_forget: "uses_ok lim s \<Longrightarrow> uses_ok lim (forget_answer k s)"
proof -
  assume ok: "uses_ok lim s"
  then have acc: "accounted s" by (simp add: uses_ok_def)
  show ?thesis using ok accounted_forget[OF acc] forget_le[OF acc, of k]
    by (auto simp: uses_ok_def within_def intro: order_trans)
qed

lemma makeRoom_ok:
  assumes ok: "uses_ok lim s" and n: "n \<le> ul_scope lim" "n \<le> ul_total lim"
  shows "uses_ok lim (makeRoom lim scope n now s) \<and> room_for lim scope n (makeRoom lim scope n now s)"
proof -
  define s0 where "s0 = forget_expired now s"
  define s1 where "s1 = evictUntil (\<lambda>s. bytesOf s scope + int n \<le> int (ul_scope lim)) (\<lambda>st. sa_scope st = scope) s0"
  define s2 where "s2 = evictUntil (\<lambda>s. tu_total s + int n \<le> int (ul_total lim)) (\<lambda>st. True) s1"
  have ok0: "uses_ok lim s0"
    unfolding s0_def by (rule forget_expired_keeps[of "uses_ok lim", OF uses_ok_forget ok])
  have ok1: "uses_ok lim s1"
    unfolding s1_def by (rule evictUntil_keeps[of "uses_ok lim", OF uses_ok_forget ok0])
  have ok2: "uses_ok lim s2"
    unfolding s2_def by (rule evictUntil_keeps[of "uses_ok lim", OF uses_ok_forget ok1])
  have fit1: "bytesOf s1 scope + int n \<le> int (ul_scope lim)"
  proof -
    have "bytesOf s1 scope = 0" if "\<forall>(k, st) \<in> set (tu_answers s1). sa_scope st \<noteq> scope"
      using ok1 that bytes_where_none[of "tu_answers s1" "\<lambda>st. sa_scope st = scope"]
      by (simp add: uses_ok_def accounted_def)
    moreover have "accounted s0" using ok0 by (simp add: uses_ok_def)
    ultimately show ?thesis
      using evictUntil_done[of s0 "\<lambda>s. bytesOf s scope + int n \<le> int (ul_scope lim)" "\<lambda>st. sa_scope st = scope"] n
      by (fold s1_def) auto
  qed
  have scope2: "bytesOf s2 scope + int n \<le> int (ul_scope lim)"
  proof -
    have "accounted s2 \<and> bytesOf s2 scope + int n \<le> int (ul_scope lim)"
      unfolding s2_def
    proof (rule evictUntil_keeps[of "\<lambda>s. accounted s \<and> bytesOf s scope + int n \<le> int (ul_scope lim)"])
      show "accounted (forget_answer k s) \<and> bytesOf (forget_answer k s) scope + int n \<le> int (ul_scope lim)"
        if "accounted s \<and> bytesOf s scope + int n \<le> int (ul_scope lim)" for k s
        using that forget_le(1)[of s k scope] accounted_forget[of s k] by simp
      show "accounted s1 \<and> bytesOf s1 scope + int n \<le> int (ul_scope lim)" using ok1 fit1 by (simp add: uses_ok_def)
    qed
    then show ?thesis by simp
  qed
  have "tu_total s2 + int n \<le> int (ul_total lim)"
  proof -
    have "tu_total s2 = 0" if "tu_answers s2 = []"
      using ok2 that by (simp add: uses_ok_def accounted_def bytes_where_def)
    moreover have "accounted s1" using ok1 by (simp add: uses_ok_def)
    ultimately show ?thesis
      using evictUntil_done[of s1 "\<lambda>s. tu_total s + int n \<le> int (ul_total lim)" "\<lambda>st. True"] n
      by (cases "tu_answers s2") (auto simp flip: s2_def)
  qed
  moreover have "makeRoom lim scope n now s = s2" by (simp add: makeRoom_def s0_def s1_def s2_def)
  ultimately show ?thesis using ok2 scope2 by (simp add: room_for_def)
qed

section \<open>The machine\<close>

lemma bytesOf_cong: "tu_scopes s' = tu_scopes s \<Longrightarrow> bytesOf s' = bytesOf s"
  by (simp add: bytesOf_def fun_eq_iff)

lemma uses_ok_only: "uses_ok lim s \<Longrightarrow> tu_answers s' = tu_answers s \<Longrightarrow> tu_total s' = tu_total s \<Longrightarrow> tu_scopes s' = tu_scopes s
    \<Longrightarrow> uses_ok lim s'"
  unfolding uses_ok_def accounted_def within_def using bytesOf_cong[of s' s] by metis

lemma forgotten_stays: "\<not> has_own (tu_answers s) key \<Longrightarrow> \<not> has_own (tu_answers (forget_answer k s)) key"
  by (auto simp: fun_upd_def split: if_splits)

lemma makeRoom_forgotten: "\<not> has_own (tu_answers s) key \<Longrightarrow> \<not> has_own (tu_answers (makeRoom lim scope n now s)) key"
  unfolding makeRoom_def
  by (intro evictUntil_keeps[of "\<lambda>s. \<not> has_own (tu_answers s) key"] forget_expired_keeps[of "\<lambda>s. \<not> has_own (tu_answers s) key"])
     (rule forgotten_stays; assumption)+

lemma keep_ok: "uses_ok lim s \<Longrightarrow> uses_ok lim (snd (keep lim scope use answer now s))"
proof -
  assume ok: "uses_ok lim s"
  define n where "n = length (utf8_encode (ak_response answer))"
  define key where "key = keyOf scope use"
  define s1 where "s1 = makeRoom lim scope n now (forget_answer key s)"
  show ?thesis
  proof (cases "n > max_kept_answer_bytes \<or> n > ul_scope lim \<or> n > ul_total lim")
    case False
    then have s1: "uses_ok lim s1" "room_for lim scope n s1"
      using makeRoom_ok[OF uses_ok_forget[OF ok, of key], of n scope now] by (simp_all add: s1_def)
    have absent: "\<not> has_own (tu_answers s1) key"
      unfolding s1_def by (rule makeRoom_forgotten) simp
    let ?st = "\<lparr>sa_answer = answer, sa_kept_at = now, sa_scope = scope, sa_bytes = n\<rparr>"
    define s2 where "s2 = s1\<lparr>tu_answers := AList.update key ?st (tu_answers s1), tu_total := tu_total s1 + int n,
        tu_scopes := AList.update scope (bytesOf s1 scope + int n) (tu_scopes s1)\<rparr>"
    have bytes: "bytesOf s2 sc = bytesOf s1 sc + (if scope = sc then int n else 0)" for sc
      by (simp add: s2_def bytesOf_def)
    have "uses_ok lim s2"
      using s1 bytes_where_new[OF absent, of _ ?st]
      by (auto simp: uses_ok_def accounted_def within_def room_for_def bytes) (simp_all add: s2_def)
    moreover have "snd (keep lim scope use answer now s) = s2"
      using False by (simp add: keep_def Let_def n_def[symmetric] key_def[symmetric] s1_def[symmetric] s2_def)
    ultimately show ?thesis by simp
  qed (use ok in \<open>simp add: keep_def n_def\<close>)
qed

lemma find_ok: "uses_ok lim s \<Longrightarrow> uses_ok lim (snd (find_answer scope use c now s))"
  by (auto simp: find_answer_def Let_def uses_ok_forget split: option.splits)

lemma wake_same [simp]:
  "tu_answers (fst (wakeReleased k s)) = tu_answers s" "tu_total (fst (wakeReleased k s)) = tu_total s"
  "tu_scopes (fst (wakeReleased k s)) = tu_scopes s" "tu_claims (fst (wakeReleased k s)) = tu_claims s"
  "tu_next (fst (wakeReleased k s)) = tu_next s"
  by (simp_all add: wakeReleased_def split: option.split)

lemma sweep_same [simp]:
  "tu_answers (fst (sweep_claims now m s)) = tu_answers s" "tu_total (fst (sweep_claims now m s)) = tu_total s"
  "tu_scopes (fst (sweep_claims now m s)) = tu_scopes s" "tu_next (fst (sweep_claims now m s)) = tu_next s"
  by (induction m arbitrary: s) (auto simp: split_beta)

lemma claim_same:
  "tu_answers (fst (snd (claim scope use now s))) = tu_answers s" "tu_total (fst (snd (claim scope use now s))) = tu_total s"
  "tu_scopes (fst (snd (claim scope use now s))) = tu_scopes s"
  by (simp_all add: claim_def Let_def split_beta)

lemma use_step_ok: "uses_ok lim s \<Longrightarrow> uses_ok lim (fst (use_step lim s c))"
proof (induction lim s c rule: use_step.induct)
  case (3 lim s scope use now)
  then show ?case by (auto simp: split_beta claim_same intro: uses_ok_only[of lim s])
next
  case (4 lim s scope use token)
  then show ?case by (auto simp: split_beta release_def Let_def intro: uses_ok_only[of lim s])
next
  case (5 lim s scope use now)
  then show ?case by (auto simp: split_beta whenReleased_def Let_def intro: uses_ok_only[of lim s])
next
  case (6 lim s scope use w)
  then show ?case by (auto simp: split_beta waiter_lapsed_def Let_def intro: uses_ok_only[of lim s] split: option.split)
next
  case (7 lim s scope use at now)
  then show ?case by (auto simp: noteWithdrawn_def Let_def intro: uses_ok_only[of lim s])
qed (simp_all add: split_beta keep_ok find_ok)

interpretation uses: machine "use_step lim" "uses_ok lim"
  by unfold_locales (rule use_step_ok)

lemma uses_ok_create: "uses_ok lim createToolUseAnswers"
  by (simp add: uses_ok_def accounted_def within_def createToolUseAnswers_def bytes_where_def bytesOf_def)


section \<open>Claims\<close>

definition leaves_claim :: "jstr \<Rightarrow> nat \<Rightarrow> int \<Rightarrow> use_call \<Rightarrow> bool" where
  "leaves_claim key token at c =
     (case c of
        Release scope use t \<Rightarrow> keyOf scope use = key \<longrightarrow> t \<noteq> token
      | Claim scope use now \<Rightarrow> \<not> claim_lapsed at now
      | _ \<Rightarrow> True)"

lemma sweep_claims_other:
  "\<forall>(k, at, t) \<in> set m. k = key \<longrightarrow> \<not> claim_lapsed at now \<Longrightarrow>
     map_of (tu_claims (fst (sweep_claims now m s))) key = map_of (tu_claims s) key"
  by (induction m arbitrary: s) (auto simp: split_beta)

lemma sweep_wf: "wf_map (tu_claims s) \<Longrightarrow> wf_map (tu_claims (fst (sweep_claims now m s)))"
  by (induction m arbitrary: s) (auto simp: split_beta)

lemma forget_claims [simp]: "tu_claims (forget_answer k s) = tu_claims s"
  by (simp add: forget_answer_def Let_def split: option.split)

lemma keep_claims [simp]: "tu_claims (snd (keep lim scope use answer now s)) = tu_claims s"
proof -
  have "tu_claims (makeRoom lim scope n now s') = tu_claims s" if "tu_claims s' = tu_claims s" for n s'
    using that unfolding makeRoom_def
    by (intro evictUntil_keeps[of "\<lambda>x. tu_claims x = tu_claims s"] forget_expired_keeps[of "\<lambda>x. tu_claims x = tu_claims s"])
      simp_all
  then show ?thesis by (simp add: keep_def Let_def)
qed

lemma find_claims [simp]: "tu_claims (snd (find_answer scope use c now s)) = tu_claims s"
  by (simp add: find_answer_def Let_def split: option.split)

lemma claim_wf: "wf_map (tu_claims s) \<Longrightarrow> wf_map (tu_claims (fst (snd (claim scope use now s))))"
  by (auto simp: claim_def Let_def split_beta sweep_wf)

lemma claims_wf_step: "wf_map (tu_claims s) \<Longrightarrow> wf_map (tu_claims (fst (use_step lim s c)))"
  by (cases c) (auto simp: split_beta claim_wf release_def whenReleased_def waiter_lapsed_def noteWithdrawn_def Let_def
      split: option.splits)

interpretation claims: machine "use_step lim" "\<lambda>s. wf_map (tu_claims s)"
  by unfold_locales (rule claims_wf_step)

lemma claim_kept:
  assumes wf: "wf_map (tu_claims s)" and held: "map_of (tu_claims s) key = Some (at, token)"
    and live: "\<not> claim_lapsed at now"
  shows "map_of (tu_claims (fst (snd (claim scope use now s)))) key = Some (at, token)"
    and "keyOf scope use = key \<Longrightarrow> fst (claim scope use now s) = None"
proof -
  define s1 where "s1 = (if length (tu_claims s) \<ge> claims_sweep_at then fst (sweep_claims now (tu_claims s) s) else s)"
  have "\<forall>(k, at', t) \<in> set (tu_claims s). k = key \<longrightarrow> \<not> claim_lapsed at' now"
    using wf held live by (auto dest: eq_key_imp_eq_value)
  then have s1: "map_of (tu_claims s1) key = Some (at, token)"
    using sweep_claims_other held by (auto simp: s1_def)
  have c: "claim scope use now s =
      (if some_with (map_of (tu_claims s1) (keyOf scope use)) (\<lambda>(at, token). \<not> claim_lapsed at now)
       then (None, s1, snd (snd (claim scope use now s)))
       else (Some (tu_next s1), s1\<lparr>tu_claims := AList.update (keyOf scope use) (now, tu_next s1) (tu_claims s1),
          tu_next := Suc (tu_next s1)\<rparr>, snd (snd (claim scope use now s))))"
    by (simp add: claim_def Let_def s1_def split_beta)
  show "map_of (tu_claims (fst (snd (claim scope use now s)))) key = Some (at, token)"
    by (subst c) (use s1 live in auto)
  show "fst (claim scope use now s) = None" if "keyOf scope use = key"
    by (subst c) (use s1 live that in auto)
qed

lemma claim_stays_step:
  assumes "wf_map (tu_claims s)" "map_of (tu_claims s) key = Some (at, token)" "leaves_claim key token at c"
  shows "map_of (tu_claims (fst (use_step lim s c))) key = Some (at, token)"
  using assms
  by (cases c) (auto simp: split_beta claim_kept release_def whenReleased_def waiter_lapsed_def noteWithdrawn_def
      leaves_claim_def Let_def split: option.splits simp del: map_of_eq_Some_iff)

lemma claim_stays_run:
  "wf_map (tu_claims s) \<Longrightarrow> map_of (tu_claims s) key = Some (at, token) \<Longrightarrow> list_all (leaves_claim key token at) calls \<Longrightarrow>
     map_of (tu_claims (fst (run (use_step lim) s calls))) key = Some (at, token)"
proof (induction calls arbitrary: s)
  case (Cons c calls)
  then show ?case
    using claim_stays_step[of s key at token c lim] claims_wf_step[of s lim c] by (simp add: run_Cons_fst del: run.simps)
qed simp

lemma claim_granted:
  assumes "claim scope use now s = (Some token, s', woken)"
  shows "map_of (tu_claims s') (keyOf scope use) = Some (now, token)"
  using assms by (auto simp: claim_def Let_def split_beta split: if_splits)

text \<open>One session at a time runs a tool use: once a claim is granted, no other claim of the same
  scope and tool use is granted while it has not lapsed, whatever other calls come in between, releases
  by earlier holders of the same tool use included, until its own holder releases it.\<close>

lemma claim_exclusive:
  assumes "s = fst (run (use_step lim) createToolUseAnswers before)"
    and "claim scope use now s = (Some token, s', woken)"
    and "list_all (leaves_claim (keyOf scope use) token now) calls"
    and "\<not> claim_lapsed now later"
  shows "fst (claim scope use later (fst (run (use_step lim) s' calls))) = None"
proof -
  have wf: "wf_map (tu_claims s)"
    unfolding assms(1) by (rule claims.run_ok) (simp add: createToolUseAnswers_def)
  then have "wf_map (tu_claims s')" using claim_wf[of s scope use now] assms(2) by simp
  then have "wf_map (tu_claims (fst (run (use_step lim) s' calls)))"
    and "map_of (tu_claims (fst (run (use_step lim) s' calls))) (keyOf scope use) = Some (now, token)"
    using claims.run_ok claim_stays_run[OF _ claim_granted[OF assms(2)] assms(3)] by auto
  from claim_kept(2)[OF this assms(4) refl] show ?thesis .
qed

lemma claim_exclusive_witness:
  "fst (claim (js ''a'') (js ''t'') 10 (fst (run (use_step \<lparr>ul_total = 9, ul_scope = 9\<rparr>)
     (fst (snd (claim (js ''a'') (js ''t'') 5 createToolUseAnswers))) [Release (js ''a'') (js ''t'') 7]))) = None"
proof -
  have granted: "claim (js ''a'') (js ''t'') 5 createToolUseAnswers
      = (Some 0, fst (snd (claim (js ''a'') (js ''t'') 5 createToolUseAnswers)), [])"
    by (simp add: claim_def Let_def createToolUseAnswers_def claims_sweep_at_def)
  show ?thesis
    by (rule claim_exclusive[OF _ granted, of "\<lparr>ul_total = 9, ul_scope = 9\<rparr>" "[]"])
      (simp_all add: leaves_claim_def claim_lapsed_def tool_use_claim_max_age_ms_def)
qed

section \<open>Replay\<close>

text \<open>A kept answer answers the call it was kept for and no other: a tool use whose answer was kept is
  found, within its time to live, by the same call in the same scope, with the text that was kept; the
  same tool use with another server, tool or arguments is not answered; and a tool use of another scope
  is looked up under another key.\<close>

lemma kept_answer_found:
  assumes "keep lim scope use answer now s = (Kept, s')" and "later - now < tool_use_answer_ttl_ms"
    and "0 \<notin> set use" and "0 \<notin> set use'"
  shows "fst (find_answer scope use c later s') = (if isSameCall (ak_call answer) c then Some (answer, now) else None)
     \<and> (keyOf scope' use' = keyOf scope use \<longleftrightarrow> scope' = scope \<and> use' = use)"
proof -
  have "map_of (tu_answers s') (keyOf scope use)
      = Some \<lparr>sa_answer = answer, sa_kept_at = now, sa_scope = scope, sa_bytes = length (utf8_encode (ak_response answer))\<rparr>"
    using assms(1) by (auto simp: keep_def Let_def split: if_splits)
  then have "fst (find_answer scope use c later s') = (if isSameCall (ak_call answer) c then Some (answer, now) else None)"
    using assms(2) by (simp add: find_answer_def Let_def isExpired_def)
  moreover have "keyOf scope' use' = keyOf scope use \<longleftrightarrow> scope' = scope \<and> use' = use"
  proof
    assume "keyOf scope' use' = keyOf scope use"
    then have rev: "rev use' @ 0 # rev scope' = rev use @ 0 # rev scope"
      by (simp add: keyOf_def flip: rev_append rev.simps(2))
        (metis append.assoc append_Cons append_Nil rev_append rev_rev_ident rev_singleton_conv)
    have "takeWhile (\<lambda>c. c \<noteq> 0) (rev u @ 0 # xs) = rev u" if "0 \<notin> set u" for u xs :: jstr
      using that by (induction "rev u" arbitrary: u) (auto simp: takeWhile_append)
    from this[OF assms(3)] this[OF assms(4)] rev have "rev use' = rev use" by metis
    with rev show "scope' = scope \<and> use' = use" by simp
  qed simp
  ultimately show ?thesis by simp
qed

theorem kept_answer_found_witness:
  "fst (find_answer (js ''a'') (js ''t'') \<lparr>cid_server = [], cid_tool = [], cid_args = []\<rparr> 10
     (snd (keep \<lparr>ul_total = 9, ul_scope = 9\<rparr> (js ''a'') (js ''t'')
       \<lparr>ak_call = \<lparr>cid_server = [], cid_tool = [], cid_args = []\<rparr>, ak_response = [], ak_delivered = True\<rparr> 5
       createToolUseAnswers)))
   = Some (\<lparr>ak_call = \<lparr>cid_server = [], cid_tool = [], cid_args = []\<rparr>, ak_response = [], ak_delivered = True\<rparr>, 5)"
proof -
  let ?answer = "\<lparr>ak_call = \<lparr>cid_server = [], cid_tool = [], cid_args = []\<rparr>, ak_response = [], ak_delivered = True\<rparr>"
  let ?keep = "keep \<lparr>ul_total = 9, ul_scope = 9\<rparr> (js ''a'') (js ''t'') ?answer 5 createToolUseAnswers"
  have "?keep = (Kept, snd ?keep)" by (simp add: keep_def Let_def)
  from kept_answer_found[OF this, of 10 "js ''t''"] show ?thesis
    by (simp add: tool_use_answer_ttl_ms_def isSameCall_def js_unfold)
qed

end
