(* ===== verification/Tasks.thy ===== *)
theory Tasks
  imports Prelude
begin

text \<open>
  Asynchronous code. A call of an \<open>async\<close> function runs to its first \<open>await\<close> on the state it finds, and
  goes on, when the awaited promise settles, on whatever state the program has by then. A \<open>task\<close> is the
  rest of such a call: it has returned, it has thrown, or it waits for a reply. A \<open>proc\<close> is a piece of
  code that still has to start. \<open>exec\<close> runs one on a list of the replies it gets, each with the state it
  is resumed in; \<open>wp\<close> is the weakest precondition of all those runs.
\<close>

section \<open>Tasks and their combinators\<close>

datatype ('s, 'e, 'q, 'r, 'a) task =
    Return 'a
  | Throw
  | Ask 'q "'r \<Rightarrow> 's \<Rightarrow> 's \<times> 'e list \<times> ('s, 'e, 'q, 'r, 'a) task"

type_synonym ('s, 'e, 'q, 'r, 'a) proc = "'s \<Rightarrow> 's \<times> 'e list \<times> ('s, 'e, 'q, 'r, 'a) task"

lemma snd_in_snds: "snd p \<in> Basic_BNFs.snds p"
  by (cases p) (simp add: prod_set_simps)

lemma task_induct [case_names Return Throw Ask]:
  assumes "\<And>x. P (Return x)" and "P Throw" and "\<And>q k. (\<And>r s. P (snd (snd (k r s)))) \<Longrightarrow> P (Ask q k)"
  shows "P t"
proof (induction t)
  case (Ask q k)
  have "P (snd (snd (k r s)))" for r s
    by (rule Ask.IH[OF rangeI rangeI snd_in_snds snd_in_snds])
  then show ?case by (rule assms(3))
qed (use assms in auto)

definition ret :: "'a \<Rightarrow> ('s, 'e, 'q, 'r, 'a) proc" where
  "ret x = (\<lambda>s. (s, [], Return x))"

definition throw :: "('s, 'e, 'q, 'r, 'a) proc" where
  "throw = (\<lambda>s. (s, [], Throw))"

definition emit :: "'e list \<Rightarrow> ('s, 'e, 'q, 'r, unit) proc" where
  "emit es = (\<lambda>s. (s, es, Return ()))"

definition modify :: "('s \<Rightarrow> 's) \<Rightarrow> ('s, 'e, 'q, 'r, unit) proc" where
  "modify f = (\<lambda>s. (f s, [], Return ()))"

text \<open>A change of the state with its effects, and one that also gives a value.\<close>

definition act :: "('s \<Rightarrow> 's \<times> 'e list) \<Rightarrow> ('s, 'e, 'q, 'r, unit) proc" where
  "act f = (\<lambda>s. (fst (f s), snd (f s), Return ()))"

definition acting :: "('s \<Rightarrow> 'a \<times> 's \<times> 'e list) \<Rightarrow> ('s, 'e, 'q, 'r, 'a) proc" where
  "acting f = (\<lambda>s. (fst (snd (f s)), snd (snd (f s)), Return (fst (f s))))"

definition reading :: "('s \<Rightarrow> ('s, 'e, 'q, 'r, 'a) proc) \<Rightarrow> ('s, 'e, 'q, 'r, 'a) proc" where
  "reading f = (\<lambda>s. f s s)"

text \<open>\<open>const r = await q\<close>.\<close>

definition await :: "'q \<Rightarrow> ('r \<Rightarrow> ('s, 'e, 'q, 'r, 'a) proc) \<Rightarrow> ('s, 'e, 'q, 'r, 'a) proc" where
  "await q k = (\<lambda>s. (s, [], Ask q k))"

text \<open>What happened before, in front of what a piece of code does.\<close>

definition after :: "'e list \<Rightarrow> 's \<times> 'e list \<times> 't \<Rightarrow> 's \<times> 'e list \<times> 't" where
  "after es r = (fst r, es @ fst (snd r), snd (snd r))"

text \<open>
  Both ways a piece of code can end: \<open>f\<close> goes on with the value, \<open>g\<close> with the exception, on the state it
  was left in.
\<close>

primrec finish_with ::
  "('a \<Rightarrow> ('s, 'e, 'q, 'r, 'b) proc) \<Rightarrow> ('s, 'e, 'q, 'r, 'b) proc \<Rightarrow> ('s, 'e, 'q, 'r, 'a) task \<Rightarrow>
   ('s, 'e, 'q, 'r, 'b) proc" where
  "finish_with f g (Return x) = f x"
| "finish_with f g Throw = g"
| "finish_with f g (Ask q k) = (\<lambda>s. (s, [], Ask q (\<lambda>r s'.
     case map_prod id (map_prod id (finish_with f g)) (k r s') of (s1, es, p) \<Rightarrow> after es (p s1))))"

definition try_with ::
  "('s, 'e, 'q, 'r, 'a) proc \<Rightarrow> ('a \<Rightarrow> ('s, 'e, 'q, 'r, 'b) proc) \<Rightarrow> ('s, 'e, 'q, 'r, 'b) proc \<Rightarrow>
   ('s, 'e, 'q, 'r, 'b) proc" where
  "try_with p f g = (\<lambda>s. case p s of (s1, es, t) \<Rightarrow> after es (finish_with f g t s1))"

definition and_then ::
  "('s, 'e, 'q, 'r, 'a) proc \<Rightarrow> ('a \<Rightarrow> ('s, 'e, 'q, 'r, 'b) proc) \<Rightarrow> ('s, 'e, 'q, 'r, 'b) proc" where
  "and_then p f = try_with p f throw"

definition catching :: "('s, 'e, 'q, 'r, 'a) proc \<Rightarrow> ('s, 'e, 'q, 'r, 'a) proc \<Rightarrow> ('s, 'e, 'q, 'r, 'a) proc" where
  "catching p g = try_with p ret g"

definition finalizing :: "('s, 'e, 'q, 'r, 'a) proc \<Rightarrow> ('s, 'e, 'q, 'r, unit) proc \<Rightarrow> ('s, 'e, 'q, 'r, 'a) proc" where
  "finalizing p g = try_with p (\<lambda>x. and_then g (\<lambda>_. ret x)) (and_then g (\<lambda>_. throw))"

definition then_do :: "('s, 'e, 'q, 'r, unit) proc \<Rightarrow> ('s, 'e, 'q, 'r, 'b) proc \<Rightarrow> ('s, 'e, 'q, 'r, 'b) proc" where
  "then_do p q = and_then p (\<lambda>_. q)"

section \<open>Runs\<close>

datatype ('s, 'e, 'q, 'r) moment = Did 'e | Awaited 'q 'r 's

datatype ('q, 'a) ending = Finished 'a | Raised | Suspended 'q

primrec exec_task ::
  "('s, 'e, 'q, 'r, 'a) task \<Rightarrow> ('r \<times> 's) list \<Rightarrow> ('s, 'e, 'q, 'r) moment list \<times> ('q, 'a) ending" where
  "exec_task (Return x) = (\<lambda>replies. ([], Finished x))"
| "exec_task Throw = (\<lambda>replies. ([], Raised))"
| "exec_task (Ask q k) = (\<lambda>replies.
     case replies of
       [] \<Rightarrow> ([], Suspended q)
     | (r, s) # rest \<Rightarrow>
         (case map_prod id (map_prod id exec_task) (k r s) of
            (s1, es, run) \<Rightarrow> (case run rest of (more, fin) \<Rightarrow> (Awaited q r s # map Did es @ more, fin))))"

definition exec ::
  "('s, 'e, 'q, 'r, 'a) proc \<Rightarrow> 's \<Rightarrow> ('r \<times> 's) list \<Rightarrow> ('s, 'e, 'q, 'r) moment list \<times> ('q, 'a) ending" where
  "exec p s replies =
     (case p s of (s1, es, t) \<Rightarrow> (case exec_task t replies of (more, fin) \<Rightarrow> (map Did es @ more, fin)))"

section \<open>Weakest preconditions\<close>

text \<open>
  \<open>Q\<close> is asked of the history, the state and the value (\<open>None\<close> for an exception) at every end the task
  can come to, whatever the replies and the states it is resumed in.
\<close>

primrec wp_task ::
  "(('s, 'e, 'q, 'r) moment list \<Rightarrow> 's \<Rightarrow> 'a option \<Rightarrow> bool) \<Rightarrow> ('s, 'e, 'q, 'r, 'a) task \<Rightarrow>
   ('s, 'e, 'q, 'r) moment list \<Rightarrow> 's \<Rightarrow> bool" where
  "wp_task Q (Return x) = (\<lambda>h s. Q h s (Some x))"
| "wp_task Q Throw = (\<lambda>h s. Q h s None)"
| "wp_task Q (Ask q k) = (\<lambda>h s. \<forall>r s1.
     case map_prod id (map_prod id (wp_task Q)) (k r s1) of (s2, es, ok) \<Rightarrow> ok (h @ Awaited q r s1 # map Did es) s2)"

definition wp ::
  "(('s, 'e, 'q, 'r) moment list \<Rightarrow> 's \<Rightarrow> 'a option \<Rightarrow> bool) \<Rightarrow> ('s, 'e, 'q, 'r, 'a) proc \<Rightarrow>
   ('s, 'e, 'q, 'r) moment list \<Rightarrow> 's \<Rightarrow> bool" where
  "wp Q p h s = (case p s of (s1, es, t) \<Rightarrow> wp_task Q t (h @ map Did es) s1)"

named_theorems wp_simps

lemma wp_after: "wp Q (\<lambda>s. after es (p s)) h s = wp Q p (h @ map Did es) s"
  by (simp add: wp_def after_def split_beta)

lemma wp_finish_with:
  "wp Q (finish_with f g t) h s =
     wp_task (\<lambda>h s out. case out of Some x \<Rightarrow> wp Q (f x) h s | None \<Rightarrow> wp Q g h s) t h s"
proof (induction t arbitrary: h s rule: task_induct)
  case (Ask q k)
  have "wp Q (finish_with f g (Ask q k)) h s \<longleftrightarrow>
     (\<forall>r s1. wp Q (finish_with f g (snd (snd (k r s1)))) (h @ Awaited q r s1 # map Did (fst (snd (k r s1)))) (fst (k r s1)))"
    by (simp add: wp_def after_def split_beta)
  then show ?case by (simp add: Ask.IH split_beta)
qed (simp_all add: wp_def)

lemma wp_cong: "(\<And>h s out. Q h s out = R h s out) \<Longrightarrow> wp Q p h s = wp R p h s"
  by (intro arg_cong[where f = "\<lambda>Q. wp Q p h s"] ext)

lemma wp_try_with [wp_simps]:
  "wp Q (try_with p f g) h s =
     wp (\<lambda>h s out. case out of Some x \<Rightarrow> wp Q (f x) h s | None \<Rightarrow> wp Q g h s) p h s"
  by (simp add: try_with_def wp_def[of _ p] split_beta wp_finish_with[symmetric])
    (simp add: wp_def after_def split_beta)

lemma wp_ret [wp_simps]: "wp Q (ret x) h s = Q h s (Some x)"
  by (simp add: ret_def wp_def)

lemma wp_throw [wp_simps]: "wp Q throw h s = Q h s None"
  by (simp add: throw_def wp_def)

lemma wp_emit [wp_simps]: "wp Q (emit es) h s = Q (h @ map Did es) s (Some ())"
  by (simp add: emit_def wp_def)

lemma wp_modify [wp_simps]: "wp Q (modify u) h s = Q h (u s) (Some ())"
  by (simp add: modify_def wp_def)

lemma wp_act [wp_simps]: "wp Q (act f) h s = Q (h @ map Did (snd (f s))) (fst (f s)) (Some ())"
  by (simp add: act_def wp_def)

lemma wp_acting [wp_simps]: "wp Q (acting f) h s = Q (h @ map Did (snd (snd (f s)))) (fst (snd (f s))) (Some (fst (f s)))"
  by (simp add: acting_def wp_def)

lemma wp_reading [wp_simps]: "wp Q (reading b) h s = wp Q (b s) h s"
  by (simp add: reading_def wp_def)

lemma wp_await [wp_simps]: "wp Q (await q k) h s = (\<forall>r s1. wp Q (k r) (h @ [Awaited q r s1]) s1)"
  by (simp add: await_def wp_def split_beta)

lemma wp_and_then [wp_simps]:
  "wp Q (and_then p f) h s = wp (\<lambda>h s out. case out of Some x \<Rightarrow> wp Q (f x) h s | None \<Rightarrow> Q h s None) p h s"
  unfolding and_then_def wp_try_with by (rule wp_cong) (simp add: wp_throw split: option.split)

lemma wp_catching [wp_simps]:
  "wp Q (catching p g) h s = wp (\<lambda>h s out. case out of Some x \<Rightarrow> Q h s (Some x) | None \<Rightarrow> wp Q g h s) p h s"
  unfolding catching_def wp_try_with by (rule wp_cong) (simp add: wp_ret split: option.split)

lemma wp_then_do [wp_simps]:
  "wp Q (then_do p q) h s = wp (\<lambda>h s out. case out of Some x \<Rightarrow> wp Q q h s | None \<Rightarrow> Q h s None) p h s"
  by (simp add: then_do_def wp_and_then)

lemma wp_finalizing [wp_simps]:
  "wp Q (finalizing p g) h s =
     wp (\<lambda>h s out. wp (\<lambda>h s gout. if gout = None then Q h s None else Q h s out) g h s) p h s"
  unfolding finalizing_def wp_try_with
proof (rule wp_cong)
  fix h s out
  show "(case out of None \<Rightarrow> wp Q (and_then g (\<lambda>_. throw)) h s | Some x \<Rightarrow> wp Q (and_then g (\<lambda>_. ret x)) h s) =
      wp (\<lambda>h s gout. if gout = None then Q h s None else Q h s out) g h s"
    by (cases out) (auto simp: wp_and_then wp_throw wp_ret intro!: wp_cong split: option.split)
qed

lemma wp_if [wp_simps]: "wp Q (if b then p else q) h s = (if b then wp Q p h s else wp Q q h s)"
  by simp

lemma wp_option [wp_simps]: "wp Q (case x of None \<Rightarrow> p | Some y \<Rightarrow> f y) h s = (case x of None \<Rightarrow> wp Q p h s | Some y \<Rightarrow> wp Q (f y) h s)"
  by (cases x) simp_all

lemma wp_prod [wp_simps]: "wp Q (case x of (a, b) \<Rightarrow> f a b) h s = (case x of (a, b) \<Rightarrow> wp Q (f a b) h s)"
  by (cases x) simp

lemma wp_task_mono: "wp_task Q t h s \<Longrightarrow> (\<And>h s out. Q h s out \<Longrightarrow> R h s out) \<Longrightarrow> wp_task R t h s"
proof (induction t arbitrary: h s rule: task_induct)
  case (Ask q k)
  from Ask.prems(1) show ?case by (auto simp: split_beta intro: Ask.IH[OF _ Ask.prems(2)])
qed simp_all

lemma wp_mono: "wp Q p h s \<Longrightarrow> (\<And>h s out. Q h s out \<Longrightarrow> R h s out) \<Longrightarrow> wp R p h s"
  by (auto simp: wp_def split_beta intro: wp_task_mono)

text \<open>What the precondition promises, every run delivers.\<close>

lemma exec_task_wp:
  "wp_task Q t h s \<Longrightarrow> exec_task t replies = (tr, Finished x) \<Longrightarrow> \<exists>s'. Q (h @ tr) s' (Some x)"
proof (induction t arbitrary: h s replies tr rule: task_induct)
  case (Ask q k)
  obtain r s1 rest where replies: "replies = (r, s1) # rest"
    using Ask.prems(2) by (cases replies) auto
  obtain more where more: "exec_task (snd (snd (k r s1))) rest = (more, Finished x)"
    "tr = Awaited q r s1 # map Did (fst (snd (k r s1))) @ more"
    using Ask.prems(2) by (auto simp: replies split_beta) (metis prod.collapse)
  have "wp_task Q (snd (snd (k r s1))) (h @ Awaited q r s1 # map Did (fst (snd (k r s1)))) (fst (k r s1))"
    using Ask.prems(1) by (auto simp: split_beta)
  from Ask.IH[OF this more(1)] more(2) show ?case by simp
qed auto

lemma exec_wp: "wp Q p [] s \<Longrightarrow> exec p s replies = (tr, Finished x) \<Longrightarrow> \<exists>s'. Q tr s' (Some x)"
  by (auto simp: wp_def exec_def split: prod.splits dest: exec_task_wp)

text \<open>What a run awaited was among the replies.\<close>

lemma exec_task_awaited: "Awaited q r s \<in> set (fst (exec_task t replies)) \<Longrightarrow> (r, s) \<in> set replies"
proof (induction t arbitrary: replies rule: task_induct)
  case (Ask p k)
  then show ?case by (cases replies) (auto simp: split_beta)
qed simp_all

lemma exec_awaited: "Awaited q r s \<in> set (fst (exec p s0 replies)) \<Longrightarrow> (r, s) \<in> set replies"
  by (auto simp: exec_def split_beta dest: exec_task_awaited)

section \<open>Runs of the combinators\<close>

named_theorems exec_simps

lemma after_simps [simp]: "after [] r = r" "after es (after es' r) = after (es @ es') r"
  by (simp_all add: after_def)

lemma finish_with_assoc:
  assumes F: "\<And>x. F x = try_with (f x) f' g'" and G: "G = try_with g f' g'"
  shows "try_with (finish_with f g t) f' g' s = finish_with F G t s"
proof (induction t arbitrary: s rule: task_induct)
  case (Ask q k)
  define K where "K r s1 = after (fst (snd (k r s1))) (finish_with f g (snd (snd (k r s1))) (fst (k r s1)))" for r s1
  have first: "finish_with f g (Ask q k) = (\<lambda>s. (s, [], Ask q K))"
    by (simp add: K_def[abs_def] split_beta)
  have rest: "after (fst (snd (K r s1))) (finish_with f' g' (snd (snd (K r s1))) (fst (K r s1))) =
      after (fst (snd (k r s1))) (try_with (finish_with f g (snd (snd (k r s1)))) f' g' (fst (k r s1)))" for r s1
    by (simp add: K_def after_def try_with_def split_beta)
  show ?case
    unfolding first by (simp add: try_with_def[of "\<lambda>s. (s, [], Ask q K)"] split_beta rest Ask.IH)
qed (simp_all add: F G try_with_def)

lemma try_with_assoc [exec_simps]:
  "try_with (try_with p f g) f' g' = try_with p (\<lambda>x. try_with (f x) f' g') (try_with g f' g')"
proof
  fix s
  have "try_with (try_with p f g) f' g' s =
      after (fst (snd (p s))) (try_with (finish_with f g (snd (snd (p s)))) f' g' (fst (p s)))"
    by (simp add: try_with_def after_def split_beta)
  also have "\<dots> = try_with p (\<lambda>x. try_with (f x) f' g') (try_with g f' g') s"
    unfolding finish_with_assoc[OF refl refl] by (simp add: try_with_def split_beta)
  finally show "try_with (try_with p f g) f' g' s = \<dots>" .
qed

lemma try_with_steps [exec_simps]:
  "try_with (ret x) f g = f x"
  "try_with throw f g = g"
  "try_with (await q k) f g = await q (\<lambda>r. try_with (k r) f g)"
  "try_with (reading b) f g = reading (\<lambda>s. try_with (b s) f g)"
  by (simp_all add: fun_eq_iff try_with_def ret_def throw_def await_def reading_def after_def split_beta)

lemma try_with_if [exec_simps]: "try_with (if b then p else p') f g = (if b then try_with p f g else try_with p' f g)"
  by simp

lemma exec_steps [exec_simps]:
  "exec (ret x) s rs = ([], Finished x)"
  "exec throw s rs = ([], Raised)"
  "exec (reading b) s rs = exec (b s) s rs"
  "exec (await q k) s [] = ([], Suspended q)"
  "exec (await q k) s ((r, s1) # rest) = (case exec (k r) s1 rest of (tr, fin) \<Rightarrow> (Awaited q r s1 # tr, fin))"
  "exec (try_with (emit es) f g) s rs = (case exec (f ()) s rs of (tr, fin) \<Rightarrow> (map Did es @ tr, fin))"
  "exec (try_with (modify u) f g) s rs = exec (f ()) (u s) rs"
  "exec (try_with (act a) f g) s rs = (case exec (f ()) (fst (a s)) rs of (tr, fin) \<Rightarrow> (map Did (snd (a s)) @ tr, fin))"
  "exec (try_with (acting c) f' g) s rs =
     (case exec (f' (fst (c s))) (fst (snd (c s))) rs of (tr, fin) \<Rightarrow> (map Did (snd (snd (c s))) @ tr, fin))"
  by (simp_all add: exec_def ret_def throw_def reading_def await_def emit_def modify_def act_def acting_def try_with_def
      after_def split_beta)

text \<open>Code that throws is followed by its handler, on the state and the replies that are left.\<close>

lemma exec_task_raised:
  "exec_task t rs = (tr, Raised) \<Longrightarrow>
     \<exists>s' rest. exec (finish_with f g t) s rs = (tr @ fst (exec g s' rest), snd (exec g s' rest))"
proof (induction t arbitrary: s rs tr rule: task_induct)
  case Throw
  then show ?case by (auto intro!: exI[of _ s] exI[of _ rs])
next
  case (Ask q k)
  obtain r s1 rest where rs: "rs = (r, s1) # rest" using Ask.prems by (cases rs) auto
  obtain more where more: "exec_task (snd (snd (k r s1))) rest = (more, Raised)"
    "tr = Awaited q r s1 # map Did (fst (snd (k r s1))) @ more"
    using Ask.prems by (auto simp: rs split_beta) (metis prod.collapse)
  obtain s' rest' where "exec (finish_with f g (snd (snd (k r s1)))) (fst (k r s1)) rest =
      (more @ fst (exec g s' rest'), snd (exec g s' rest'))"
    using Ask.IH[OF more(1)] by blast
  then show ?case
    by (intro exI[of _ s'] exI[of _ rest']) (simp add: rs more(2) exec_def after_def split_beta)
qed simp_all

lemma exec_raised:
  assumes "exec p s rs = (tr, Raised)"
  shows "\<exists>s' rest. exec (try_with p f g) s rs = (tr @ fst (exec g s' rest), snd (exec g s' rest))"
proof -
  obtain more where more: "exec_task (snd (snd (p s))) rs = (more, Raised)" "tr = map Did (fst (snd (p s))) @ more"
    using assms by (auto simp: exec_def split_beta) (metis prod.collapse)
  obtain s' rest where "exec (finish_with f g (snd (snd (p s)))) (fst (p s)) rs = (more @ fst (exec g s' rest), snd (exec g s' rest))"
    using exec_task_raised[OF more(1)] by blast
  then show ?thesis
    by (intro exI[of _ s'] exI[of _ rest]) (simp add: more(2) exec_def try_with_def after_def split_beta)
qed

text \<open>Code that cannot end in an exception does not.\<close>

lemma exec_task_no_raise:
  "wp_task (\<lambda>h s out. out \<noteq> None) t h s \<Longrightarrow> snd (exec_task t rs) \<noteq> Raised"
proof (induction t arbitrary: h s rs rule: task_induct)
  case (Ask q k)
  then show ?case by (cases rs) (fastforce simp: split_beta)+
qed simp_all

lemma exec_no_raise: "wp (\<lambda>h s out. out \<noteq> None) p h s \<Longrightarrow> snd (exec p s rs) \<noteq> Raised"
  unfolding wp_def exec_def split_beta snd_conv by (rule exec_task_no_raise)

lemma wp_task_True: "wp_task (\<lambda>h s out. True) t h s"
  by (induction t arbitrary: h s rule: task_induct) (simp_all add: split_beta)

lemma wp_True: "wp (\<lambda>h s out. True) p h s"
  by (simp add: wp_def split_beta wp_task_True)

end
