(* ===== verification/Gate_Ids.thy ===== *)
theory Gate_Ids
  imports Machine
begin

text \<open>
  \<open>proxy/id-tracking.ts\<close>: a set of request ids that forgets the oldest at its cap, and the answer
  guard, which remembers that the gate answered an id itself for as long as some call waits under it. A
  \<open>Set\<close> is the list of its elements in insertion order.
\<close>

section \<open>The bounded set\<close>

definition set_add :: "'a \<Rightarrow> 'a list \<Rightarrow> 'a list" where
  "set_add x xs = (if x \<in> set xs then xs else xs @ [x])"

text \<open>\<open>while (keys.size >= maxEntries && keys.size > 0) evictOldest()\<close>; the evicted keys are returned.\<close>

fun evict_oldest :: "nat \<Rightarrow> jstr list \<Rightarrow> jstr list \<times> jstr list" where
  "evict_oldest maxEntries [] = ([], [])"
| "evict_oldest maxEntries (k # ks) =
     (if length (k # ks) \<ge> maxEntries
      then (let (kept, evicted) = evict_oldest maxEntries ks in (kept, k # evicted)) else (k # ks, []))"

definition bounded_add :: "nat \<Rightarrow> jstr \<Rightarrow> jstr list \<Rightarrow> jstr list \<times> jstr list" where
  "bounded_add maxEntries key ids =
     (let (kept, evicted) = evict_oldest maxEntries (removeAll key ids) in (kept @ [key], evicted))"

definition bounded_delete :: "jstr \<Rightarrow> jstr list \<Rightarrow> bool \<times> jstr list" where
  "bounded_delete key ids = (key \<in> set ids, removeAll key ids)"

lemma evict_oldest_length: "length (fst (evict_oldest m ks)) < m \<or> fst (evict_oldest m ks) = []"
  by (induction m ks rule: evict_oldest.induct) (auto simp: split_beta)

lemma evict_oldest_split: "snd (evict_oldest m ks) @ fst (evict_oldest m ks) = ks"
  by (induction m ks rule: evict_oldest.induct) (auto simp: split_beta)

lemma evict_oldest_distinct: "distinct ks \<Longrightarrow> distinct (fst (evict_oldest m ks))"
  by (metis distinct_append evict_oldest_split)

lemma evict_oldest_subset: "set (fst (evict_oldest m ks)) \<subseteq> set ks"
  by (metis evict_oldest_split set_append sup.cobounded2)

definition bounded_ok :: "nat \<Rightarrow> jstr list \<Rightarrow> bool" where
  "bounded_ok maxEntries ids \<longleftrightarrow> distinct ids \<and> length ids \<le> max 1 maxEntries"

lemma bounded_add_ok: "bounded_ok m ids \<Longrightarrow> bounded_ok m (fst (bounded_add m key ids))"
  using evict_oldest_length[of m "removeAll key ids"] evict_oldest_distinct[of "removeAll key ids" m]
    evict_oldest_subset[of m "removeAll key ids"]
  by (auto simp: bounded_ok_def bounded_add_def split_beta distinct_removeAll)

lemma bounded_delete_ok: "bounded_ok m ids \<Longrightarrow> bounded_ok m (snd (bounded_delete key ids))"
  by (auto simp: bounded_ok_def bounded_delete_def distinct_removeAll intro: le_trans[OF length_removeAll_less_eq])

lemma in_bounded_add [simp]: "key \<in> set (fst (bounded_add m key ids))"
  by (simp add: bounded_add_def split_beta)

section \<open>The answer guard\<close>

record answer_guard =
  ag_answered :: "jstr list"
  ag_waits :: "(jstr \<times> nat) list"
  ag_burned :: "jstr list"

definition createAnswerGuard :: answer_guard where
  "createAnswerGuard = \<lparr>ag_answered = [], ag_waits = [], ag_burned = []\<rparr>"

definition markAnswered :: "nat \<Rightarrow> jstr \<Rightarrow> answer_guard \<Rightarrow> answer_guard" where
  "markAnswered maxEntries key g =
     (let g1 = g\<lparr>ag_answered := fst (bounded_add maxEntries key (ag_answered g))\<rparr>
      in if has_own (ag_waits g) key then g1\<lparr>ag_burned := set_add key (ag_burned g)\<rparr> else g1)"

definition isAnswered :: "answer_guard \<Rightarrow> jstr \<Rightarrow> bool" where
  "isAnswered g key \<longleftrightarrow> key \<in> set (ag_answered g) \<or> key \<in> set (ag_burned g)"

definition wait_count :: "answer_guard \<Rightarrow> jstr \<Rightarrow> nat" where
  "wait_count g key = (case map_of (ag_waits g) key of Some n \<Rightarrow> n | None \<Rightarrow> 0)"

definition beginWait :: "jstr \<Rightarrow> answer_guard \<Rightarrow> answer_guard" where
  "beginWait key g = g\<lparr>ag_waits := AList.update key (wait_count g key + 1) (ag_waits g)\<rparr>"

definition endWait :: "jstr \<Rightarrow> answer_guard \<Rightarrow> answer_guard" where
  "endWait key g =
     (let next = int (wait_count g key) - 1 in
      if next \<le> 0 then g\<lparr>ag_waits := AList.delete key (ag_waits g), ag_burned := removeAll key (ag_burned g)\<rparr>
      else g\<lparr>ag_waits := AList.update key (nat next) (ag_waits g)\<rparr>)"

datatype guard_call = Mark jstr | Begin jstr | End jstr

fun guard_step :: "nat \<Rightarrow> answer_guard \<Rightarrow> guard_call \<Rightarrow> answer_guard \<times> unit list" where
  "guard_step m g (Mark key) = (markAnswered m key g, [])"
| "guard_step m g (Begin key) = (beginWait key g, [])"
| "guard_step m g (End key) = (endWait key g, [])"

definition guard_ok :: "nat \<Rightarrow> answer_guard \<Rightarrow> bool" where
  "guard_ok m g \<longleftrightarrow> bounded_ok m (ag_answered g) \<and> wf_map (ag_waits g) \<and> distinct (ag_burned g) \<and>
     (\<forall>(k, n) \<in> set (ag_waits g). 0 < n) \<and> (\<forall>k \<in> set (ag_burned g). has_own (ag_waits g) k)"

lemma in_update: "x \<in> set (AList.update k v m) \<Longrightarrow> x = (k, v) \<or> x \<in> set m"
  by (induction m) (auto split: if_splits)

lemma in_delete: "x \<in> set (AList.delete k m) \<Longrightarrow> x \<in> set m"
  by (simp add: AList.delete_eq)

lemma mark_ok: "guard_ok m g \<Longrightarrow> guard_ok m (markAnswered m key g)"
  using bounded_add_ok[of m "ag_answered g" key]
  by (simp add: guard_ok_def markAnswered_def set_add_def Let_def del: map_of_eq_Some_iff)

lemma begin_ok: "guard_ok m g \<Longrightarrow> guard_ok m (beginWait key g)"
  by (auto simp: guard_ok_def beginWait_def dest!: in_update simp del: map_of_eq_Some_iff)

lemma end_ok: "guard_ok m g \<Longrightarrow> guard_ok m (endWait key g)"
  by (auto simp: guard_ok_def endWait_def Let_def distinct_removeAll dest!: in_update in_delete simp del: map_of_eq_Some_iff)

lemma guard_step_ok: "guard_ok m g \<Longrightarrow> guard_ok m (fst (guard_step m g call))"
  by (cases call) (simp_all add: mark_ok begin_ok end_ok)

lemma burned_begin [simp]: "ag_burned (beginWait key g) = ag_burned g"
  by (simp add: beginWait_def)

interpretation guard: machine "guard_step m" "guard_ok m"
  by unfold_locales (rule guard_step_ok)

text \<open>
  What the guard is for, counted from the calls alone: whether an answer was given to \<open>key\<close> while some
  wait under it was open, and that wait has not ended since.
\<close>

fun answered_in_wait :: "jstr \<Rightarrow> nat \<Rightarrow> bool \<Rightarrow> guard_call list \<Rightarrow> nat \<times> bool" where
  "answered_in_wait key n marked [] = (n, marked)"
| "answered_in_wait key n marked (Mark k # calls) = answered_in_wait key n (marked \<or> k = key \<and> 0 < n) calls"
| "answered_in_wait key n marked (Begin k # calls) = answered_in_wait key (if k = key then Suc n else n) marked calls"
| "answered_in_wait key n marked (End k # calls) =
     (if k = key then answered_in_wait key (n - 1) (marked \<and> 1 < n) calls else answered_in_wait key n marked calls)"

lemma wait_count_steps [simp]:
  "wait_count (markAnswered m k g) key = wait_count g key"
  "wait_count (beginWait k g) key = (if k = key then Suc (wait_count g key) else wait_count g key)"
  "wait_count (endWait k g) key = (if k = key then wait_count g key - 1 else wait_count g key)"
  by (auto simp: wait_count_def markAnswered_def beginWait_def endWait_def Let_def)

lemma answered_in_wait_burned:
  "guard_ok m g \<Longrightarrow> (marked \<Longrightarrow> key \<in> set (ag_burned g)) \<Longrightarrow>
   snd (answered_in_wait key (wait_count g key) marked calls) \<Longrightarrow>
   key \<in> set (ag_burned (fst (run (guard_step m) g calls)))"
proof (induction calls arbitrary: g marked)
  case (Cons call calls)
  note ok = guard_step_ok[OF Cons.prems(1), of call]
  have own: "has_own (ag_waits g) key" if "0 < wait_count g key"
    using that by (auto simp: wait_count_def split: option.splits)
  show ?case
  proof (cases call)
    case (Mark k)
    have "marked \<or> k = key \<and> 0 < wait_count g key \<Longrightarrow> key \<in> set (ag_burned (markAnswered m k g))"
      using Cons.prems(2) own by (auto simp: markAnswered_def set_add_def Let_def)
    then show ?thesis
      using Cons.IH[of "markAnswered m k g" "marked \<or> k = key \<and> 0 < wait_count g key"] Cons.prems(3) ok Mark
      by (auto simp: run_Cons_fst simp del: run.simps)
  next
    case (Begin k)
    then show ?thesis
      using Cons.IH[of "beginWait k g" marked] Cons.prems ok
      by (auto simp: run_Cons_fst simp del: run.simps)
  next
    case (End k)
    have "(if k = key then marked \<and> 1 < wait_count g key else marked) \<Longrightarrow> key \<in> set (ag_burned (endWait k g))"
      using Cons.prems(2) by (auto simp: endWait_def Let_def split: if_splits)
    then show ?thesis
      using Cons.IH[of "endWait k g" "if k = key then marked \<and> 1 < wait_count g key else marked"] Cons.prems(3) ok End
      by (auto simp: run_Cons_fst split: if_splits simp del: run.simps)
  qed
qed simp



end
