(* ===== verification/Client_Confirm.thy ===== *)
theory Client_Confirm
  imports Machine Protocol
begin

text \<open>
  \<open>proxy/client-confirm.ts\<close>: the questions the gate puts to the person at the client, one at a time. The
  state is the closure of \<open>createClientConfirmer\<close>; an entry is known by its number, a promise by the entry
  it belongs to. The text of a question is rendered when it is sent and stays with the question here.
\<close>

definition client_confirm_id_prefix :: jstr where "client_confirm_id_prefix = js ''mcpcut-confirm-''"
definition min_human_answer_ms :: int where "min_human_answer_ms = 1000"
definition max_client_name_chars :: nat where "max_client_name_chars = 64"
definition accept_rounds :: nat where "accept_rounds = 2"

record confirm_question =
  cq_tool :: jstr
  cq_server :: jstr
  cq_args :: json
  cq_then_admin :: bool

datatype confirm_answer =
    Accepted jstr
  | Declined jstr
  | CancelledByPerson jstr
  | TooFast
  | ConfirmFailed
  | ConfirmWithdrawn

record client_abilities =
  ca_name :: jstr
  ca_sends_mode :: bool

record shown_question =
  sq_id :: jstr
  sq_entry :: nat
  sq_question :: confirm_question
  sq_sent_at :: int
  sq_round :: nat

record confirmer =
  cf_abilities :: "client_abilities option"
  cf_observed :: bool
  cf_shown :: "shown_question option"
  cf_count :: nat
  cf_waiting :: "(nat \<times> confirm_question) list"
  cf_settled :: "nat list"

definition createClientConfirmer :: confirmer where
  "createClientConfirmer = \<lparr>cf_abilities = None, cf_observed = False, cf_shown = None, cf_count = 0,
     cf_waiting = [], cf_settled = []\<rparr>"

text \<open>\<open>/[^A-Za-z0-9._-]+/g\<close> replaced by one hyphen.\<close>

definition client_name_unit :: "u16 \<Rightarrow> bool" where
  "client_name_unit c \<longleftrightarrow> upper c \<or> lower_or_digit c \<or> c \<in> set (js ''._-'')"

function safe_client_name :: "jstr \<Rightarrow> jstr" where
  "safe_client_name [] = []"
| "safe_client_name (c # s) =
     (if client_name_unit c then c # safe_client_name s
      else unit_of (CHR ''-'') # safe_client_name (dropWhile (\<lambda>c. \<not> client_name_unit c) s))"
  by pat_completeness auto
termination
  by (relation "measure length") (auto intro: le_less_trans[OF length_dropWhile_le])

definition abilitiesOf :: "(jstr \<Rightarrow> json option) \<Rightarrow> jstr \<Rightarrow> client_abilities option" where
  "abilitiesOf parse raw =
     (case Option.bind (as_obj (parse raw)) (\<lambda>m. as_obj (get_prop m (js ''params''))) of None \<Rightarrow> None
      | Some params \<Rightarrow>
          (case Option.bind (as_obj (get_prop params (js ''capabilities''))) (\<lambda>c. as_obj (get_prop c (js ''elicitation''))) of
             None \<Rightarrow> None
           | Some elicitation \<Rightarrow>
               (let ks = keys elicitation in
                if ks \<noteq> [] \<and> js ''form'' \<notin> set ks then None
                else let raw_name = (case Option.bind (as_obj (get_prop params (js ''clientInfo''))) (\<lambda>i. as_str (get_prop i (js ''name''))) of
                          Some n \<Rightarrow> n | None \<Rightarrow> []);
                        safe = take max_client_name_chars (safe_client_name raw_name)
                  in Some \<lparr>ca_name = (if safe = [] then js ''unknown'' else safe), ca_sends_mode = (js ''form'' \<in> set ks)\<rparr>)))"

definition actionOf :: "(jstr \<Rightarrow> json option) \<Rightarrow> jstr \<Rightarrow> jstr option" where
  "actionOf parse raw =
     Option.bind (as_obj (parse raw)) (\<lambda>m. Option.bind (as_obj (get_prop m (js ''result'')))
       (\<lambda>r. as_str (get_prop r (js ''action''))))"

datatype confirm_effect =
    SendQuestion jstr confirm_question nat bool
  | SendCancelled jstr
  | SettleAnswer nat confirm_answer
  | Handled bool

definition confirm_actor :: "confirmer \<Rightarrow> jstr" where
  "confirm_actor s = js ''client:'' @ (case cf_abilities s of Some a \<Rightarrow> ca_name a | None \<Rightarrow> js ''unknown'')"

definition question_id :: "jstr \<Rightarrow> nat \<Rightarrow> nat \<Rightarrow> jstr" where
  "question_id id_prefix n round = id_prefix @ decimal n @ (if round > 1 then js ''-'' @ decimal round else [])"

definition show_question ::
  "jstr \<Rightarrow> nat \<times> confirm_question \<Rightarrow> nat \<Rightarrow> int \<Rightarrow> confirmer \<Rightarrow> confirmer \<times> confirm_effect list" where
  "show_question id_prefix entry round now s =
     (let (n, question) = entry; i = question_id id_prefix n round;
          mode = (case cf_abilities s of Some a \<Rightarrow> ca_sends_mode a | None \<Rightarrow> False)
      in (s\<lparr>cf_shown := Some \<lparr>sq_id = i, sq_entry = n, sq_question = question, sq_sent_at = now, sq_round = round\<rparr>\<rparr>,
          [SendQuestion i question round mode]))"

definition next_question :: "jstr \<Rightarrow> int \<Rightarrow> confirmer \<Rightarrow> confirmer \<times> confirm_effect list" where
  "next_question id_prefix now s =
     (if cf_shown s \<noteq> None then (s, [])
      else case cf_waiting s of [] \<Rightarrow> (s, [])
        | head # rest \<Rightarrow> show_question id_prefix head 1 now (s\<lparr>cf_waiting := rest\<rparr>))"

text \<open>\<open>entry.settle\<close>: only the first answer counts.\<close>

definition settle_entry :: "nat \<Rightarrow> confirm_answer \<Rightarrow> confirmer \<Rightarrow> confirmer \<times> confirm_effect list" where
  "settle_entry n a s =
     (if n \<in> set (cf_settled s) then (s, []) else (s\<lparr>cf_settled := n # cf_settled s\<rparr>, [SettleAnswer n a]))"

definition onAccept :: "jstr \<Rightarrow> shown_question \<Rightarrow> int \<Rightarrow> confirmer \<Rightarrow> confirmer \<times> confirm_effect list" where
  "onAccept id_prefix current now s =
     (if now - sq_sent_at current \<ge> min_human_answer_ms then settle_entry (sq_entry current) (Accepted (confirm_actor s)) s
      else if sq_round current < accept_rounds
      then show_question id_prefix (sq_entry current, sq_question current) (sq_round current + 1) now s
      else settle_entry (sq_entry current) TooFast s)"

definition on_answer ::
  "jstr \<Rightarrow> shown_question \<Rightarrow> jstr option \<Rightarrow> int \<Rightarrow> confirmer \<Rightarrow> confirmer \<times> confirm_effect list" where
  "on_answer id_prefix current action now s =
     (if action = Some (js ''accept'') then onAccept id_prefix current now s
      else if action = Some (js ''decline'') then settle_entry (sq_entry current) (Declined (confirm_actor s)) s
      else if action = Some (js ''cancel'') then settle_entry (sq_entry current) (CancelledByPerson (confirm_actor s)) s
      else settle_entry (sq_entry current) ConfirmFailed s)"

definition then_next :: "jstr \<Rightarrow> int \<Rightarrow> confirmer \<times> confirm_effect list \<Rightarrow> confirmer \<times> confirm_effect list" where
  "then_next id_prefix now r = (let (s1, es) = next_question id_prefix now (fst r) in (s1, snd r @ es))"

definition takeResponse ::
  "(jstr \<Rightarrow> json option) \<Rightarrow> jstr \<Rightarrow> rpc_id \<Rightarrow> jstr \<Rightarrow> int \<Rightarrow> confirmer \<Rightarrow> confirmer \<times> confirm_effect list" where
  "takeResponse parse id_prefix i raw now s =
     (case i of
        IdStr text \<Rightarrow>
          if \<not> prefix id_prefix text then (s, [Handled False])
          else (case cf_shown s of None \<Rightarrow> (s, [Handled True])
            | Some current \<Rightarrow>
                if sq_id current \<noteq> text then (s, [Handled True])
                else let (s1, es) = then_next id_prefix now (on_answer id_prefix current (actionOf parse raw) now (s\<lparr>cf_shown := None\<rparr>))
                  in (s1, es @ [Handled True]))
      | _ \<Rightarrow> (s, [Handled False]))"

definition withdraw_entry :: "jstr \<Rightarrow> nat \<Rightarrow> int \<Rightarrow> confirmer \<Rightarrow> confirmer \<times> confirm_effect list" where
  "withdraw_entry id_prefix n now s =
     (let s1 = s\<lparr>cf_waiting := AList.delete n (cf_waiting s)\<rparr>;
          (s2, es) = (case cf_shown s of
              Some current \<Rightarrow> if sq_entry current = n then (s1\<lparr>cf_shown := None\<rparr>, [SendCancelled (sq_id current)]) else (s1, [])
            | None \<Rightarrow> (s1, []));
          (s3, settled) = settle_entry n ConfirmWithdrawn s2;
          (s4, more) = next_question id_prefix now s3
      in (s4, es @ settled @ more))"

definition confirm ::
  "jstr \<Rightarrow> confirm_question \<Rightarrow> int \<Rightarrow> confirmer \<Rightarrow> nat option \<times> confirmer \<times> confirm_effect list" where
  "confirm id_prefix question now s =
     (if cf_abilities s = None then (None, s, [])
      else let n = cf_count s + 1;
               (s1, es) = next_question id_prefix now (s\<lparr>cf_count := n, cf_waiting := cf_waiting s @ [(n, question)]\<rparr>)
        in (Some n, s1, es))"

fun settle_entries :: "nat list \<Rightarrow> confirmer \<Rightarrow> confirmer \<times> confirm_effect list" where
  "settle_entries [] s = (s, [])"
| "settle_entries (n # ns) s =
     (let (s1, es) = settle_entry n ConfirmWithdrawn s; (s2, more) = settle_entries ns s1 in (s2, es @ more))"

definition confirm_withdrawAll :: "jstr \<Rightarrow> int \<Rightarrow> confirmer \<Rightarrow> confirmer \<times> confirm_effect list" where
  "confirm_withdrawAll id_prefix now s =
     (let (s1, es) = settle_entries (map fst (cf_waiting s)) (s\<lparr>cf_waiting := []\<rparr>) in
      case cf_shown s1 of None \<Rightarrow> (s1, es)
      | Some current \<Rightarrow> (let (s2, more) = withdraw_entry id_prefix (sq_entry current) now s1 in (s2, es @ more)))"

datatype confirm_event =
    ObserveInitialize jstr
  | ClientResponse rpc_id jstr int
  | AskPerson confirm_question int
  | WithdrawAsked nat int
  | WithdrawAllAsked int
  | QuestionNotSent jstr int

fun confirm_step ::
  "(jstr \<Rightarrow> json option) \<Rightarrow> jstr \<Rightarrow> confirmer \<Rightarrow> confirm_event \<Rightarrow> confirmer \<times> confirm_effect list" where
  "confirm_step parse id_prefix s (ObserveInitialize raw) =
     ((if cf_observed s then s else s\<lparr>cf_observed := True, cf_abilities := abilitiesOf parse raw\<rparr>), [])"
| "confirm_step parse id_prefix s (ClientResponse i raw now) = takeResponse parse id_prefix i raw now s"
| "confirm_step parse id_prefix s (AskPerson question now) = snd (confirm id_prefix question now s)"
| "confirm_step parse id_prefix s (WithdrawAsked n now) =
     (if n \<in> set (cf_settled s) then (s, []) else withdraw_entry id_prefix n now s)"
| "confirm_step parse id_prefix s (WithdrawAllAsked now) = confirm_withdrawAll id_prefix now s"
| "confirm_step parse id_prefix s (QuestionNotSent i now) =
     (case cf_shown s of None \<Rightarrow> (s, [])
      | Some current \<Rightarrow>
          if sq_id current \<noteq> i then (s, [])
          else then_next id_prefix now (settle_entry (sq_entry current) ConfirmFailed (s\<lparr>cf_shown := None\<rparr>)))"

section \<open>What it keeps\<close>

text \<open>
  Every question asked is in exactly one place: settled, on screen or waiting; nothing waits while the
  screen is free.
\<close>

definition open_entries :: "confirmer \<Rightarrow> nat list" where
  "open_entries s = map fst (cf_waiting s) @ (case cf_shown s of None \<Rightarrow> [] | Some c \<Rightarrow> [sq_entry c])"

definition placed :: "confirmer \<Rightarrow> bool" where
  "placed s \<longleftrightarrow> distinct (open_entries s @ cf_settled s) \<and> (\<forall>n \<in> set (open_entries s @ cf_settled s). n \<le> cf_count s)"

definition confirmer_ok :: "confirmer \<Rightarrow> bool" where
  "confirmer_ok s \<longleftrightarrow> placed s \<and> (cf_shown s = None \<longrightarrow> cf_waiting s = [])"

lemma fst_image: "(a, b) \<in> S \<Longrightarrow> a \<in> fst ` S"
  by force

lemma next_question_ok: "placed s \<Longrightarrow> confirmer_ok (fst (next_question id_prefix now s))"
  by (auto simp: confirmer_ok_def placed_def open_entries_def next_question_def show_question_def Let_def
      disjoint_iff dest: fst_image split: list.splits option.splits)

lemma open_entries_settled [simp]: "open_entries (s\<lparr>cf_settled := ns\<rparr>) = open_entries s"
  by (simp add: open_entries_def)

lemma settle_shown_ok:
  "placed s \<Longrightarrow> cf_shown s = Some c \<Longrightarrow> placed (fst (settle_entry (sq_entry c) a (s\<lparr>cf_shown := None\<rparr>)))"
  by (auto simp: placed_def open_entries_def settle_entry_def)

lemma on_answer_ok: "placed s \<Longrightarrow> cf_shown s = Some c \<Longrightarrow> placed (fst (on_answer id_prefix c action now (s\<lparr>cf_shown := None\<rparr>)))"
  using settle_shown_ok[of s c]
  by (auto simp: on_answer_def onAccept_def show_question_def Let_def placed_def open_entries_def)

lemma then_next_ok: "placed (fst r) \<Longrightarrow> confirmer_ok (fst (then_next id_prefix now r))"
  by (simp add: then_next_def split_beta next_question_ok)

lemma takeResponse_ok: "confirmer_ok s \<Longrightarrow> confirmer_ok (fst (takeResponse parse id_prefix i raw now s))"
  by (auto simp: takeResponse_def Let_def split_beta confirmer_ok_def[of s] then_next_ok on_answer_ok split: rpc_id.split option.split)

lemma confirm_ok: "confirmer_ok s \<Longrightarrow> confirmer_ok (fst (snd (confirm id_prefix question now s)))"
proof -
  assume ok: "confirmer_ok s"
  then have "placed (s\<lparr>cf_count := cf_count s + 1, cf_waiting := cf_waiting s @ [(cf_count s + 1, question)]\<rparr>)"
    by (force simp: confirmer_ok_def placed_def open_entries_def split: option.splits)
  from next_question_ok[OF this] show ?thesis using ok by (simp add: confirm_def Let_def split_beta)
qed

lemma withdraw_entry_ok:
  assumes ok: "confirmer_ok s" and n: "n \<in> set (open_entries s @ cf_settled s)"
  shows "confirmer_ok (fst (withdraw_entry id_prefix n now s))"
proof -
  define s2 where "s2 = (case cf_shown s of
      Some c \<Rightarrow> if sq_entry c = n then s\<lparr>cf_waiting := AList.delete n (cf_waiting s), cf_shown := None\<rparr>
        else s\<lparr>cf_waiting := AList.delete n (cf_waiting s)\<rparr>
    | None \<Rightarrow> s\<lparr>cf_waiting := AList.delete n (cf_waiting s)\<rparr>)"
  have entries: "set (map fst (AList.delete n m)) = set (map fst m) - {n}" "distinct (map fst m) \<Longrightarrow> distinct (map fst (AList.delete n m))"
    for m :: "(nat \<times> confirm_question) list"
    by (simp_all add: distinct_delete) (auto simp: AList.delete_eq)
  have sub: "set (open_entries s2) \<subseteq> set (open_entries s) - {n}" "distinct (open_entries s2)" "cf_settled s2 = cf_settled s"
    "cf_count s2 = cf_count s"
    using ok entries[of "cf_waiting s"]
    by (auto simp: s2_def confirmer_ok_def placed_def open_entries_def split: option.splits)
  then have "placed (fst (settle_entry n ConfirmWithdrawn s2))"
    using ok n unfolding confirmer_ok_def placed_def settle_entry_def
    by (cases "n \<in> set (cf_settled s)") (auto simp: disjoint_iff subset_iff)
  moreover have "fst (withdraw_entry id_prefix n now s) = fst (next_question id_prefix now (fst (settle_entry n ConfirmWithdrawn s2)))"
    by (cases "cf_shown s") (simp_all add: withdraw_entry_def s2_def Let_def split_beta)
  ultimately show ?thesis by (simp add: next_question_ok)
qed

lemma settle_entries_placed:
  "distinct (ns @ open_entries s @ cf_settled s) \<Longrightarrow> (\<forall>n \<in> set (ns @ open_entries s @ cf_settled s). n \<le> cf_count s) \<Longrightarrow>
     placed (fst (settle_entries ns s)) \<and> cf_shown (fst (settle_entries ns s)) = cf_shown s
       \<and> cf_waiting (fst (settle_entries ns s)) = cf_waiting s"
proof (induction ns arbitrary: s)
  case (Cons n ns)
  then have "fst (settle_entry n ConfirmWithdrawn s) = s\<lparr>cf_settled := n # cf_settled s\<rparr>"
    by (simp add: settle_entry_def)
  then show ?case using Cons.IH[of "s\<lparr>cf_settled := n # cf_settled s\<rparr>"] Cons.prems
    by (simp add: split_beta open_entries_def)
qed (simp add: placed_def)

lemma withdrawAll_ok: "confirmer_ok s \<Longrightarrow> confirmer_ok (fst (confirm_withdrawAll id_prefix now s))"
proof -
  assume ok: "confirmer_ok s"
  define s1 where "s1 = fst (settle_entries (map fst (cf_waiting s)) (s\<lparr>cf_waiting := []\<rparr>))"
  have "distinct (map fst (cf_waiting s) @ open_entries (s\<lparr>cf_waiting := []\<rparr>) @ cf_settled (s\<lparr>cf_waiting := []\<rparr>))"
    "\<forall>n \<in> set (map fst (cf_waiting s) @ open_entries (s\<lparr>cf_waiting := []\<rparr>) @ cf_settled (s\<lparr>cf_waiting := []\<rparr>)).
       n \<le> cf_count (s\<lparr>cf_waiting := []\<rparr>)"
    using ok by (simp_all add: confirmer_ok_def placed_def open_entries_def)
  from settle_entries_placed[OF this] have "placed s1 \<and> cf_shown s1 = cf_shown s \<and> cf_waiting s1 = []"
    by (simp add: s1_def)
  then have s1: "confirmer_ok s1" by (simp add: confirmer_ok_def)
  have "confirmer_ok (fst (withdraw_entry id_prefix (sq_entry c) now s1))" if "cf_shown s1 = Some c" for c
    using withdraw_entry_ok[OF s1] that by (simp add: open_entries_def)
  with s1 show ?thesis by (auto simp: confirm_withdrawAll_def Let_def split_beta simp flip: s1_def split: option.split)
qed

text \<open>\<open>withdraw\<close> is only called on an entry that was asked.\<close>

fun asked_event :: "confirmer \<Rightarrow> confirm_event \<Rightarrow> bool" where
  "asked_event s (WithdrawAsked n now) \<longleftrightarrow> n \<in> set (open_entries s @ cf_settled s)"
| "asked_event s e \<longleftrightarrow> True"

lemma confirm_step_ok: "confirmer_ok s \<Longrightarrow> asked_event s e \<Longrightarrow> confirmer_ok (fst (confirm_step parse id_prefix s e))"
proof (induction parse id_prefix s e rule: confirm_step.induct)
  case (1 parse id_prefix s raw)
  then show ?case by (simp add: confirmer_ok_def placed_def open_entries_def)
next
  case (6 parse id_prefix s i now)
  then show ?case
    by (auto simp: then_next_ok settle_shown_ok confirmer_ok_def[of s] split: option.split)
qed (auto simp: takeResponse_ok confirm_ok withdraw_entry_ok withdrawAll_ok)

inductive confirm_reachable :: "(jstr \<Rightarrow> json option) \<Rightarrow> jstr \<Rightarrow> confirmer \<Rightarrow> bool" for parse id_prefix where
  start: "confirm_reachable parse id_prefix createClientConfirmer"
| step: "confirm_reachable parse id_prefix s \<Longrightarrow> asked_event s e \<Longrightarrow> confirm_reachable parse id_prefix (fst (confirm_step parse id_prefix s e))"

lemma confirm_reachable_ok: "confirm_reachable parse id_prefix s \<Longrightarrow> confirmer_ok s"
  by (induction rule: confirm_reachable.induct)
    (simp_all add: confirm_step_ok, simp add: confirmer_ok_def placed_def open_entries_def createClientConfirmer_def)

section \<open>An accepted question was answered by a person\<close>

lemma settled_effect:
  "SettleAnswer n a \<in> set (snd (settle_entry m b s)) \<longleftrightarrow> m \<notin> set (cf_settled s) \<and> n = m \<and> a = b"
  by (auto simp: settle_entry_def)

lemma next_question_effects: "SettleAnswer n a \<notin> set (snd (next_question id_prefix now s))"
  by (auto simp: next_question_def show_question_def Let_def split: list.splits)

lemma then_next_effects: "SettleAnswer n a \<in> set (snd (then_next id_prefix now r)) \<longleftrightarrow> SettleAnswer n a \<in> set (snd r)"
  by (auto simp: then_next_def split_beta next_question_effects)

lemma on_answer_accepted:
  "SettleAnswer n (Accepted a) \<in> set (snd (on_answer id_prefix c action now s)) \<Longrightarrow>
     action = Some (js ''accept'') \<and> n = sq_entry c \<and> now - sq_sent_at c \<ge> min_human_answer_ms \<and> a = confirm_actor s"
  by (auto simp: on_answer_def onAccept_def show_question_def settled_effect Let_def split: if_splits)

lemma withdraw_effects: "SettleAnswer n a \<in> set (snd (withdraw_entry id_prefix m now s)) \<Longrightarrow> a = ConfirmWithdrawn"
  by (auto simp: withdraw_entry_def Let_def split_beta next_question_effects settled_effect split: option.splits if_splits)

lemma settle_entries_effects: "SettleAnswer n a \<in> set (snd (settle_entries ns s)) \<Longrightarrow> a = ConfirmWithdrawn"
  by (induction ns arbitrary: s) (auto simp: split_beta settled_effect)

text \<open>C14. A call is confirmed only by a person who had time to read the question: in every reachable state,
  an accepted answer is given exactly to the question on screen, on a response of the client to the very
  request that shows it, with the action accept, at least a second after that request was made; the
  entry had not been settled before, and after the step a question waits only while another is shown.\<close>

theorem confirmed_by_person:
  assumes "confirm_reachable parse id_prefix s"
    and "asked_event s e"
    and "SettleAnswer n (Accepted a) \<in> set (snd (confirm_step parse id_prefix s e))"
  shows "\<exists>c raw now. e = ClientResponse (IdStr (sq_id c)) raw now \<and> cf_shown s = Some c \<and> n = sq_entry c
     \<and> prefix id_prefix (sq_id c) \<and> actionOf parse raw = Some (js ''accept'')
     \<and> now - sq_sent_at c \<ge> 1000 \<and> n \<notin> set (cf_settled s)
     \<and> confirmer_ok (fst (confirm_step parse id_prefix s e))"
proof -
  note ok = confirm_reachable_ok[OF assms(1)]
  show ?thesis
  proof (cases e)
    case (ClientResponse i raw now)
    then obtain c where c: "i = IdStr (sq_id c)" "cf_shown s = Some c" "prefix id_prefix (sq_id c)"
      and "SettleAnswer n (Accepted a) \<in> set (snd (on_answer id_prefix c (actionOf parse raw) now (s\<lparr>cf_shown := None\<rparr>)))"
      using assms(3) by (auto simp: takeResponse_def Let_def split_beta then_next_effects split: rpc_id.splits if_splits option.splits)
    from on_answer_accepted[OF this(4)] have acc: "actionOf parse raw = Some (js ''accept'')" "n = sq_entry c"
        "now - sq_sent_at c \<ge> 1000"
      by (simp_all add: min_human_answer_ms_def)
    have "n \<notin> set (cf_settled s)"
      using ok c(2) acc(2) by (auto simp: confirmer_ok_def placed_def open_entries_def)
    with ClientResponse c acc confirm_step_ok[OF ok assms(2)] show ?thesis by auto
  next
    case (AskPerson question now)
    then show ?thesis using assms(3)
      by (auto simp: confirm_def Let_def split_beta next_question_effects split: if_splits)
  next
    case (WithdrawAllAsked now)
    then show ?thesis using assms(3)
      by (auto simp: confirm_withdrawAll_def Let_def split_beta split: option.splits dest!: withdraw_effects settle_entries_effects)
  next
    case (QuestionNotSent i now)
    then show ?thesis using assms(3) by (auto simp: then_next_effects settled_effect split: option.splits if_splits)
  qed (use assms(3) in \<open>auto dest!: withdraw_effects split: if_splits\<close>)
qed

definition sample_question :: confirm_question where
  "sample_question = \<lparr>cq_tool = js ''t'', cq_server = js ''s'', cq_args = JNull, cq_then_admin = False\<rparr>"

definition sample_parse :: "jstr \<Rightarrow> json option" where
  "sample_parse raw =
     (if raw = js ''i'' then Some (JObj [(js ''params'', JObj [(js ''capabilities'', JObj [(js ''elicitation'', JObj [])])])])
      else Some (JObj [(js ''result'', JObj [(js ''action'', JStr (js ''accept''))])]))"

theorem confirmed_by_person_witness:
  "\<exists>s. confirm_reachable sample_parse (js ''p-'') s \<and> 1 \<notin> set (cf_settled s)"
proof -
  define s1 where "s1 = fst (confirm_step sample_parse (js ''p-'') createClientConfirmer (ObserveInitialize (js ''i'')))"
  define s2 where "s2 = fst (confirm_step sample_parse (js ''p-'') s1 (AskPerson sample_question 0))"
  define e where "e = ClientResponse (IdStr (js ''p-1'')) (js ''a'') 1000"
  have reach: "confirm_reachable sample_parse (js ''p-'') s2"
    unfolding s2_def s1_def by (intro confirm_reachable.intros) simp_all
  have "asked_event s2 e" by (simp add: e_def)
  moreover have "SettleAnswer 1 (Accepted (js ''client:unknown'')) \<in> set (snd (confirm_step sample_parse (js ''p-'') s2 e))"
    unfolding e_def s2_def s1_def by code_simp
  ultimately show ?thesis using confirmed_by_person[OF reach, of e 1] reach by blast
qed

end
