(* ===== verification/Gate_Base.thy ===== *)
theory Gate_Base
  imports Tasks Policy_Decide Policy_Classify Policy_Effective Inventory Approval_Queue Synthesize Correlator
    Gate_Ids Tool_Use Client_Confirm Agent_Scope Method_Grants
begin

text \<open>
  What the parts of the gate share (\<open>proxy/gate-helpers.ts\<close>, \<open>proxy/gate-core.ts\<close>,
  \<open>proxy/gate-decision-writer.ts\<close>): the verdicts, the decisions written to the journal, the state the
  closures of the gate hold together, and what its code waits for. What the gate is configured with is
  the record \<open>gate_env\<close>; the policy, the inventory and the clock are read from the state, where anything
  may have changed them between two steps.
\<close>

section \<open>Verdicts and decisions\<close>

datatype verdict = Forward | Drop | Emit jstr

datatype journal_outcome =
    OAllow | ODeny | OQuarantined | OPending | OApproved | ODeniedByOperator | OTimeout | OAgentGone
  | OReplayed | OUndelivered | OUnanswered

record call_facts =
  fa_server :: jstr
  fa_tool :: jstr
  fa_class :: tool_class
  fa_state :: quarantine_state
  fa_args_hash :: jstr

record decision_extras =
  dx_approval :: "jstr option"
  dx_latency :: "int option"
  dx_agent :: "jstr option"
  dx_actor :: "jstr option"
  dx_confirmed_by :: "jstr option"
  dx_reason :: "jstr option"
  dx_tool_use :: "jstr option"

definition no_extras :: decision_extras where
  "no_extras = \<lparr>dx_approval = None, dx_latency = None, dx_agent = None, dx_actor = None, dx_confirmed_by = None,
     dx_reason = None, dx_tool_use = None\<rparr>"

record decision_info =
  dn_facts :: call_facts
  dn_outcome :: journal_outcome
  dn_rule :: jstr
  dn_extras :: decision_extras

definition decisionInfoOf :: "call_facts \<Rightarrow> journal_outcome \<Rightarrow> jstr \<Rightarrow> decision_extras \<Rightarrow> decision_info" where
  "decisionInfoOf facts out rule extras = \<lparr>dn_facts = facts, dn_outcome = out, dn_rule = rule, dn_extras = extras\<rparr>"

record provenance =
  pv_policy_hash :: jstr
  pv_grants_hash :: "jstr option"
  pv_agent :: "jstr option"

definition quarantine_rule :: jstr where "quarantine_rule = js ''quarantine''"
definition gate_error_rule :: jstr where "gate_error_rule = js ''gate-error''"
definition already_answered_rule :: jstr where "already_answered_rule = js ''already-answered-locally''"
definition held_calls_limit_rule :: jstr where "held_calls_limit_rule = js ''held-calls-limit''"
definition duplicate_response_rule :: jstr where "duplicate_response_rule = js ''duplicate-response-warning''"
definition unparseable_client_frame_rule :: jstr where "unparseable_client_frame_rule = js ''unparseable-client-frame''"
definition malformed_tools_call_rule :: jstr where "malformed_tools_call_rule = js ''malformed-tools-call''"
definition idless_approval_rule :: jstr where "idless_approval_rule = js ''idless-require-approval''"
definition inventory_unavailable_rule :: jstr where "inventory_unavailable_rule = js ''inventory-unavailable''"
definition tools_list_overflow_rule :: jstr where "tools_list_overflow_rule = js ''tools-list-tracking-overflow''"
definition unparseable_tool_name :: jstr where "unparseable_tool_name = js ''<unparseable>''"
definition tools_list_original_rule :: jstr where "tools_list_original_rule = js ''toolsList.original''"
definition tools_list_filtered_rule :: jstr where "tools_list_filtered_rule = js ''toolsList.filtered''"
definition response_tool_name :: jstr where "response_tool_name = js ''<response>''"
definition max_held_calls_per_session :: nat where "max_held_calls_per_session = 16"
definition max_tracked_request_ids :: nat where "max_tracked_request_ids = 10000"

section \<open>Configuration and state\<close>

record gate_agent =
  ga_name :: jstr
  ga_created :: "jstr option"
  ga_scope :: agent_scope

record gate_env =
  ge_parse :: "jstr \<Rightarrow> json option"
  ge_num :: "64 word \<Rightarrow> jstr"
  ge_sha :: "jstr \<Rightarrow> jstr"
  ge_unicode :: unicode
  ge_redactor :: redactor
  ge_policy_hash :: "policy \<Rightarrow> jstr"
  ge_iso :: "int \<Rightarrow> jstr"
  ge_server :: jstr
  ge_session :: jstr
  ge_agent :: "gate_agent option"
  ge_fail_closed :: bool
  ge_wait_cap :: "int option"
  ge_confirms :: bool
  ge_confirm_prefix :: jstr
  ge_checks_args :: bool
  ge_limits :: use_limits

record gate_call =
  gc_id :: rpc_id
  gc_call :: tool_call

datatype departure_kind = CancelDeparture | AbandonDeparture

record departure =
  dp_reason :: jstr
  dp_kind :: departure_kind

record forwarded_call =
  fw_tool_use :: "jstr option"
  fw_facts :: call_facts
  fw_claim :: "(jstr \<times> nat) option"
  fw_at :: int
  fw_departure :: "departure option"

record joined_call =
  jc_number :: nat
  jc_call :: gate_call
  jc_facts :: call_facts

record held_call =
  hc_id_key :: jstr
  hc_left_reason :: "jstr option"
  hc_aborted :: bool

record gate =
  gt_now :: int
  gt_policy :: policy
  gt_inventory :: inventory
  gt_loaded :: bool
  gt_load_failed :: bool
  gt_grants_hash :: jstr
  gt_confirmer :: confirmer
  gt_descriptors :: "(jstr \<times> tool_descriptor) list"
  gt_guard :: answer_guard
  gt_uses :: tool_uses
  gt_forwarded :: "(jstr \<times> forwarded_call) list"
  gt_joined :: "(jstr \<times> joined_call) list"
  gt_leaving :: bool
  gt_held :: "(jstr \<times> held_call) list"
  gt_admitted :: nat
  gt_closed :: bool
  gt_confirming :: "(jstr \<times> nat \<times> bool) list"
  gt_paused :: "(jstr \<times> int) list"
  gt_verdicts :: "(jstr \<times> nat) list"
  gt_cancelled :: "(jstr \<times> departure) list"
  gt_tools_lists :: "jstr list"
  gt_resource_lists :: "jstr list"
  gt_prompt_lists :: "jstr list"
  gt_next :: nat

section \<open>Effects, waits and replies\<close>

datatype operator_line = NoDialogLine | TooFastLine | BusyLine

datatype gate_effect =
    Journal decision_info "json option" provenance
  | ReportError
  | NotifyOperator operator_line call_facts
  | ApprovalPending jstr
  | RequestDropped rpc_id
  | AbortWait jstr
  | JoinEnds nat verdict
  | WakeJoin nat
  | CloseDialog jstr
  | Dialog confirm_effect
  | LeaveStarted jstr jstr

datatype wait_outcome = WaitApproved | WaitDenied | WaitTimeout | WaitWithdrawn

record args_refusal =
  rf_rule :: jstr
  rf_reason :: jstr
  rf_message :: jstr

datatype gate_ask =
    FlushJournal
  | WriteClient json
  | CheckArgs gate_call
  | LoadInventory
  | Confirmation jstr confirm_question
  | EnqueueApproval enqueue_request
  | AwaitResolution jstr int
  | ExpireApproval jstr
  | WithdrawApproval jstr jstr
  | AwaitJoin nat "nat option"
  | AwaitVerdict nat
  | ObserveCatalog "tool_descriptor list"

datatype gate_reply =
    Ok
  | Failed
  | ArgsReply "args_refusal option"
  | ConfirmReply confirm_answer bool
  | NoDialog
  | Enqueued jstr
  | Waited wait_outcome "jstr option"
  | WithdrawReply bool
  | JoinReply bool
  | VerdictReply verdict
  | ObserveReply bool

type_synonym 'a gproc = "(gate, gate_effect, gate_ask, gate_reply, 'a) proc"

text \<open>\<open>await\<close> on a promise that only tells whether it was kept.\<close>

definition await_ok :: "gate_ask \<Rightarrow> unit gproc" where
  "await_ok q = await q (\<lambda>r. if r = Failed then throw else ret ())"

definition settleJournal :: "gate_env \<Rightarrow> unit gproc" where
  "settleJournal env = await FlushJournal (\<lambda>r. if ge_fail_closed env \<and> r = Failed then throw else ret ())"

section \<open>Shared operations\<close>

definition snapshot :: "gate_env \<Rightarrow> gate \<Rightarrow> provenance" where
  "snapshot env g = \<lparr>pv_policy_hash = ge_policy_hash env (gt_policy g),
     pv_grants_hash = (if ge_agent env = None then None else Some (gt_grants_hash g)),
     pv_agent = map_option ga_name (ge_agent env)\<rparr>"

definition writeDecision :: "gate_env \<Rightarrow> decision_info \<Rightarrow> json option \<Rightarrow> provenance option \<Rightarrow> unit gproc" where
  "writeDecision env info args captured =
     reading (\<lambda>g. emit [Journal info args (case captured of Some p \<Rightarrow> p | None \<Rightarrow> snapshot env g)])"

definition id_key :: "gate_env \<Rightarrow> rpc_id \<Rightarrow> jstr" where
  "id_key env i = idKeyOf (ge_num env) i"

definition mark_answered :: "jstr \<Rightarrow> gate \<Rightarrow> gate" where
  "mark_answered key g = g\<lparr>gt_guard := markAnswered max_tracked_request_ids key (gt_guard g)\<rparr>"

definition begin_wait :: "jstr \<Rightarrow> gate \<Rightarrow> gate" where
  "begin_wait key g = g\<lparr>gt_guard := beginWait key (gt_guard g)\<rparr>"

definition end_wait :: "jstr \<Rightarrow> gate \<Rightarrow> gate" where
  "end_wait key g = g\<lparr>gt_guard := endWait key (gt_guard g)\<rparr>"

text \<open>\<open>answerLocally\<close>: the id counts as answered before the answer is written.\<close>

definition answerLocally :: "gate_env \<Rightarrow> rpc_id \<Rightarrow> (rpc_id \<Rightarrow> json) \<Rightarrow> unit gproc" where
  "answerLocally env i build =
     (if i = IdNull then ret ()
      else then_do (modify (mark_answered (id_key env i))) (await_ok (WriteClient (build i))))"

definition argsHashOf :: "gate_env \<Rightarrow> json option \<Rightarrow> jstr option" where
  "argsHashOf env args = map_option (ge_sha env) (canonicalJson (ge_num env) (or_null args))"

definition bookkeeping_facts :: "gate_env \<Rightarrow> jstr \<Rightarrow> json \<Rightarrow> call_facts" where
  "bookkeeping_facts env toolName subject = \<lparr>fa_server = ge_server env, fa_tool = toolName, fa_class = ReadClass,
     fa_state = Unknown, fa_args_hash = (case argsHashOf env (Some subject) of Some h \<Rightarrow> h | None \<Rightarrow> [])\<rparr>"

definition bookkeepingDecisionInfo :: "gate_env \<Rightarrow> jstr \<Rightarrow> jstr \<Rightarrow> json \<Rightarrow> decision_info" where
  "bookkeepingDecisionInfo env rule toolName subject =
     decisionInfoOf (bookkeeping_facts env toolName subject) OAllow rule no_extras"

definition unsafe_facts :: "gate_env \<Rightarrow> jstr \<Rightarrow> call_facts" where
  "unsafe_facts env toolName = \<lparr>fa_server = ge_server env, fa_tool = toolName, fa_class = DestructiveClass,
     fa_state = Unknown, fa_args_hash = []\<rparr>"

definition unsafeClientFrameDecision :: "gate_env \<Rightarrow> jstr \<Rightarrow> decision_info" where
  "unsafeClientFrameDecision env rule =
     decisionInfoOf (unsafe_facts env unparseable_tool_name) ODeny rule no_extras"

definition denialBytesFor :: "rpc_id \<Rightarrow> jstr \<Rightarrow> jstr \<Rightarrow> jstr \<Rightarrow> jstr option \<Rightarrow> json" where
  "denialBytesFor i toolName server rule detail =
     (if rule = quarantine_rule then quarantinedError i toolName server else denialError i toolName rule detail)"

fun scalar_id :: "json option \<Rightarrow> rpc_id" where
  "scalar_id (Some (JStr s)) = IdStr s"
| "scalar_id (Some (JNum n)) = IdNum n"
| "scalar_id _ = IdNull"

definition recoverScalarId :: "gate_env \<Rightarrow> jstr \<Rightarrow> rpc_id" where
  "recoverScalarId env raw =
     (case as_obj (ge_parse env raw) of None \<Rightarrow> IdNull | Some o' \<Rightarrow> scalar_id (get_prop o' (js ''id'')))"

definition cancelled_params :: "gate_env \<Rightarrow> jstr \<Rightarrow> obj option" where
  "cancelled_params env raw =
     Option.bind (as_obj (ge_parse env raw)) (\<lambda>o'. as_obj (get_prop o' (js ''params'')))"

definition parseCancelledReason :: "gate_env \<Rightarrow> jstr \<Rightarrow> json option" where
  "parseCancelledReason env raw = Option.bind (cancelled_params env raw) (\<lambda>ps. get_prop ps (js ''reason''))"

definition parseCancelledRequestId :: "gate_env \<Rightarrow> jstr \<Rightarrow> rpc_id" where
  "parseCancelledRequestId env raw =
     (case cancelled_params env raw of None \<Rightarrow> IdNull | Some ps \<Rightarrow> scalar_id (get_prop ps (js ''requestId'')))"

definition parseIdlessToolCall :: "gate_env \<Rightarrow> jstr \<Rightarrow> gate_call option" where
  "parseIdlessToolCall env raw =
     map_option (\<lambda>c. \<lparr>gc_id = IdNull, gc_call = c\<rparr>) (parseToolCallParams (ge_parse env) raw)"

definition call_args :: "gate_call \<Rightarrow> json option" where
  "call_args c = Some (tc_args (gc_call c))"

definition call_tool_use :: "gate_call \<Rightarrow> jstr option" where
  "call_tool_use c = cm_tool_use_id (tc_meta (gc_call c))"

definition use_scope :: "gate_env \<Rightarrow> jstr" where
  "use_scope env = (case ge_agent env of None \<Rightarrow> []
     | Some a \<Rightarrow> ga_name a @ [1] @ (case ga_created a of Some c \<Rightarrow> c | None \<Rightarrow> []))"

section \<open>Reasons of a withdrawal\<close>

definition withdraw_reason_disconnected :: jstr where "withdraw_reason_disconnected = js ''disconnected''"
definition withdraw_reason_cancelled :: jstr where "withdraw_reason_cancelled = js ''cancelled''"
definition max_withdraw_reason_chars :: nat where "max_withdraw_reason_chars = 200"

text \<open>The units \<open>CONTROL_CHAR_PATTERN\<close> matches, and the pairs that spell a tag character.\<close>

definition control_char_unit :: "u16 \<Rightarrow> bool" where
  "control_char_unit c \<longleftrightarrow> c \<le> 0x1f \<or> 0x7f \<le> c \<and> c \<le> 0x9f \<or> c \<in> {0xad, 0x34f, 0x61c, 0x115f, 0x1160, 0x3164, 0xfeff, 0xffa0}
     \<or> 0x200b \<le> c \<and> c \<le> 0x200f \<or> 0x2028 \<le> c \<and> c \<le> 0x202e \<or> 0x2060 \<le> c \<and> c \<le> 0x2069"

definition tag_pair :: "u16 \<Rightarrow> u16 \<Rightarrow> bool" where
  "tag_pair h l \<longleftrightarrow> h = 0xdb40 \<and> 0xdc00 \<le> l \<and> l \<le> 0xdc7f"

fun stripControlChars :: "jstr \<Rightarrow> jstr" where
  "stripControlChars (c # d # s) =
     (if tag_pair c d then stripControlChars s
      else if control_char_unit c then stripControlChars (d # s) else c # stripControlChars (d # s))"
| "stripControlChars [c] = (if control_char_unit c then [] else [c])"
| "stripControlChars [] = []"

definition cleanWithdrawReason :: "gate_env \<Rightarrow> json option \<Rightarrow> jstr" where
  "cleanWithdrawReason env raw =
     (case as_str raw of None \<Rightarrow> withdraw_reason_cancelled
      | Some s \<Rightarrow>
          (let visible = stripControlChars (take (max_withdraw_reason_chars * 16) s);
               cleaned = js_trim (take max_withdraw_reason_chars (redactString (ge_redactor env) visible []))
           in if cleaned = [] then withdraw_reason_cancelled else cleaned))"

section \<open>Rules of the weakest preconditions\<close>

lemma wp_await_ok [wp_simps]:
  "wp Q (await_ok q) h s = (\<forall>r s1. Q (h @ [Awaited q r s1]) s1 (if r = Failed then None else Some ()))"
  by (auto simp: await_ok_def wp_simps)

lemma wp_settleJournal [wp_simps]:
  "wp Q (settleJournal env) h s =
     (\<forall>r s1. Q (h @ [Awaited FlushJournal r s1]) s1 (if ge_fail_closed env \<and> r = Failed then None else Some ()))"
  by (auto simp: settleJournal_def wp_simps)

lemma wp_writeDecision [wp_simps]:
  "wp Q (writeDecision env info args captured) h s =
     Q (h @ [Did (Journal info args (case captured of Some p \<Rightarrow> p | None \<Rightarrow> snapshot env s))]) s (Some ())"
  by (simp add: writeDecision_def wp_simps)

lemma wp_answerLocally [wp_simps]:
  "wp Q (answerLocally env i build) h s =
     (if i = IdNull then Q h s (Some ())
      else \<forall>r s1. Q (h @ [Awaited (WriteClient (build i)) r s1]) s1 (if r = Failed then None else Some ()))"
  by (simp add: answerLocally_def wp_simps)

end
