(* ===== verification/Tool_Catalog.thy ===== *)
theory Tool_Catalog
  imports Gate_Base
begin

text \<open>
  \<open>proxy/tools-filter.ts\<close> and \<open>proxy/tool-catalog.ts\<close>: what an agent is shown of a server's tools. The
  filter works on the answer's own JSON, so that an entry keeps its unknown fields; the catalog decides
  which tools it keeps and remembers the descriptors for the classification of calls.
\<close>

section \<open>The filter\<close>

text \<open>What \<open>classifyTool\<close> reads of an entry of the list, taken for a descriptor.\<close>

definition bool_hint :: "obj \<Rightarrow> jstr \<Rightarrow> bool option" where
  "bool_hint ps k = (case get_prop ps k of Some (JBool b) \<Rightarrow> Some b | _ \<Rightarrow> None)"

definition hints_of :: "obj \<Rightarrow> annotations" where
  "hints_of ps = \<lparr>read_only_hint = bool_hint ps read_only_key, destructive_hint = bool_hint ps destructive_key\<rparr>"

definition tool_of_entry :: "jstr \<Rightarrow> obj \<Rightarrow> tool" where
  "tool_of_entry name entry =
     \<lparr>t_name = name, t_annotations = map_option hints_of (as_obj (get_prop entry (js ''annotations'')))\<rparr>"

definition tool_of_descriptor :: "tool_descriptor \<Rightarrow> tool" where
  "tool_of_descriptor d = \<lparr>t_name = td_name d, t_annotations = map_option hints_of (td_annotations d)\<rparr>"

definition entry_name :: "json \<Rightarrow> (jstr \<times> obj) option" where
  "entry_name entry =
     (case as_obj (Some entry) of None \<Rightarrow> None
      | Some ps \<Rightarrow> map_option (\<lambda>name. (name, ps)) (as_str (get_prop ps (js ''name''))))"

text \<open>Whether an entry stays, and the name it adds to \<open>removed\<close> if it does not.\<close>

definition shouldKeep :: "(tool \<Rightarrow> bool) \<Rightarrow> (jstr \<Rightarrow> bool) option \<Rightarrow> json \<Rightarrow> bool \<times> jstr list" where
  "shouldKeep isVisible isGranted entry =
     (case entry_name entry of None \<Rightarrow> (isGranted = None, [])
      | Some (name, ps) \<Rightarrow>
          (let granted = (case isGranted of None \<Rightarrow> True | Some f \<Rightarrow> f name);
               visible = granted \<and> isVisible (tool_of_entry name ps)
           in (visible, if visible then [] else [name])))"

record filtered_tools =
  ft_line :: jstr
  ft_removed :: "jstr list"
  ft_kept :: nat

definition filterToolsListResult ::
  "(jstr \<Rightarrow> json option) \<Rightarrow> (64 word \<Rightarrow> jstr) \<Rightarrow> jstr \<Rightarrow> (tool \<Rightarrow> bool) \<Rightarrow> (jstr \<Rightarrow> bool) option \<Rightarrow> filtered_tools option" where
  "filterToolsListResult parse num raw isVisible isGranted =
     (case try_parse_object parse raw of None \<Rightarrow> None
      | Some parsed \<Rightarrow>
          (case as_obj (get_prop parsed (js ''result'')) of None \<Rightarrow> None
           | Some result \<Rightarrow>
               (case as_arr (get_prop result (js ''tools'')) of None \<Rightarrow> None
                | Some rawTools \<Rightarrow>
                    (let kept = filter (\<lambda>e. fst (shouldKeep isVisible isGranted e)) rawTools;
                         removed = concat (map (\<lambda>e. snd (shouldKeep isVisible isGranted e)) rawTools);
                         serialized = json_text num (JObj (with_prop parsed (js ''result'')
                           (JObj (with_prop result (js ''tools'') (JArr kept)))))
                     in if unit_of (CHR 0x0a) \<in> set serialized then None
                        else Some \<lparr>ft_line = serialized, ft_removed = removed, ft_kept = length kept\<rparr>))))"

section \<open>The catalog\<close>

definition max_cached_descriptors :: nat where "max_cached_descriptors = 5000"

fun cacheDescriptors :: "tool_descriptor list \<Rightarrow> (jstr \<times> tool_descriptor) list \<Rightarrow> (jstr \<times> tool_descriptor) list" where
  "cacheDescriptors [] m = m"
| "cacheDescriptors (t # ts) m =
     (if length m \<ge> max_cached_descriptors then m else cacheDescriptors ts (AList.update (td_name t) t m))"

definition catalog_descriptorOf :: "gate \<Rightarrow> jstr \<Rightarrow> tool_descriptor" where
  "catalog_descriptorOf g toolName =
     (case map_of (gt_descriptors g) toolName of Some d \<Rightarrow> d
      | None \<Rightarrow> (case descriptorOf (gt_inventory g) toolName of Some d \<Rightarrow> d
         | None \<Rightarrow> \<lparr>td_name = toolName, td_description = None, td_schema = None, td_annotations = None\<rparr>))"

definition class_of :: "gate_env \<Rightarrow> gate \<Rightarrow> tool \<Rightarrow> tool_class" where
  "class_of env g t = classifyTool (ge_unicode env) t (class_overrides (gt_policy g) (ge_server env))"

definition visible_input :: "gate_env \<Rightarrow> gate \<Rightarrow> tool \<Rightarrow> decide_input" where
  "visible_input env g t =
     \<lparr>di_policy = gt_policy g, di_server = ge_server env, di_tool = t_name t, di_class = class_of env g t,
      di_state = stateOf (gt_inventory g) (t_name t), di_observed = inv_observed (gt_inventory g),
      di_trusted = inv_trusted (gt_inventory g), di_grant = None, di_delta = None\<rparr>"

definition isVisible :: "gate_env \<Rightarrow> gate \<Rightarrow> tool \<Rightarrow> bool" where
  "isVisible env g t \<longleftrightarrow> d_outcome (decide (visible_input env g t)) \<noteq> Deny"

definition granted_tool :: "gate_env \<Rightarrow> (jstr \<Rightarrow> bool) option" where
  "granted_tool env = map_option (\<lambda>a. as_granted (ga_scope a)) (ge_agent env)"

definition names_json :: "jstr list \<Rightarrow> json" where
  "names_json names = JArr (map JStr names)"

definition writeCatalogDecision :: "gate_env \<Rightarrow> jstr \<Rightarrow> jstr list \<Rightarrow> unit gproc" where
  "writeCatalogDecision env rule toolNames =
     writeDecision env (bookkeepingDecisionInfo env rule tools_list_method (names_json toolNames))
       (Some (JObj [(js ''tools'', names_json toolNames)])) None"

definition filterCatalog ::
  "gate_env \<Rightarrow> jstr \<Rightarrow> tool_descriptor list \<Rightarrow> (gate \<Rightarrow> tool \<Rightarrow> bool) \<Rightarrow> verdict gproc" where
  "filterCatalog env raw tools visibility =
     reading (\<lambda>g.
       case filterToolsListResult (ge_parse env) (ge_num env) raw (visibility g) (granted_tool env) of
         None \<Rightarrow> then_do (emit [ReportError]) (ret Forward)
       | Some filtered \<Rightarrow>
           (let allNames = map td_name tools in
            then_do (writeCatalogDecision env tools_list_original_rule allNames)
             (then_do (writeCatalogDecision env tools_list_filtered_rule
                  (filter (\<lambda>n. n \<notin> set (ft_removed filtered)) allNames))
               (then_do (settleJournal env)
                 (ret (if set (ft_removed filtered) = {} then Forward else Emit (ft_line filtered)))))))"

definition forwardUntrusted :: "gate_env \<Rightarrow> jstr list \<Rightarrow> verdict gproc" where
  "forwardUntrusted env toolNames =
     then_do (writeCatalogDecision env inventory_unavailable_rule toolNames)
       (then_do (settleJournal env) (ret Forward))"

definition handleResponse :: "gate_env \<Rightarrow> classified \<Rightarrow> verdict gproc" where
  "handleResponse env msg =
     catching
       (case parseToolsListResult (ge_parse env) msg of None \<Rightarrow> ret Forward
        | Some (tools, cursor) \<Rightarrow>
            then_do (modify (\<lambda>g. g\<lparr>gt_descriptors := cacheDescriptors tools (gt_descriptors g)\<rparr>))
             (await (ObserveCatalog tools) (\<lambda>r.
               reading (\<lambda>g.
                 case r of
                   ObserveReply failed \<Rightarrow>
                     if failed \<or> \<not> inv_trusted (gt_inventory g)
                     then and_then (forwardUntrusted env (map td_name tools)) (\<lambda>v.
                       if ge_agent env = None then ret v else filterCatalog env (raw_of msg) tools (\<lambda>g t. True))
                     else if \<not> hide_denied (gt_policy g)
                     then (if ge_agent env = None then ret Forward
                           else filterCatalog env (raw_of msg) tools (\<lambda>g t. True))
                     else filterCatalog env (raw_of msg) tools (isVisible env)
                 | _ \<Rightarrow> throw))))
       (then_do (emit [ReportError]) (ret Forward))"

section \<open>What a filtered catalog holds\<close>

text \<open>The entries of the tools list of an answer.\<close>

definition listed_entries :: "(jstr \<Rightarrow> json option) \<Rightarrow> jstr \<Rightarrow> json list option" where
  "listed_entries parse raw =
     Option.bind (as_obj (parse raw)) (\<lambda>m. Option.bind (as_obj (get_prop m (js ''result'')))
       (\<lambda>r. as_arr (get_prop r (js ''tools''))))"

lemma filterToolsListResult_entries:
  assumes "filterToolsListResult parse num raw vis gr = Some f"
  shows "\<exists>parsed result rawTools. parse raw = Some (JObj parsed) \<and> get_prop parsed (js ''result'') = Some (JObj result) \<and>
     get_prop result (js ''tools'') = Some (JArr rawTools) \<and>
     ft_line f = json_text num (JObj (with_prop parsed (js ''result'') (JObj (with_prop result (js ''tools'')
        (JArr (filter (\<lambda>e. fst (shouldKeep vis gr e)) rawTools)))))) \<and>
     ft_removed f = concat (map (\<lambda>e. snd (shouldKeep vis gr e)) rawTools) \<and>
     ft_kept f = length (filter (\<lambda>e. fst (shouldKeep vis gr e)) rawTools)"
  using assms
  by (auto simp: filterToolsListResult_def try_parse_object_def Let_def simp del: json_text.simps
      split: option.splits if_splits)

lemma shouldKeep_agent:
  "fst (shouldKeep vis (Some gr) e) \<longleftrightarrow>
     some_with (entry_name e) (\<lambda>(name, ps). gr name \<and> vis (tool_of_entry name ps))"
  by (auto simp: shouldKeep_def Let_def split: option.split)


definition sample_catalog :: json where
  "sample_catalog = JObj [(js ''result'', JObj [(js ''tools'', JArr [JObj [(js ''name'', JStr (js ''a''))], JObj [(js ''name'', JStr (js ''b''))]])])]"


section \<open>An observation\<close>

text \<open>
  An entry without a name is dropped by the filter of an agent, but a catalog none of whose named entries
  is removed is forwarded as it came, the nameless entry with it: only \<open>removed\<close> is looked at.
\<close>

lemma nameless_entry_dropped_unreported:
  "entry_name e = None \<Longrightarrow> shouldKeep vis (Some gr) e = (False, [])"
  by (simp add: shouldKeep_def)

lemma nameless_entry_forwarded:
  assumes "filterToolsListResult (ge_parse env) (ge_num env) raw (vis g) (granted_tool env) = Some f"
    and "ft_removed f = []"
  shows "wp (\<lambda>h s out. out \<noteq> None \<longrightarrow> out = Some Forward) (filterCatalog env raw tools vis) h g"
  using assms by (auto simp: filterCatalog_def writeCatalogDecision_def Let_def wp_simps)

end
