(* ===== verification/Gate_Delivery.thy ===== *)
theory Gate_Delivery
  imports Gate_Base
begin

text \<open>
  \<open>proxy/gate-delivery.ts\<close>, \<open>proxy/gate-delivery-join.ts\<close> and \<open>proxy/synthesize-resend.ts\<close>: what becomes
  of a call of a tool use that was sent before. A kept answer is given again; a call still running is
  joined; otherwise the call goes on under a claim, and is watched from its verdict to its answer. A
  claim is its tool use and its number in \<open>Tool_Use\<close>. The heartbeat of progress a joined call gets is
  not modelled: it sends notifications and changes nothing here.
\<close>

section \<open>Answers to a resend\<close>

definition error_code_resend :: int where "error_code_resend = -32004"

definition answerNotKeptError :: "rpc_id \<Rightarrow> jstr \<Rightarrow> jstr \<Rightarrow> nat \<Rightarrow> json" where
  "answerNotKeptError i toolName answeredAt n =
     error_body i \<lparr>ei_code = error_code_resend,
       ei_message = js ''This call of tool '' @ double_quoted toolName @ js '' repeats one the server already answered at ''
         @ answeredAt @ js ''; that answer ('' @ decimal n @ js '' bytes) was too large to keep, so it cannot be ''
         @ js ''sent again, and the call was not run a second time. To run the tool once more, call it again.'',
       ei_data = Some [(js ''reason'', JStr (js ''answer_not_kept'')), (js ''toolName'', JStr toolName),
         (js ''answeredAt'', JStr answeredAt), (js ''bytes'', JNum (double_of_int (int n)))]\<rparr>"

definition mayHaveRunError :: "rpc_id \<Rightarrow> jstr \<Rightarrow> bool \<Rightarrow> json" where
  "mayHaveRunError i toolName wasCancelled =
     (let what = (if wasCancelled then js ''was cancelled while it ran'' else js ''got no answer before its session ended'')
      in error_body i \<lparr>ei_code = error_code_resend,
        ei_message = js ''This call of tool '' @ double_quoted toolName @ js '' repeats one that '' @ what
          @ js ''; it may have run, so it was not '' @ js ''sent again. To run the tool once more, call it again.'',
        ei_data = Some [(js ''reason'', JStr (if wasCancelled then js ''cancelled_may_have_run'' else js ''unanswered_may_have_run'')),
          (js ''toolName'', JStr toolName)]\<rparr>)"

definition joinLimitError :: "rpc_id \<Rightarrow> jstr \<Rightarrow> nat \<Rightarrow> json" where
  "joinLimitError i toolName limit =
     error_body i \<lparr>ei_code = error_code_resend,
       ei_message = js ''This call of tool '' @ double_quoted toolName
         @ js '' repeats one still running, and this session already has '' @ decimal limit
         @ js '' such calls waiting. Nothing was sent; call it again once one of them is answered.'',
       ei_data = Some [(js ''reason'', JStr (js ''resend_wait_limit'')), (js ''toolName'', JStr toolName),
         (js ''limit'', JNum (double_of_int (int limit)))]\<rparr>"

section \<open>Operations on the state\<close>

definition tool_use_resend_rule :: jstr where "tool_use_resend_rule = js ''tool-use-resend''"
definition answer_kept_rule :: jstr where "answer_kept_rule = js ''answer-kept''"
definition answer_too_large_rule :: jstr where "answer_too_large_rule = js ''answer-too-large-to-keep''"
definition resend_wait_limit_rule :: jstr where "resend_wait_limit_rule = js ''resend-wait-limit''"
definition answer_not_kept_rule :: jstr where "answer_not_kept_rule = js ''answer-not-kept-no-tool-use-id''"
definition session_ended_rule :: jstr where "session_ended_rule = js ''session-ended''"
definition tool_use_joined_rule :: jstr where "tool_use_joined_rule = js ''tool-use-joined''"
definition replaced_reason :: jstr where "replaced_reason = js ''replaced by a request reusing its id''"
definition max_tracked_forwarded_calls :: nat where "max_tracked_forwarded_calls = 10000"

definition identityOf :: "call_facts \<Rightarrow> call_identity" where
  "identityOf f = \<lparr>cid_server = fa_server f, cid_tool = fa_tool f, cid_args = fa_args_hash f\<rparr>"

definition parseKeptResponse :: "gate_env \<Rightarrow> jstr \<Rightarrow> obj option" where
  "parseKeptResponse env response = as_obj (ge_parse env response)"

definition use_extras :: "jstr option \<Rightarrow> decision_extras" where
  "use_extras use = no_extras\<lparr>dx_tool_use := use\<rparr>"

text \<open>A change of the kept answers and claims, with the promises it resolves.\<close>

definition release_claim :: "gate_env \<Rightarrow> (jstr \<times> nat) option \<Rightarrow> gate \<Rightarrow> gate \<times> gate_effect list" where
  "release_claim env cl g =
     (case cl of None \<Rightarrow> (g, [])
      | Some (use, token) \<Rightarrow>
          (let (uses, woken) = release (use_scope env) use token (gt_uses g)
           in (g\<lparr>gt_uses := uses\<rparr>, map WakeJoin woken)))"

definition forget_forwarded :: "gate_env \<Rightarrow> jstr \<Rightarrow> forwarded_call \<Rightarrow> gate \<Rightarrow> gate \<times> gate_effect list" where
  "forget_forwarded env key entry g =
     release_claim env (fw_claim entry) (g\<lparr>gt_forwarded := AList.delete key (gt_forwarded g)\<rparr>)"

definition keep_text :: "gate_env \<Rightarrow> jstr \<Rightarrow> call_facts \<Rightarrow> jstr \<Rightarrow> bool \<Rightarrow> gate \<Rightarrow> keep_outcome \<times> gate" where
  "keep_text env use facts response delivered g =
     (let (out, uses) = keep (ge_limits env) (use_scope env) use
          \<lparr>ak_call = identityOf facts, ak_response = response, ak_delivered = delivered\<rparr> (gt_now g) (gt_uses g)
      in (out, g\<lparr>gt_uses := uses\<rparr>))"

definition keepMayHaveRun :: "gate_env \<Rightarrow> forwarded_call \<Rightarrow> bool \<Rightarrow> gate \<Rightarrow> gate" where
  "keepMayHaveRun env entry wasCancelled g =
     (case fw_tool_use entry of None \<Rightarrow> g
      | Some use \<Rightarrow> snd (keep_text env use (fw_facts entry)
          (json_text (ge_num env) (mayHaveRunError (IdNum 0) (fa_tool (fw_facts entry)) wasCancelled)) False g))"

definition letGo :: "gate_env \<Rightarrow> jstr \<Rightarrow> forwarded_call \<Rightarrow> bool \<Rightarrow> gate \<Rightarrow> gate \<times> gate_effect list" where
  "letGo env key entry wasCancelled g = forget_forwarded env key entry (keepMayHaveRun env entry wasCancelled g)"

definition freeCancelled :: "gate_env \<Rightarrow> forwarded_call \<Rightarrow> gate \<Rightarrow> gate \<times> gate_effect list" where
  "freeCancelled env entry g = release_claim env (fw_claim entry) (keepMayHaveRun env entry True g)"

definition let_go_if :: "gate_env \<Rightarrow> (jstr \<times> forwarded_call) option \<Rightarrow> gate \<Rightarrow> gate \<times> gate_effect list" where
  "let_go_if env e g = (case e of None \<Rightarrow> (g, []) | Some (key, entry) \<Rightarrow> letGo env key entry False g)"

definition register :: "gate_env \<Rightarrow> gate_call \<Rightarrow> call_facts \<Rightarrow> (jstr \<times> nat) option \<Rightarrow> verdict \<Rightarrow> gate \<Rightarrow> gate \<times> gate_effect list" where
  "register env call facts cl v g =
     (if v \<noteq> Forward \<or> gc_id call = IdNull \<or> gt_leaving g then release_claim env cl g
      else
        let key = id_key env (gc_id call);
            (g1, es1) = let_go_if env (map_option (Pair key) (map_of (gt_forwarded g) key)) g;
            (g2, es2) = (if length (gt_forwarded g1) \<ge> max_tracked_forwarded_calls
              then let_go_if env (Some (hd (gt_forwarded g1))) g1 else (g1, []));
            dep = map_of (gt_cancelled g2) key;
            entry = \<lparr>fw_tool_use = call_tool_use call, fw_facts = facts, fw_claim = cl, fw_at = gt_now g2, fw_departure = dep\<rparr>;
            g3 = g2\<lparr>gt_forwarded := AList.update key entry (gt_forwarded g2)\<rparr>;
            (g4, es4) = (if map_option dp_kind dep = Some CancelDeparture then freeCancelled env entry g3 else (g3, []))
        in (g4, es1 @ es2 @ es4))"

definition keepAnswer :: "gate_env \<Rightarrow> forwarded_call \<Rightarrow> jstr \<Rightarrow> gate \<Rightarrow> jstr \<times> gate" where
  "keepAnswer env entry raw g =
     (case fw_tool_use entry of None \<Rightarrow> (answer_not_kept_rule, g)
      | Some use \<Rightarrow>
          (let delivered = (fw_departure entry = None);
               (out, g1) = keep_text env use (fw_facts entry) raw delivered g
           in if out = Kept then (answer_kept_rule, g1)
              else (answer_too_large_rule, snd (keep_text env use (fw_facts entry)
                (json_text (ge_num env) (answerNotKeptError (IdNum 0) (fa_tool (fw_facts entry)) (ge_iso env (gt_now g1))
                  (length (utf8_encode raw)))) delivered g1))))"

definition observeAnswer :: "gate_env \<Rightarrow> jstr \<Rightarrow> jstr \<Rightarrow> gate \<Rightarrow> gate \<times> gate_effect list" where
  "observeAnswer env key raw g =
     (case map_of (gt_forwarded g) key of None \<Rightarrow> (g, [])
      | Some entry \<Rightarrow>
          (let (rule, g1) = keepAnswer env entry raw g;
               (g2, es) = forget_forwarded env key entry g1
           in case fw_departure entry of None \<Rightarrow> (g2, es)
              | Some dep \<Rightarrow> (g2, es @ [Journal (decisionInfoOf (fw_facts entry) OUndelivered rule
                    ((use_extras (fw_tool_use entry))\<lparr>dx_reason := Some (dp_reason dep),
                      dx_latency := Some (gt_now g2 - fw_at entry)\<rparr>)) None (snapshot env g2)])))"

section \<open>Joined calls\<close>

text \<open>\<open>leaveThis\<close>: the call is answered by nobody any more.\<close>

definition join_gone :: "gate_env \<Rightarrow> jstr \<Rightarrow> joined_call \<Rightarrow> jstr \<Rightarrow> gate \<Rightarrow> gate \<times> gate_effect list" where
  "join_gone env key j reason g =
     (let g1 = g\<lparr>gt_joined := AList.delete key (gt_joined g)\<rparr>;
          info = decisionInfoOf (jc_facts j) OAgentGone tool_use_joined_rule
            ((use_extras (call_tool_use (jc_call j)))\<lparr>dx_reason := Some reason\<rparr>);
          i = gc_id (jc_call j);
          g2 = (if i = IdNull then g1 else mark_answered (id_key env i) g1)
      in (g2, [Journal info None (snapshot env g1), RequestDropped i, JoinEnds (jc_number j) Drop]))"

definition leave_join :: "gate_env \<Rightarrow> jstr \<Rightarrow> jstr \<Rightarrow> gate \<Rightarrow> gate \<times> gate_effect list" where
  "leave_join env key reason g =
     (case map_of (gt_joined g) key of None \<Rightarrow> (g, []) | Some j \<Rightarrow> join_gone env key j reason g)"

fun leave_joins :: "gate_env \<Rightarrow> jstr list \<Rightarrow> jstr \<Rightarrow> gate \<Rightarrow> gate \<times> gate_effect list" where
  "leave_joins env [] reason g = (g, [])"
| "leave_joins env (key # rest) reason g =
     (let (g1, es) = leave_join env key reason g; (g2, more) = leave_joins env rest reason g1 in (g2, es @ more))"

definition leaveAll :: "gate_env \<Rightarrow> jstr \<Rightarrow> gate \<Rightarrow> gate \<times> gate_effect list" where
  "leaveAll env reason g = leave_joins env (keys (gt_joined g)) reason g"

text \<open>\<open>waiting.get(idKey)?.(REPLACED_REASON)\<close>, then the new entry, then the wait for its release.\<close>

definition when_released :: "gate_env \<Rightarrow> jstr \<Rightarrow> gate \<Rightarrow> nat option \<times> gate" where
  "when_released env use g =
     (let (w, uses) = whenReleased (use_scope env) use (gt_now g) (gt_uses g) in (map_option fst w, g\<lparr>gt_uses := uses\<rparr>))"

definition start_join :: "gate_env \<Rightarrow> jstr \<Rightarrow> gate_call \<Rightarrow> call_facts \<Rightarrow> gate \<Rightarrow> gate \<times> gate_effect list" where
  "start_join env key call facts g =
     (let (g1, es) = leave_join env key replaced_reason g
      in (g1\<lparr>gt_joined := AList.update key \<lparr>jc_number = gt_next g1, jc_call = call, jc_facts = facts\<rparr> (gt_joined g1),
            gt_next := Suc (gt_next g1)\<rparr>, es))"

definition end_join :: "jstr \<Rightarrow> nat \<Rightarrow> gate \<Rightarrow> gate" where
  "end_join key n g =
     (if map_option jc_number (map_of (gt_joined g) key) = Some n
      then g\<lparr>gt_joined := AList.delete key (gt_joined g)\<rparr> else g)"

text \<open>
  The promise settles with \<open>released\<close>, here \<open>None\<close>, or with the \<open>DROP\<close> of \<open>agentGone\<close>.
\<close>

definition join_call :: "gate_env \<Rightarrow> gate_call \<Rightarrow> call_facts \<Rightarrow> jstr \<Rightarrow> verdict option gproc" where
  "join_call env call facts use =
     reading (\<lambda>g.
       (let key = (if gc_id call = IdNull then [] else id_key env (gc_id call)); n = gt_next g
        in then_do (act (start_join env key call facts))
          (and_then (acting (\<lambda>g. case when_released env use g of (w, g1) \<Rightarrow> (w, g1, [])))
            (\<lambda>w. await (AwaitJoin n w) (\<lambda>r.
              case r of
                JoinReply False \<Rightarrow> ret (Some Drop)
              | _ \<Rightarrow> then_do (modify (end_join key n)) (ret None))))))"

section \<open>Admission\<close>

datatype admission =
    Answered "verdict gproc"
  | JoinedCall "verdict option gproc"
  | Go "(jstr \<times> nat) option"

definition replay_answer :: "gate_env \<Rightarrow> gate_call \<Rightarrow> call_facts \<Rightarrow> obj \<Rightarrow> verdict gproc" where
  "replay_answer env call facts response =
     then_do (writeDecision env (decisionInfoOf facts OReplayed tool_use_resend_rule (use_extras (call_tool_use call)))
         (call_args call) None)
       (then_do (settleJournal env)
         (then_do (answerLocally env (gc_id call) (\<lambda>i. JObj (with_prop response (js ''id'') (id_json i))))
           (ret Drop)))"

definition refuseJoin :: "gate_env \<Rightarrow> gate_call \<Rightarrow> call_facts \<Rightarrow> verdict gproc" where
  "refuseJoin env call facts =
     then_do (writeDecision env (decisionInfoOf facts ODeny resend_wait_limit_rule (use_extras (call_tool_use call)))
         (call_args call) None)
       (then_do (settleJournal env)
         (then_do (answerLocally env (gc_id call) (\<lambda>i. joinLimitError i (fa_tool facts) max_held_calls_per_session))
           (ret Drop)))"

definition admit :: "gate_env \<Rightarrow> gate_call \<Rightarrow> call_facts \<Rightarrow> gate \<Rightarrow> admission \<times> gate \<times> gate_effect list" where
  "admit env call facts g =
     (case call_tool_use call of None \<Rightarrow> (Go None, g, [])
      | Some use \<Rightarrow>
          if gc_id call = IdNull \<or> has_own (gt_forwarded g) (id_key env (gc_id call)) then (Go None, g, [])
          else
            let (kept, uses) = find_answer (use_scope env) use (identityOf facts) (gt_now g) (gt_uses g);
                g1 = g\<lparr>gt_uses := uses\<rparr>
            in case Option.bind kept (\<lambda>(a, at). parseKeptResponse env (ak_response a)) of
                 Some response \<Rightarrow> (Answered (replay_answer env call facts response), g1, [])
               | None \<Rightarrow>
                   (let (token, uses2, woken) = claim (use_scope env) use (gt_now g1) (gt_uses g1);
                        g2 = g1\<lparr>gt_uses := uses2\<rparr>;
                        es = map WakeJoin woken
                    in case token of Some n \<Rightarrow> (Go (Some (use, n)), g2, es)
                       | None \<Rightarrow>
                           if gt_leaving g2 then (Go None, g2, es)
                           else if length (gt_joined g2) \<ge> max_held_calls_per_session
                           then (Answered (refuseJoin env call facts), g2, es)
                           else (JoinedCall (join_call env call facts use), g2, es)))"

text \<open>\<open>track\<close>: the verdict of a call that went on registers it, an exception frees its claim.\<close>

definition track_call :: "gate_env \<Rightarrow> gate_call \<Rightarrow> call_facts \<Rightarrow> (jstr \<times> nat) option \<Rightarrow> verdict gproc \<Rightarrow> verdict gproc" where
  "track_call env call facts cl p =
     try_with p
       (\<lambda>v. then_do (act (register env call facts cl v)) (ret v))
       (then_do (act (release_claim env cl)) throw)"

section \<open>Departures\<close>

definition departed :: "gate_env \<Rightarrow> jstr \<Rightarrow> departure \<Rightarrow> gate \<Rightarrow> gate \<times> gate_effect list" where
  "departed env key dep g =
     (let (g1, es1) = leave_join env key (dp_reason dep) g in
      case map_of (gt_forwarded g1) key of None \<Rightarrow> (g1, es1)
      | Some entry \<Rightarrow>
          if fw_departure entry \<noteq> None then (g1, es1)
          else (let (g2, es2) = (if dp_kind dep = CancelDeparture then freeCancelled env entry g1 else (g1, []))
            in (g2\<lparr>gt_forwarded := AList.update key (entry\<lparr>fw_departure := Some dep\<rparr>) (gt_forwarded g2)\<rparr>, es1 @ es2)))"

fun departed_all :: "gate_env \<Rightarrow> jstr list \<Rightarrow> departure \<Rightarrow> gate \<Rightarrow> gate \<times> gate_effect list" where
  "departed_all env [] dep g = (g, [])"
| "departed_all env (key # rest) dep g =
     (let (g1, es) = departed env key dep g; (g2, more) = departed_all env rest dep g1 in (g2, es @ more))"

definition delivery_agentLeft :: "gate_env \<Rightarrow> gate \<Rightarrow> gate \<times> gate_effect list" where
  "delivery_agentLeft env g =
     (let (g1, es) = leaveAll env withdraw_reason_disconnected (g\<lparr>gt_leaving := True\<rparr>);
          (g2, more) = departed_all env (keys (gt_forwarded g1))
            \<lparr>dp_reason = withdraw_reason_disconnected, dp_kind = AbandonDeparture\<rparr> g1
      in (g2, es @ more))"

text \<open>The end of \<open>settle\<close>, once the answers still owed have come or the grace is over.\<close>

definition is_cancelled :: "forwarded_call \<Rightarrow> bool" where
  "is_cancelled entry \<longleftrightarrow> map_option dp_kind (fw_departure entry) = Some CancelDeparture"

definition owedCount :: "gate \<Rightarrow> nat" where
  "owedCount g = length (filter (\<lambda>(key, entry). \<not> is_cancelled entry) (gt_forwarded g))"

fun settle_forwarded :: "gate_env \<Rightarrow> (jstr \<times> forwarded_call) list \<Rightarrow> jstr \<Rightarrow> gate \<Rightarrow> nat \<times> gate \<times> gate_effect list" where
  "settle_forwarded env [] reason g = (0, g, [])"
| "settle_forwarded env ((key, entry) # rest) reason g =
     (let (g1, es) = letGo env key entry (is_cancelled entry) g;
          told = (if is_cancelled entry then []
            else [Journal (decisionInfoOf (fw_facts entry) OUnanswered session_ended_rule
              ((use_extras (fw_tool_use entry))\<lparr>dx_reason := Some (case fw_departure entry of Some d \<Rightarrow> dp_reason d | None \<Rightarrow> reason),
                dx_latency := Some (gt_now g1 - fw_at entry)\<rparr>)) None (snapshot env g1)]);
          (n, g2, more) = settle_forwarded env rest reason g1
      in ((if is_cancelled entry then n else Suc n), g2, es @ told @ more))"

definition settle_begin :: "gate_env \<Rightarrow> jstr \<Rightarrow> gate \<Rightarrow> gate \<times> gate_effect list" where
  "settle_begin env reason g = leaveAll env reason (g\<lparr>gt_leaving := True\<rparr>)"

definition settle_end :: "gate_env \<Rightarrow> jstr \<Rightarrow> gate \<Rightarrow> nat \<times> gate \<times> gate_effect list" where
  "settle_end env reason g = settle_forwarded env (gt_forwarded g) reason g"

end
