(* ===== verification/Gate_Approvals.thy ===== *)
theory Gate_Approvals
  imports Gate_Base
begin

text \<open>
  \<open>proxy/gate-approvals.ts\<close> and \<open>proxy/gate-confirm.ts\<close>: a call held for an administrator's approval, from
  its request in the queue to the outcome, and the confirmation by the person at the client. The queue
  and the waiter are asked and answer; the progress and heartbeat timers are not modelled.
\<close>

section \<open>Held calls\<close>

definition approval_request_max_age_ms :: int where "approval_request_max_age_ms = 24 * 60 * 60000"

definition holdLimitMs :: "gate_env \<Rightarrow> int" where
  "holdLimitMs env = min (case ge_wait_cap env of Some c \<Rightarrow> c | None \<Rightarrow> approval_request_max_age_ms) approval_request_max_age_ms"

definition with_held :: "jstr \<Rightarrow> (held_call \<Rightarrow> held_call) \<Rightarrow> gate \<Rightarrow> gate" where
  "with_held approvalId f g =
     (case map_of (gt_held g) approvalId of None \<Rightarrow> g
      | Some h \<Rightarrow> g\<lparr>gt_held := AList.update approvalId (f h) (gt_held g)\<rparr>)"

definition abort_wait :: "jstr \<Rightarrow> unit gproc" where
  "abort_wait approvalId = then_do (modify (with_held approvalId (\<lambda>h. h\<lparr>hc_aborted := True\<rparr>))) (emit [AbortWait approvalId])"

text \<open>
  \<open>leave\<close>: the first reason counts; the row is withdrawn, and the wait given up when that worked, failed
  with an error, or the session is closed. \<open>leave_rest\<close> is what follows the first \<open>await\<close>.
\<close>

definition mark_left :: "jstr \<Rightarrow> jstr \<Rightarrow> gate \<Rightarrow> gate" where
  "mark_left approvalId reason g = with_held approvalId (\<lambda>h. h\<lparr>hc_left_reason := Some reason\<rparr>) g"

definition leave_rest :: "jstr \<Rightarrow> jstr \<Rightarrow> unit gproc" where
  "leave_rest approvalId reason =
     then_do
       (await (WithdrawApproval approvalId reason) (\<lambda>r.
         case r of
           WithdrawReply ok \<Rightarrow> if ok then abort_wait approvalId else ret ()
         | _ \<Rightarrow> then_do (emit [ReportError]) (abort_wait approvalId)))
       (reading (\<lambda>g. if gt_closed g then abort_wait approvalId else ret ()))"

definition leave_held :: "jstr \<Rightarrow> jstr \<Rightarrow> unit gproc" where
  "leave_held approvalId reason =
     reading (\<lambda>g.
       case map_of (gt_held g) approvalId of None \<Rightarrow> ret ()
       | Some h \<Rightarrow>
           if hc_left_reason h \<noteq> None then ret ()
           else then_do (modify (mark_left approvalId reason)) (leave_rest approvalId reason))"

definition enqueue_request_of ::
  "gate_env \<Rightarrow> gate \<Rightarrow> gate_call \<Rightarrow> call_facts \<Rightarrow> decision \<Rightarrow> provenance \<Rightarrow> enqueue_request" where
  "enqueue_request_of env g call facts decision captured =
     \<lparr>er_server = ge_server env, er_tool = fa_tool facts, er_tool_class = fa_class facts, er_args = call_args call,
      er_session = ge_session env, er_timeout = approval_request_max_age_ms,
      er_agent = map_option ga_name (ge_agent env), er_wait_timeout = ge_wait_cap env,
      er_rule = Some (d_rule decision), er_policy_hash = Some (pv_policy_hash captured),
      er_grants_hash = pv_grants_hash captured, er_resend_of = Option.bind (call_tool_use call) (\<lambda>use. withdrawnAt (use_scope env) use (gt_now g) (gt_uses g))\<rparr>"

definition enqueue_approval ::
  "gate_env \<Rightarrow> gate_call \<Rightarrow> call_facts \<Rightarrow> decision \<Rightarrow> provenance \<Rightarrow> decision_extras \<Rightarrow> jstr gproc" where
  "enqueue_approval env call facts decision captured base =
     reading (\<lambda>g.
       await (EnqueueApproval (enqueue_request_of env g call facts decision captured)) (\<lambda>r.
         case r of
           Enqueued approvalId \<Rightarrow>
             then_do (writeDecision env (decisionInfoOf facts OPending (d_rule decision)
                 (base\<lparr>dx_approval := Some approvalId, dx_agent := map_option ga_name (ge_agent env)\<rparr>))
                 (call_args call) (Some captured))
              (then_do (settleJournal env)
                (then_do (emit [ApprovalPending approvalId]) (ret approvalId)))
         | _ \<Rightarrow> throw))"

record wait_result =
  wr_outcome :: wait_outcome
  wr_actor :: "jstr option"
  wr_left :: "jstr option"

text \<open>\<open>hold\<close>: the wait under the id of the call; its end takes the entry out, whatever it was. The reason
  the call was left for, which \<open>finishApproval\<close> reads from the entry, is read here.\<close>

definition hold_call :: "gate_env \<Rightarrow> jstr \<Rightarrow> jstr \<Rightarrow> wait_result gproc" where
  "hold_call env key approvalId =
     then_do (modify (begin_wait key))
      (finalizing
        (await (AwaitResolution approvalId (holdLimitMs env)) (\<lambda>r.
          case r of
            Waited outcome actor \<Rightarrow>
              reading (\<lambda>g. ret \<lparr>wr_outcome = outcome, wr_actor = actor,
                wr_left = Option.bind (map_of (gt_held g) approvalId) hc_left_reason\<rparr>)
          | _ \<Rightarrow> throw))
        (modify (\<lambda>g. (end_wait key g)\<lparr>gt_held := AList.delete approvalId (gt_held g)\<rparr>)))"

section \<open>Outcomes\<close>

definition finishAgentGone ::
  "gate_env \<Rightarrow> gate_call \<Rightarrow> call_facts \<Rightarrow> jstr \<Rightarrow> provenance \<Rightarrow> jstr \<Rightarrow> decision_extras \<Rightarrow> verdict gproc" where
  "finishAgentGone env call facts rule captured key extras =
     then_do (writeDecision env (decisionInfoOf facts OAgentGone rule extras) (call_args call) (Some captured))
      (then_do (settleJournal env)
        (then_do (modify (\<lambda>g.
            (let g1 = mark_answered key g in
             case call_tool_use call of None \<Rightarrow> g1
             | Some use \<Rightarrow> g1\<lparr>gt_uses := noteWithdrawn (use_scope env) use (gt_now g1) (gt_now g1) (gt_uses g1)\<rparr>)))
          (then_do (emit [RequestDropped (gc_id call)]) (ret Drop))))"

definition finishDenied ::
  "gate_env \<Rightarrow> gate_call \<Rightarrow> call_facts \<Rightarrow> jstr \<Rightarrow> provenance \<Rightarrow> jstr option \<Rightarrow> decision_extras \<Rightarrow> verdict gproc" where
  "finishDenied env call facts rule captured actor extras =
     then_do (writeDecision env (decisionInfoOf facts ODeniedByOperator rule (extras\<lparr>dx_actor := actor\<rparr>))
         (call_args call) (Some captured))
      (then_do (settleJournal env)
        (then_do (answerLocally env (gc_id call) (\<lambda>i. approvalDeniedError i (fa_tool facts))) (ret Drop)))"

definition finishTimedOut ::
  "gate_env \<Rightarrow> gate_call \<Rightarrow> call_facts \<Rightarrow> jstr \<Rightarrow> provenance \<Rightarrow> jstr \<Rightarrow> decision_extras \<Rightarrow> verdict gproc" where
  "finishTimedOut env call facts rule captured approvalId extras =
     then_do (catching (await_ok (ExpireApproval approvalId)) (emit [ReportError]))
      (then_do (writeDecision env (decisionInfoOf facts OTimeout rule extras) (call_args call) (Some captured))
        (then_do (settleJournal env)
          (then_do (answerLocally env (gc_id call) (\<lambda>i. approvalTimeoutError i (fa_tool facts))) (ret Drop))))"

definition finishApproved ::
  "gate_env \<Rightarrow> gate_call \<Rightarrow> call_facts \<Rightarrow> jstr \<Rightarrow> provenance \<Rightarrow> jstr \<Rightarrow> jstr option \<Rightarrow> decision_extras \<Rightarrow> verdict gproc" where
  "finishApproved env call facts rule captured key actor extras =
     reading (\<lambda>g.
       if isAnswered (gt_guard g) key
       then then_do (writeDecision env (decisionInfoOf facts ODeny already_answered_rule extras) (call_args call) (Some captured))
         (then_do (settleJournal env) (ret Drop))
       else then_do (writeDecision env (decisionInfoOf facts OApproved rule (extras\<lparr>dx_actor := actor\<rparr>)) (call_args call) (Some captured))
         (then_do (settleJournal env) (ret Forward)))"

definition finishApproval ::
  "gate_env \<Rightarrow> gate_call \<Rightarrow> call_facts \<Rightarrow> jstr \<Rightarrow> provenance \<Rightarrow> jstr \<Rightarrow> jstr \<Rightarrow> int \<Rightarrow> wait_result \<Rightarrow> decision_extras \<Rightarrow>
   verdict gproc" where
  "finishApproval env call facts rule captured key approvalId startedAt result base =
     reading (\<lambda>g.
       (let extras = base\<lparr>dx_approval := Some approvalId, dx_latency := Some (gt_now g - startedAt)\<rparr> in
        case wr_outcome result of
          WaitApproved \<Rightarrow> finishApproved env call facts rule captured key (wr_actor result) extras
        | WaitWithdrawn \<Rightarrow>
            (case wr_left result of
               Some reason \<Rightarrow> finishAgentGone env call facts rule captured key (extras\<lparr>dx_reason := Some reason\<rparr>)
             | None \<Rightarrow> finishTimedOut env call facts rule captured approvalId extras)
        | WaitDenied \<Rightarrow> finishDenied env call facts rule captured (wr_actor result) extras
        | WaitTimeout \<Rightarrow> finishTimedOut env call facts rule captured approvalId extras))"

definition refuseOverCap :: "gate_env \<Rightarrow> gate_call \<Rightarrow> call_facts \<Rightarrow> provenance \<Rightarrow> verdict gproc" where
  "refuseOverCap env call facts captured =
     then_do (writeDecision env (decisionInfoOf facts ODeny held_calls_limit_rule no_extras) (call_args call) (Some captured))
      (then_do (settleJournal env)
        (then_do (answerLocally env (gc_id call) (\<lambda>i. approvalHoldLimitError i (fa_tool facts) max_held_calls_per_session))
          (ret Drop)))"

text \<open>\<open>enqueueAndHold\<close>. A call cancelled while its request was written is left at once: \<open>leave\<close> starts, up
  to its own wait, before the hold does, and goes on beside it.\<close>

definition early_reason :: "gate \<Rightarrow> jstr \<Rightarrow> jstr option" where
  "early_reason g key =
     (if gt_closed g then Some withdraw_reason_disconnected else map_option dp_reason (map_of (gt_cancelled g) key))"

definition enqueueAndHold ::
  "gate_env \<Rightarrow> gate_call \<Rightarrow> call_facts \<Rightarrow> decision \<Rightarrow> provenance \<Rightarrow> decision_extras \<Rightarrow> verdict gproc" where
  "enqueueAndHold env call facts decision captured base =
     reading (\<lambda>g0.
       and_then (enqueue_approval env call facts decision captured base) (\<lambda>approvalId.
         (let key = (if gc_id call = IdNull then [] else id_key env (gc_id call)) in
          then_do (modify (\<lambda>g. g\<lparr>gt_held := AList.update approvalId
              \<lparr>hc_id_key = key, hc_left_reason = None, hc_aborted = False\<rparr> (gt_held g)\<rparr>))
           (then_do (reading (\<lambda>g. case early_reason g key of None \<Rightarrow> ret ()
               | Some reason \<Rightarrow> then_do (modify (mark_left approvalId reason)) (emit [LeaveStarted approvalId reason])))
             (and_then (hold_call env key approvalId) (\<lambda>result.
               finishApproval env call facts (d_rule decision) captured key approvalId (gt_now g0) result base))))))"

text \<open>\<open>withdrawByClient\<close> and \<open>withdrawAll\<close> leave each of these calls.\<close>

definition held_under :: "jstr \<Rightarrow> gate \<Rightarrow> jstr list" where
  "held_under key g = map fst (filter (\<lambda>(approvalId, h). hc_id_key h = key) (gt_held g))"

definition requestApproval ::
  "gate_env \<Rightarrow> gate_call \<Rightarrow> call_facts \<Rightarrow> decision \<Rightarrow> provenance \<Rightarrow> decision_extras \<Rightarrow> verdict gproc" where
  "requestApproval env call facts decision captured base =
     reading (\<lambda>g.
       if gt_admitted g \<ge> max_held_calls_per_session then refuseOverCap env call facts captured
       else then_do (modify (\<lambda>g. g\<lparr>gt_admitted := gt_admitted g + 1\<rparr>))
         (finalizing (enqueueAndHold env call facts decision captured base)
           (modify (\<lambda>g. g\<lparr>gt_admitted := gt_admitted g - 1\<rparr>))))"

section \<open>Confirmation in the client\<close>

definition max_waiting_confirmations :: nat where "max_waiting_confirmations = 5"
definition decline_pause_ms :: int where "decline_pause_ms = 30000"
definition max_remembered_refusals :: nat where "max_remembered_refusals = 256"

record refusal =
  rl_outcome :: journal_outcome
  rl_rule :: jstr
  rl_reason :: confirm_reason
  rl_actor :: "jstr option"
  rl_line :: "operator_line option"
  rl_silent :: bool

definition deny_confirm :: "string \<Rightarrow> confirm_reason \<Rightarrow> operator_line option \<Rightarrow> refusal" where
  "deny_confirm rule reason line = \<lparr>rl_outcome = ODeny, rl_rule = js (''client-confirm-'' @ rule), rl_reason = reason,
     rl_actor = None, rl_line = line, rl_silent = False\<rparr>"

fun refusalOf :: "confirm_answer \<Rightarrow> bool \<Rightarrow> bool \<Rightarrow> refusal" where
  "refusalOf (Declined actor) timedOut byClient =
     (deny_confirm ''declined'' Refused None)\<lparr>rl_outcome := ODeniedByOperator, rl_actor := Some actor\<rparr>"
| "refusalOf (CancelledByPerson actor) timedOut byClient = deny_confirm ''cancelled'' Unconfirmed None"
| "refusalOf TooFast timedOut byClient = deny_confirm ''too-fast'' Unconfirmed (Some TooFastLine)"
| "refusalOf ConfirmWithdrawn timedOut byClient =
     (if byClient then (deny_confirm ''request-cancelled'' Unconfirmed None)\<lparr>rl_silent := True\<rparr>
      else if timedOut then (deny_confirm ''timeout'' ConfirmTimeout None)\<lparr>rl_outcome := OTimeout\<rparr>
      else deny_confirm ''session-ended'' Unconfirmed None)"
| "refusalOf _ timedOut byClient = deny_confirm ''failed'' Unavailable (Some NoDialogLine)"

definition pauseKeyOf :: "call_facts \<Rightarrow> jstr" where
  "pauseKeyOf facts = fa_tool facts @ [0] @ fa_args_hash facts"

definition pause_call :: "call_facts \<Rightarrow> gate \<Rightarrow> gate" where
  "pause_call facts g =
     (let live = filter (\<lambda>(key, until). \<not> until \<le> gt_now g) (gt_paused g);
          m = AList.update (pauseKeyOf facts) (gt_now g + decline_pause_ms) live
      in g\<lparr>gt_paused := drop (length m - max_remembered_refusals) m\<rparr>)"

definition isPaused :: "call_facts \<Rightarrow> gate \<Rightarrow> bool" where
  "isPaused facts g \<longleftrightarrow> (case map_of (gt_paused g) (pauseKeyOf facts) of Some until \<Rightarrow> until | None \<Rightarrow> 0) > gt_now g"

definition refusalBeforeAsking :: "gate_env \<Rightarrow> gate_call \<Rightarrow> call_facts \<Rightarrow> gate \<Rightarrow> refusal option" where
  "refusalBeforeAsking env call facts g =
     (if gc_id call = IdNull then Some (deny_confirm ''idless'' Unconfirmed None)
      else if \<not> (ge_confirms env \<and> cf_abilities (gt_confirmer g) \<noteq> None) then Some (deny_confirm ''unavailable'' Unavailable (Some NoDialogLine))
      else if isPaused facts g then Some (deny_confirm ''declined-recently'' Refused None)
      else if length (gt_confirming g) \<ge> max_waiting_confirmations then Some (deny_confirm ''busy'' Unconfirmed (Some BusyLine))
      else None)"

definition refuse_confirm :: "gate_env \<Rightarrow> gate_call \<Rightarrow> call_facts \<Rightarrow> refusal \<Rightarrow> unit gproc" where
  "refuse_confirm env call facts refusal =
     then_do (writeDecision env (decisionInfoOf facts (rl_outcome refusal) (rl_rule refusal)
         (no_extras\<lparr>dx_agent := map_option ga_name (ge_agent env), dx_actor := rl_actor refusal\<rparr>)) (call_args call) None)
      (then_do (settleJournal env)
        (if rl_silent refusal \<and> gc_id call \<noteq> IdNull then modify (mark_answered (id_key env (gc_id call)))
         else answerLocally env (gc_id call) (\<lambda>i. clientConfirmError i (fa_tool facts) (rl_reason refusal))))"

definition tellOperator :: "call_facts \<Rightarrow> operator_line option \<Rightarrow> unit gproc" where
  "tellOperator facts line = (case line of None \<Rightarrow> ret () | Some l \<Rightarrow> emit [NotifyOperator l facts])"

fun person_refused :: "confirm_answer \<Rightarrow> bool" where
  "person_refused (Declined actor) \<longleftrightarrow> True"
| "person_refused (CancelledByPerson actor) \<longleftrightarrow> True"
| "person_refused _ \<longleftrightarrow> False"

definition confirm_entry_cancelled :: "gate \<Rightarrow> jstr \<Rightarrow> nat \<Rightarrow> bool" where
  "confirm_entry_cancelled g key n = (map_of (gt_confirming g) key = Some (n, True))"

definition question_of :: "gate_env \<Rightarrow> gate_call \<Rightarrow> call_facts \<Rightarrow> bool \<Rightarrow> confirm_question" where
  "question_of env call facts thenAdmin = \<lparr>cq_tool = fa_tool facts, cq_server = ge_server env,
     cq_args = tc_args (gc_call call), cq_then_admin = thenAdmin\<rparr>"

text \<open>\<open>wait\<close>: the person's answer, or the dialog withdrawn. The actor of a confirmation is the value.\<close>

definition wait_confirm :: "gate_env \<Rightarrow> gate_call \<Rightarrow> call_facts \<Rightarrow> jstr \<Rightarrow> nat \<Rightarrow> bool \<Rightarrow> jstr option gproc" where
  "wait_confirm env call facts key n thenAdmin =
     finalizing
       (await (Confirmation key (question_of env call facts thenAdmin)) (\<lambda>r.
         case r of
           ConfirmReply answer timedOut \<Rightarrow>
             (case answer of
                Accepted actor \<Rightarrow> ret (Some actor)
              | _ \<Rightarrow> reading (\<lambda>g.
                  (let refusal = refusalOf answer timedOut (confirm_entry_cancelled g key n) in
                   then_do (if person_refused answer then modify (pause_call facts) else ret ())
                    (then_do (tellOperator facts (rl_line refusal))
                      (then_do (refuse_confirm env call facts refusal) (ret None))))))
         | _ \<Rightarrow> throw))
       (modify (\<lambda>g. if map_option fst (map_of (gt_confirming g) key) = Some n
          then g\<lparr>gt_confirming := AList.delete key (gt_confirming g)\<rparr> else g))"

definition run_confirm :: "gate_env \<Rightarrow> gate_call \<Rightarrow> call_facts \<Rightarrow> bool \<Rightarrow> jstr option gproc" where
  "run_confirm env call facts thenAdmin =
     reading (\<lambda>g.
       case refusalBeforeAsking env call facts g of
         Some refusal \<Rightarrow> then_do (tellOperator facts (rl_line refusal))
           (then_do (refuse_confirm env call facts refusal) (ret None))
       | None \<Rightarrow>
           (let key = id_key env (gc_id call); n = gt_next g in
            then_do (modify (\<lambda>g. begin_wait key
                (g\<lparr>gt_confirming := AList.update key (n, False) (gt_confirming g), gt_next := Suc n\<rparr>)))
             (finalizing (wait_confirm env call facts key n thenAdmin) (modify (end_wait key)))))"

definition confirm_isRequired :: "gate_env \<Rightarrow> gate \<Rightarrow> jstr \<Rightarrow> bool" where
  "confirm_isRequired env g toolName =
     isConfirmInClient (gt_policy g) (ge_server env) toolName (map_option ga_name (ge_agent env))"

definition cancelByClient :: "jstr \<Rightarrow> gate \<Rightarrow> gate \<times> gate_effect list" where
  "cancelByClient key g =
     (case map_of (gt_confirming g) key of None \<Rightarrow> (g, [])
      | Some (n, flag) \<Rightarrow> (g\<lparr>gt_confirming := AList.update key (n, True) (gt_confirming g)\<rparr>, [CloseDialog key]))"

end
