(* ===== verification/Gate_Call.thy ===== *)
theory Gate_Call
  imports Tool_Catalog Gate_Delivery Gate_Approvals
begin

text \<open>
  \<open>proxy/gate-decide-input.ts\<close>, \<open>proxy/gate-call.ts\<close>, \<open>proxy/gate-guard.ts\<close> and the helpers of
  \<open>proxy/gate-core.ts\<close>: one \<open>tools/call\<close> from its arrival to its verdict.
\<close>

section \<open>The decision\<close>

definition factsOf :: "gate_env \<Rightarrow> gate \<Rightarrow> gate_call \<Rightarrow> call_facts option" where
  "factsOf env g call =
     (case argsHashOf env (call_args call) of None \<Rightarrow> None
      | Some h \<Rightarrow>
          (let name = tc_name (gc_call call) in
           Some \<lparr>fa_server = ge_server env, fa_tool = name,
             fa_class = class_of env g (tool_of_descriptor (catalog_descriptorOf g name)),
             fa_state = stateOf (gt_inventory g) name, fa_args_hash = h\<rparr>))"

definition decideInputOf :: "gate_env \<Rightarrow> gate \<Rightarrow> call_facts \<Rightarrow> decide_input" where
  "decideInputOf env g facts =
     \<lparr>di_policy = gt_policy g, di_server = ge_server env, di_tool = fa_tool facts, di_class = fa_class facts,
      di_state = fa_state facts, di_observed = inv_observed (gt_inventory g), di_trusted = inv_trusted (gt_inventory g),
      di_grant = map_option (\<lambda>a. if as_granted (ga_scope a) (fa_tool facts) then Granted else NotGranted) (ge_agent env),
      di_delta = surfaceDeltaOf (gt_inventory g) (fa_tool facts)\<rparr>"

definition enforceCatalogTrust :: "gate \<Rightarrow> decision \<Rightarrow> decision" where
  "enforceCatalogTrust g d =
     (if d_outcome d \<noteq> Allow then d
      else if inv_trusted (gt_inventory g) \<and> \<not> gt_load_failed g then d
      else \<lparr>d_outcome = Deny, d_rule = catalog_untrusted_rule,
        d_reason = js ''tool catalog is untrusted (inventory observe/load failed); failing closed''\<rparr>)"

definition call_decision :: "gate_env \<Rightarrow> gate \<Rightarrow> call_facts \<Rightarrow> decision" where
  "call_decision env g facts = enforceCatalogTrust g (decide (decideInputOf env g facts))"

record evaluation =
  ev_facts :: call_facts
  ev_decision :: decision
  ev_captured :: provenance
  ev_message :: "jstr option"

definition evaluate :: "gate_env \<Rightarrow> gate_call \<Rightarrow> evaluation gproc" where
  "evaluate env call =
     reading (\<lambda>g.
       case factsOf env g call of None \<Rightarrow> throw
       | Some facts \<Rightarrow> ret \<lparr>ev_facts = facts, ev_decision = call_decision env g facts, ev_captured = snapshot env g,
           ev_message = None\<rparr>)"

definition evaluateTightened :: "gate_env \<Rightarrow> gate_call \<Rightarrow> evaluation gproc" where
  "evaluateTightened env call =
     and_then (evaluate env call) (\<lambda>e.
       if \<not> ge_checks_args env \<or> d_outcome (ev_decision e) = Deny then ret e
       else await (CheckArgs call) (\<lambda>r.
         case r of
           ArgsReply None \<Rightarrow> ret e
         | ArgsReply (Some refusal) \<Rightarrow>
             ret (e\<lparr>ev_decision := \<lparr>d_outcome = Deny, d_rule = rf_rule refusal, d_reason = rf_reason refusal\<rparr>,
               ev_message := Some (rf_message refusal)\<rparr>)
         | _ \<Rightarrow> throw))"

section \<open>Applying it\<close>

definition applyAllow :: "gate_env \<Rightarrow> gate_call \<Rightarrow> call_facts \<Rightarrow> decision \<Rightarrow> decision_extras \<Rightarrow> verdict gproc" where
  "applyAllow env call facts decision extras =
     then_do (writeDecision env (decisionInfoOf facts OAllow (d_rule decision) extras) (call_args call) None)
       (if ge_fail_closed env then then_do (await_ok FlushJournal) (ret Forward) else ret Forward)"

definition applyDeny :: "gate_env \<Rightarrow> gate_call \<Rightarrow> call_facts \<Rightarrow> decision \<Rightarrow> jstr option \<Rightarrow> verdict gproc" where
  "applyDeny env call facts decision detail =
     then_do (writeDecision env (decisionInfoOf facts (if d_rule decision = quarantine_rule then OQuarantined else ODeny)
         (d_rule decision) no_extras) (call_args call) None)
      (then_do (settleJournal env)
        (then_do (answerLocally env (gc_id call)
            (\<lambda>i. denialBytesFor i (fa_tool facts) (ge_server env) (d_rule decision) detail))
          (ret Drop)))"

definition go_on :: "gate_env \<Rightarrow> gate_call \<Rightarrow> evaluation \<Rightarrow> decision_extras \<Rightarrow> verdict gproc" where
  "go_on env call e base =
     (if d_outcome (ev_decision e) = Allow then applyAllow env call (ev_facts e) (ev_decision e) base
      else if d_outcome (ev_decision e) = Deny then applyDeny env call (ev_facts e) (ev_decision e) (ev_message e)
      else if gc_id call = IdNull
      then applyDeny env call (ev_facts e) \<lparr>d_outcome = Deny, d_rule = idless_approval_rule,
          d_reason = js ''id-less tools/call cannot receive an approval result; denying instead of enqueuing''\<rparr> None
      else requestApproval env call (ev_facts e) (ev_decision e) (ev_captured e) base)"

definition confirmThenGo :: "gate_env \<Rightarrow> gate_call \<Rightarrow> call_facts \<Rightarrow> bool \<Rightarrow> verdict gproc" where
  "confirmThenGo env call facts thenAdmin =
     (let waits = gc_id call \<noteq> IdNull; key = id_key env (gc_id call) in
      then_do (if waits then modify (begin_wait key) else ret ())
       (finalizing
         (and_then (run_confirm env call facts thenAdmin) (\<lambda>confirmed.
           case confirmed of None \<Rightarrow> ret Drop
           | Some actor \<Rightarrow>
               (let base = no_extras\<lparr>dx_confirmed_by := Some actor\<rparr> in
                and_then (evaluateTightened env call) (\<lambda>e.
                  reading (\<lambda>g.
                    if waits \<and> isAnswered (gt_guard g) key
                    then then_do (writeDecision env (decisionInfoOf (ev_facts e) ODeny already_answered_rule base) (call_args call) None)
                      (then_do (settleJournal env) (ret Drop))
                    else go_on env call e base)))))
         (if waits then modify (end_wait key) else ret ())))"

text \<open>
  \<open>decideEvaluated\<close>. A joined call whose tool use was released is decided anew: \<open>again\<close> is \<open>decideToolCall\<close>.
\<close>

definition decideEvaluated :: "gate_env \<Rightarrow> gate_call \<Rightarrow> verdict gproc \<Rightarrow> evaluation \<Rightarrow> verdict gproc" where
  "decideEvaluated env call again e =
     (let facts = ev_facts e in
      if d_outcome (ev_decision e) = Deny then applyDeny env call facts (ev_decision e) (ev_message e)
      else and_then (acting (admit env call facts)) (\<lambda>adm.
        case adm of
          Answered p \<Rightarrow> p
        | JoinedCall p \<Rightarrow> and_then p (\<lambda>out. case out of None \<Rightarrow> again | Some v \<Rightarrow> ret v)
        | Go cl \<Rightarrow> reading (\<lambda>g.
            track_call env call facts cl
              (if confirm_isRequired env g (fa_tool facts)
               then confirmThenGo env call facts (d_outcome (ev_decision e) = RequireApproval)
               else go_on env call e no_extras))))"

text \<open>
  \<open>decideToolCall\<close> with a bound on how often a joined call is decided anew; a call that is out of rounds
  stays undecided, which is an exception here and never a verdict.
\<close>

fun decideToolCall :: "nat \<Rightarrow> gate_env \<Rightarrow> gate_call \<Rightarrow> verdict gproc" where
  "decideToolCall 0 env call = throw"
| "decideToolCall (Suc n) env call = and_then (evaluateTightened env call) (decideEvaluated env call (decideToolCall n env call))"

definition gateToolCall :: "nat \<Rightarrow> gate_env \<Rightarrow> gate_call \<Rightarrow> verdict gproc" where
  "gateToolCall n env call =
     reading (\<lambda>g. if gt_loaded g then decideToolCall n env call
       else await LoadInventory (\<lambda>r. decideToolCall n env call))"

section \<open>The guard\<close>

definition denyOnGateError :: "gate_env \<Rightarrow> gate_call \<Rightarrow> verdict gproc" where
  "denyOnGateError env call =
     (let toolName = tc_name (gc_call call) in
      then_do
        (catching
          (then_do (writeDecision env (decisionInfoOf (unsafe_facts env toolName) ODeny gate_error_rule no_extras) None None)
            (then_do (settleJournal env)
              (answerLocally env (gc_id call) (\<lambda>i. denialBytesFor i toolName (ge_server env) gate_error_rule None))))
          (emit [ReportError]))
        (ret Drop))"

definition guarded :: "gate_env \<Rightarrow> gate_call \<Rightarrow> verdict gproc \<Rightarrow> verdict gproc" where
  "guarded env call p = catching p (then_do (emit [ReportError]) (denyOnGateError env call))"

definition gated_call :: "nat \<Rightarrow> gate_env \<Rightarrow> gate_call \<Rightarrow> verdict gproc" where
  "gated_call n env call = guarded env call (gateToolCall n env call)"

end
