(* ===== verification/Gate_Safety.thy ===== *)
theory Gate_Safety
  imports Gate_Call
begin

text \<open>
  No call reaches the server undecided: a verdict of \<open>Forward\<close> rests on a decision the gate took on a
  state it was in, written to the journal, with the approval and the confirmation it asks for. The proofs
  compute the weakest precondition of the code of each step, over every reply and every state the call
  may be resumed in.
\<close>

section \<open>The moments of a run\<close>

text \<open>The states a call was started or resumed in.\<close>

fun resumed :: "(gate, gate_effect, gate_ask, gate_reply) moment \<Rightarrow> gate list" where
  "resumed (Did e) = []"
| "resumed (Awaited q r s) = [s]"

definition states_of :: "gate \<Rightarrow> (gate, gate_effect, gate_ask, gate_reply) moment list \<Rightarrow> gate list" where
  "states_of g0 h = g0 # concat (map resumed h)"

text \<open>What a decision reads of the state. The code of a call changes none of it.\<close>

definition decision_view :: "gate \<Rightarrow> policy \<times> inventory \<times> bool \<times> (jstr \<times> tool_descriptor) list" where
  "decision_view g = (gt_policy g, gt_inventory g, gt_load_failed g, gt_descriptors g)"

definition seen :: "gate \<Rightarrow> (gate, gate_effect, gate_ask, gate_reply) moment list \<Rightarrow> gate \<Rightarrow> bool" where
  "seen g0 h s \<longleftrightarrow> decision_view s \<in> decision_view ` set (states_of g0 h)"

lemma states_of_append [simp]: "set (states_of g0 (h @ h')) = set (states_of g0 h) \<union> set (concat (map resumed h'))"
  by (auto simp: states_of_def)

lemma seen_start: "seen g0 [] g0"
  by (simp add: seen_def states_of_def)

lemma seen_resumed [simp]: "seen g0 (h @ [Awaited q r s]) s"
  by (simp add: seen_def)

lemma seen_append: "seen g0 h s \<Longrightarrow> seen g0 (h @ h') s"
  by (auto simp: seen_def)

lemma seen_same: "seen g0 h s \<Longrightarrow> decision_view s' = decision_view s \<Longrightarrow> seen g0 h s'"
  by (simp add: seen_def)

lemma descriptor_view: "decision_view s = decision_view s' \<Longrightarrow> catalog_descriptorOf s name = catalog_descriptorOf s' name"
  by (simp add: decision_view_def catalog_descriptorOf_def cong: option.case_cong)

lemma factsOf_view: "decision_view s = decision_view s' \<Longrightarrow> factsOf env s call = factsOf env s' call"
  using descriptor_view[of s s']
  by (simp add: decision_view_def factsOf_def class_of_def Let_def cong: option.case_cong)

lemma call_decision_view: "decision_view s = decision_view s' \<Longrightarrow> call_decision env s facts = call_decision env s' facts"
  by (simp add: decision_view_def call_decision_def decideInputOf_def enforceCatalogTrust_def)

lemma confirm_view: "decision_view s = decision_view s' \<Longrightarrow> confirm_isRequired env s tool = confirm_isRequired env s' tool"
  by (simp add: decision_view_def confirm_isRequired_def)

section \<open>What leaves the decision's view alone\<close>

named_theorems view_simps

lemma view_update [view_simps]:
  "decision_view (g\<lparr>gt_guard := a\<rparr>) = decision_view g" "decision_view (g\<lparr>gt_uses := b\<rparr>) = decision_view g"
  "decision_view (g\<lparr>gt_forwarded := c\<rparr>) = decision_view g" "decision_view (g\<lparr>gt_joined := d\<rparr>) = decision_view g"
  "decision_view (g\<lparr>gt_held := e\<rparr>) = decision_view g" "decision_view (g\<lparr>gt_admitted := f\<rparr>) = decision_view g"
  "decision_view (g\<lparr>gt_confirming := i\<rparr>) = decision_view g" "decision_view (g\<lparr>gt_paused := j\<rparr>) = decision_view g"
  "decision_view (g\<lparr>gt_next := k\<rparr>) = decision_view g"
  by (simp_all add: decision_view_def)

lemma view_shared [view_simps]:
  "decision_view (mark_answered key g) = decision_view g" "decision_view (begin_wait key g) = decision_view g"
  "decision_view (end_wait key g) = decision_view g" "decision_view (with_held approvalId f g) = decision_view g"
  "decision_view (mark_left approvalId reason g) = decision_view g" "decision_view (pause_call facts g) = decision_view g"
  "decision_view (end_join key n g) = decision_view g"
  by (simp_all add: mark_answered_def begin_wait_def end_wait_def with_held_def mark_left_def pause_call_def end_join_def
      Let_def view_simps split: option.split)

lemma view_delivery [view_simps]:
  "decision_view (fst (release_claim env cl g)) = decision_view g"
  "decision_view (fst (forget_forwarded env key entry g)) = decision_view g"
  "decision_view (snd (keep_text env use facts response delivered g)) = decision_view g"
  "decision_view (keepMayHaveRun env entry wasCancelled g) = decision_view g"
  "decision_view (fst (letGo env key entry wasCancelled g)) = decision_view g"
  "decision_view (fst (freeCancelled env entry g)) = decision_view g"
  "decision_view (fst (let_go_if env e g)) = decision_view g"
proof -
  show rel: "decision_view (fst (release_claim env cl g)) = decision_view g" for cl g
    by (simp add: release_claim_def split_beta Let_def view_simps split: option.split)
  then show fg: "decision_view (fst (forget_forwarded env key entry g)) = decision_view g" for key g
    by (simp add: forget_forwarded_def view_simps)
  show kt: "decision_view (snd (keep_text env use facts response delivered g)) = decision_view g" for use facts response delivered g
    by (simp add: keep_text_def split_beta Let_def view_simps)
  then show km: "decision_view (keepMayHaveRun env entry wasCancelled g) = decision_view g" for entry wasCancelled g
    by (simp add: keepMayHaveRun_def split: option.split)
  then show "decision_view (fst (letGo env key entry wasCancelled g)) = decision_view g"
    by (simp add: letGo_def fg)
  show "decision_view (fst (freeCancelled env entry g)) = decision_view g"
    by (simp add: freeCancelled_def rel km)
  show "decision_view (fst (let_go_if env e g)) = decision_view g"
    by (cases e) (auto simp: let_go_if_def letGo_def forget_forwarded_def rel km view_simps)
qed

lemma view_register [view_simps]: "decision_view (fst (register env call facts cl v g)) = decision_view g"
  by (simp add: register_def Let_def split_beta view_simps)

lemma view_join [view_simps]:
  "decision_view (fst (leave_join env key reason g)) = decision_view g"
  "decision_view (fst (start_join env key call facts g)) = decision_view g"
  "decision_view (snd (when_released env use g)) = decision_view g"
  by (simp_all add: leave_join_def join_gone_def start_join_def when_released_def Let_def split_beta view_simps split: option.split)

lemma view_admit [view_simps]: "decision_view (fst (snd (admit env call facts g))) = decision_view g"
  by (simp add: admit_def Let_def split_beta view_simps split: option.split)

section \<open>Rules for the code of a call\<close>

text \<open>
  \<open>holds g0 p B h s\<close>: started with history \<open>h\<close> in state \<open>s\<close>, the code \<open>p\<close> keeps the decision's view to
  states the call was resumed in, and when it returns a value, \<open>B\<close> holds of the history, the state and
  the value.
\<close>

definition holds ::
  "gate \<Rightarrow> 'a gproc \<Rightarrow> ((gate, gate_effect, gate_ask, gate_reply) moment list \<Rightarrow> gate \<Rightarrow> 'a \<Rightarrow> bool) \<Rightarrow>
   (gate, gate_effect, gate_ask, gate_reply) moment list \<Rightarrow> gate \<Rightarrow> bool" where
  "holds g0 p B h s \<longleftrightarrow> (seen g0 h s \<longrightarrow>
     wp (\<lambda>h' s' out. set h \<subseteq> set h' \<and> seen g0 h' s' \<and> (\<forall>v. out = Some v \<longrightarrow> B h' s' v)) p h s)"

lemma holds_ret: "(seen g0 h s \<Longrightarrow> B h s x) \<Longrightarrow> holds g0 (ret x) B h s"
  by (simp add: holds_def wp_simps)

lemma holds_throw: "holds g0 throw B h s"
  by (simp add: holds_def wp_simps)

lemma holds_emit: "B (h @ map Did es) s () \<Longrightarrow> holds g0 (emit es) B h s"
  by (simp add: holds_def wp_simps seen_append)

lemma holds_modify: "decision_view (u s) = decision_view s \<Longrightarrow> B h (u s) () \<Longrightarrow> holds g0 (modify u) B h s"
  by (simp add: holds_def wp_simps seen_same)

lemma holds_act:
  "decision_view (fst (f s)) = decision_view s \<Longrightarrow> B (h @ map Did (snd (f s))) (fst (f s)) () \<Longrightarrow> holds g0 (act f) B h s"
  by (simp add: holds_def wp_simps seen_append seen_same)

lemma holds_acting:
  "decision_view (fst (snd (f s))) = decision_view s \<Longrightarrow> B (h @ map Did (snd (snd (f s)))) (fst (snd (f s))) (fst (f s)) \<Longrightarrow>
     holds g0 (acting f) B h s"
  by (simp add: holds_def wp_simps seen_append seen_same)

lemma holds_reading: "holds g0 (f s) B h s \<Longrightarrow> holds g0 (reading f) B h s"
  by (simp add: holds_def wp_simps)

lemma holds_await:
  assumes "\<And>r s1. holds g0 (k r) B (h @ [Awaited q r s1]) s1"
  shows "holds g0 (await q k) B h s"
  unfolding holds_def wp_await
proof (intro impI allI)
  fix r s1
  show "wp (\<lambda>h' s' out. set h \<subseteq> set h' \<and> seen g0 h' s' \<and> (\<forall>v. out = Some v \<longrightarrow> B h' s' v)) (k r) (h @ [Awaited q r s1]) s1"
    using assms[of r s1] by (auto simp: holds_def elim!: wp_mono)
qed

lemma holds_try_with:
  assumes "holds g0 p A h s"
    and "\<And>h' s' x. set h \<subseteq> set h' \<Longrightarrow> seen g0 h' s' \<Longrightarrow> A h' s' x \<Longrightarrow> holds g0 (f x) B h' s'"
    and "\<And>h' s'. set h \<subseteq> set h' \<Longrightarrow> seen g0 h' s' \<Longrightarrow> holds g0 g B h' s'"
  shows "holds g0 (try_with p f g) B h s"
  unfolding holds_def wp_try_with
proof
  assume "seen g0 h s"
  with assms(1) have "wp (\<lambda>h' s' out. set h \<subseteq> set h' \<and> seen g0 h' s' \<and> (\<forall>v. out = Some v \<longrightarrow> A h' s' v)) p h s"
    by (simp add: holds_def)
  then show "wp (\<lambda>h' s' out. case out of
        None \<Rightarrow> wp (\<lambda>h' s' out. set h \<subseteq> set h' \<and> seen g0 h' s' \<and> (\<forall>v. out = Some v \<longrightarrow> B h' s' v)) g h' s'
      | Some x \<Rightarrow> wp (\<lambda>h' s' out. set h \<subseteq> set h' \<and> seen g0 h' s' \<and> (\<forall>v. out = Some v \<longrightarrow> B h' s' v)) (f x) h' s') p h s"
  proof (rule wp_mono)
    fix h' s' and out :: "'a option"
    assume *: "set h \<subseteq> set h' \<and> seen g0 h' s' \<and> (\<forall>v. out = Some v \<longrightarrow> A h' s' v)"
    show "case out of
        None \<Rightarrow> wp (\<lambda>h' s' out. set h \<subseteq> set h' \<and> seen g0 h' s' \<and> (\<forall>v. out = Some v \<longrightarrow> B h' s' v)) g h' s'
      | Some x \<Rightarrow> wp (\<lambda>h' s' out. set h \<subseteq> set h' \<and> seen g0 h' s' \<and> (\<forall>v. out = Some v \<longrightarrow> B h' s' v)) (f x) h' s'"
    proof (cases out)
      case None
      with * assms(3)[of h' s'] show ?thesis by (auto simp: holds_def elim!: wp_mono)
    next
      case (Some x)
      with * assms(2)[of h' s' x] show ?thesis by (auto simp: holds_def elim!: wp_mono)
    qed
  qed
qed

lemma holds_and_then:
  assumes "holds g0 p A h s"
    and "\<And>h' s' x. set h \<subseteq> set h' \<Longrightarrow> seen g0 h' s' \<Longrightarrow> A h' s' x \<Longrightarrow> holds g0 (f x) B h' s'"
  shows "holds g0 (and_then p f) B h s"
  unfolding and_then_def by (rule holds_try_with[OF assms(1)]) (assumption | rule assms(2) holds_throw)+

lemma holds_then_do:
  assumes "holds g0 p (\<lambda>h' s' x. A h' s') h s"
    and "\<And>h' s'. set h \<subseteq> set h' \<Longrightarrow> seen g0 h' s' \<Longrightarrow> A h' s' \<Longrightarrow> holds g0 q B h' s'"
  shows "holds g0 (then_do p q) B h s"
  unfolding then_do_def by (rule holds_and_then[OF assms(1)]) (rule assms(2))

lemma holds_catching:
  assumes "holds g0 p B h s" and "\<And>h' s'. set h \<subseteq> set h' \<Longrightarrow> seen g0 h' s' \<Longrightarrow> holds g0 g B h' s'"
  shows "holds g0 (catching p g) B h s"
  unfolding catching_def by (rule holds_try_with[OF assms(1) _ assms(2)]) (auto intro: holds_ret)

lemma holds_finalizing:
  assumes "holds g0 p A h s"
    and "\<And>h' s' x. set h \<subseteq> set h' \<Longrightarrow> seen g0 h' s' \<Longrightarrow> A h' s' x \<Longrightarrow> holds g0 g (\<lambda>h'' s'' u. B h'' s'' x) h' s'"
    and "\<And>h' s'. set h \<subseteq> set h' \<Longrightarrow> seen g0 h' s' \<Longrightarrow> holds g0 g (\<lambda>h'' s'' u. True) h' s'"
  shows "holds g0 (finalizing p g) B h s"
  unfolding finalizing_def
proof (rule holds_try_with[OF assms(1)])
  show "holds g0 (and_then g (\<lambda>_. ret x)) B h' s'" if "set h \<subseteq> set h'" "seen g0 h' s'" "A h' s' x" for h' s' x
    by (rule holds_and_then[OF assms(2)[OF that]]) (auto intro: holds_ret)
  show "holds g0 (and_then g (\<lambda>_. throw)) B h' s'" if "set h \<subseteq> set h'" "seen g0 h' s'" for h' s'
    by (rule holds_and_then[OF assms(3)[OF that]]) (rule holds_throw)
qed

lemma holds_weaken: "holds g0 p A h s \<Longrightarrow> (\<And>h' s' v. set h \<subseteq> set h' \<Longrightarrow> seen g0 h' s' \<Longrightarrow> A h' s' v \<Longrightarrow> B h' s' v) \<Longrightarrow> holds g0 p B h s"
  by (auto simp: holds_def elim!: wp_mono)

text \<open>The steps whose outcome does not matter: journal, flush, answer.\<close>

lemma holds_settle:
  assumes "\<And>h' s'. set h \<subseteq> set h' \<Longrightarrow> B h' s' ()"
  shows "holds g0 (settleJournal env) B h s"
  unfolding settleJournal_def by (intro holds_await) (auto intro!: holds_ret holds_throw assms)

lemma holds_await_ok:
  assumes "\<And>h' s'. set h \<subseteq> set h' \<Longrightarrow> B h' s' ()"
  shows "holds g0 (await_ok q) B h s"
  unfolding await_ok_def by (intro holds_await) (auto intro!: holds_ret holds_throw assms)

lemma holds_answer:
  assumes "\<And>h' s'. set h \<subseteq> set h' \<Longrightarrow> B h' s' ()"
  shows "holds g0 (answerLocally env i build) B h s"
  unfolding answerLocally_def
  by (auto intro!: holds_ret holds_then_do[of _ _ "\<lambda>h' s'. True"] holds_modify holds_await_ok assms simp: view_simps)

lemma holds_write:
  "(\<And>pv. B (h @ [Did (Journal info args pv)]) s ()) \<Longrightarrow> holds g0 (writeDecision env info args captured) B h s"
  unfolding writeDecision_def by (intro holds_reading holds_emit) simp

section \<open>What a forwarded call rests on\<close>

definition allowed_in :: "gate_call \<Rightarrow> call_facts \<Rightarrow> decision \<Rightarrow> (gate, gate_effect, gate_ask, gate_reply) moment list \<Rightarrow> bool" where
  "allowed_in call facts d h \<longleftrightarrow>
     d_outcome d = Allow \<and> (\<exists>x pv. Did (Journal (decisionInfoOf facts OAllow (d_rule d) x) (call_args call) pv) \<in> set h)"

definition requested_in :: "gate_call \<Rightarrow> call_facts \<Rightarrow> jstr \<Rightarrow> (gate, gate_effect, gate_ask, gate_reply) moment list \<Rightarrow> bool" where
  "requested_in call facts approvalId h \<longleftrightarrow>
     (\<exists>req s. Awaited (EnqueueApproval req) (Enqueued approvalId) s \<in> set h
        \<and> er_server req = fa_server facts \<and> er_tool req = fa_tool facts \<and> er_args req = call_args call)"

definition approved_in :: "gate_env \<Rightarrow> gate_call \<Rightarrow> call_facts \<Rightarrow> decision \<Rightarrow> (gate, gate_effect, gate_ask, gate_reply) moment list \<Rightarrow> bool" where
  "approved_in env call facts d h \<longleftrightarrow>
     d_outcome d = RequireApproval \<and> gc_id call \<noteq> IdNull \<and>
     (\<exists>approvalId actor s x pv.
        requested_in call facts approvalId h
        \<and> Awaited (AwaitResolution approvalId (holdLimitMs env)) (Waited WaitApproved actor) s \<in> set h
        \<and> id_key env (gc_id call) \<notin> set (ag_answered (gt_guard s))
        \<and> Did (Journal (decisionInfoOf facts OApproved (d_rule d) x) (call_args call) pv) \<in> set h)"

text \<open>The gate took the decision on a state the call was started or resumed in.\<close>

definition evaluated_in :: "gate_env \<Rightarrow> gate_call \<Rightarrow> gate \<Rightarrow> call_facts \<Rightarrow> decision \<Rightarrow>
   (gate, gate_effect, gate_ask, gate_reply) moment list \<Rightarrow> bool" where
  "evaluated_in env call g0 facts d h \<longleftrightarrow>
     (\<exists>s \<in> set (states_of g0 h). factsOf env s call = Some facts \<and> d = call_decision env s facts)"

text \<open>The check of the arguments, where the gate has one, let the call through.\<close>

definition args_passed :: "gate_env \<Rightarrow> gate_call \<Rightarrow> (gate, gate_effect, gate_ask, gate_reply) moment list \<Rightarrow> bool" where
  "args_passed env call h \<longleftrightarrow> ge_checks_args env \<longrightarrow> (\<exists>s. Awaited (CheckArgs call) (ArgsReply None) s \<in> set h)"

definition decided_in :: "gate_env \<Rightarrow> gate_call \<Rightarrow> gate \<Rightarrow> (gate, gate_effect, gate_ask, gate_reply) moment list \<Rightarrow> bool" where
  "decided_in env call g0 h \<longleftrightarrow>
     (\<exists>facts d. evaluated_in env call g0 facts d h \<and> (allowed_in call facts d h \<or> approved_in env call facts d h)) \<and>
     args_passed env call h"

definition confirmed_in :: "gate_env \<Rightarrow> gate_call \<Rightarrow> gate \<Rightarrow> (gate, gate_effect, gate_ask, gate_reply) moment list \<Rightarrow> bool" where
  "confirmed_in env call g0 h \<longleftrightarrow>
     (\<exists>s \<in> set (states_of g0 h). \<not> confirm_isRequired env s (tc_name (gc_call call)))
     \<or> (\<exists>key q actor late s. Awaited (Confirmation key q) (ConfirmReply (Accepted actor) late) s \<in> set h)"

lemma states_of_mono: "set h \<subseteq> set h' \<Longrightarrow> set (states_of g0 h) \<subseteq> set (states_of g0 h')"
  by (auto simp: states_of_def)

lemma evaluated_mono: "evaluated_in env call g0 facts d h \<Longrightarrow> set h \<subseteq> set h' \<Longrightarrow> evaluated_in env call g0 facts d h'"
  using states_of_mono[of h h' g0] by (auto simp: evaluated_in_def)

lemma requested_mono: "requested_in call facts i h \<Longrightarrow> set h \<subseteq> set h' \<Longrightarrow> requested_in call facts i h'"
  by (auto simp: requested_in_def)

lemma allowed_mono: "allowed_in call facts d h \<Longrightarrow> set h \<subseteq> set h' \<Longrightarrow> allowed_in call facts d h'"
  unfolding allowed_in_def by (elim conjE exE) (auto dest: subsetD)

lemma approved_mono:
  assumes "approved_in env call facts d h" and sub: "set h \<subseteq> set h'"
  shows "approved_in env call facts d h'"
proof -
  obtain approvalId actor s x pv where d: "d_outcome d = RequireApproval" "gc_id call \<noteq> IdNull"
    and req: "requested_in call facts approvalId h"
    and h: "Awaited (AwaitResolution approvalId (holdLimitMs env)) (Waited WaitApproved actor) s \<in> set h"
      "Did (Journal (decisionInfoOf facts OApproved (d_rule d) x) (call_args call) pv) \<in> set h"
    and fresh: "id_key env (gc_id call) \<notin> set (ag_answered (gt_guard s))"
    using assms(1) unfolding approved_in_def by blast
  show ?thesis
    unfolding approved_in_def
    using d requested_mono[OF req sub] fresh subsetD[OF sub h(1)] subsetD[OF sub h(2)] by blast
qed

lemma args_passed_mono: "args_passed env call h \<Longrightarrow> set h \<subseteq> set h' \<Longrightarrow> args_passed env call h'"
  by (auto simp: args_passed_def)

lemma decided_mono: "decided_in env call g0 h \<Longrightarrow> set h \<subseteq> set h' \<Longrightarrow> decided_in env call g0 h'"
  unfolding decided_in_def using evaluated_mono[of env call g0 _ _ h h'] allowed_mono[of call _ _ h h'] approved_mono[of env call _ _ h h']
    args_passed_mono[of env call h h']
  by blast

lemma confirmed_mono:
  assumes "confirmed_in env call g0 h" and sub: "set h \<subseteq> set h'"
  shows "confirmed_in env call g0 h'"
proof -
  from assms(1) consider
      s where "s \<in> set (states_of g0 h)" "\<not> confirm_isRequired env s (tc_name (gc_call call))"
    | key q actor late s where "Awaited (Confirmation key q) (ConfirmReply (Accepted actor) late) s \<in> set h"
    unfolding confirmed_in_def by blast
  then show ?thesis
  proof cases
    case 1
    with subsetD[OF states_of_mono[OF sub]] show ?thesis unfolding confirmed_in_def by blast
  next
    case 2
    from subsetD[OF sub this] show ?thesis unfolding confirmed_in_def by blast
  qed
qed

lemma seen_obtain:
  assumes "seen g0 h s"
  obtains s' where "s' \<in> set (states_of g0 h)" and "decision_view s = decision_view s'"
  using assms unfolding seen_def by blast

lemma seen_evaluated:
  assumes "seen g0 h s" and facts: "factsOf env s call = Some facts"
  shows "evaluated_in env call g0 facts (call_decision env s facts) h"
proof -
  obtain s' where s': "s' \<in> set (states_of g0 h)" and view: "decision_view s = decision_view s'"
    using assms(1) by (rule seen_obtain)
  have "factsOf env s' call = Some facts" using factsOf_view[OF view] facts by metis
  then show ?thesis
    unfolding evaluated_in_def using s' call_decision_view[OF view] by blast
qed

lemma seen_confirmed:
  assumes "seen g0 h s" and "\<not> confirm_isRequired env s (tc_name (gc_call call))"
  shows "confirmed_in env call g0 h"
proof -
  obtain s' where s': "s' \<in> set (states_of g0 h)" and view: "decision_view s = decision_view s'"
    using assms(1) by (rule seen_obtain)
  show ?thesis unfolding confirmed_in_def using s' confirm_view[OF view] assms(2) by blast
qed

lemma facts_server: "evaluated_in env call g0 facts d h \<Longrightarrow> fa_server facts = ge_server env \<and> fa_tool facts = tc_name (gc_call call)"
  by (auto simp: evaluated_in_def factsOf_def Let_def split: option.splits)

section \<open>The steps of a call\<close>

text \<open>Refusals return \<open>Drop\<close>, whatever else they do.\<close>

lemma holds_drop:
  assumes "\<And>h' s'. B h' s' Drop"
  shows "holds g0 (ret Drop) B h s"
  by (rule holds_ret) (rule assms)

lemmas holds_steps = holds_then_do[of _ _ "\<lambda>h' s'. True"] holds_write holds_settle holds_answer holds_drop holds_await_ok TrueI

lemma holds_applyDeny: "holds g0 (applyDeny env call facts d detail) (\<lambda>h' s' v. v \<noteq> Forward) h s"
  unfolding applyDeny_def by (intro holds_steps) simp

lemma holds_applyAllow:
  assumes "d_outcome d = Allow"
  shows "holds g0 (applyAllow env call facts d x) (\<lambda>h' s' v. allowed_in call facts d h') h s"
  unfolding applyAllow_def
proof (rule holds_then_do[where A = "\<lambda>h' s'. allowed_in call facts d h'"])
  show "holds g0 (writeDecision env (decisionInfoOf facts OAllow (d_rule d) x) (call_args call) None)
      (\<lambda>h' s' x. allowed_in call facts d h') h s"
    by (rule holds_write) (auto simp: allowed_in_def assms)
  show "holds g0 (if ge_fail_closed env then then_do (await_ok FlushJournal) (ret Forward) else ret Forward)
      (\<lambda>h' s' v. allowed_in call facts d h') h' s'" if "allowed_in call facts d h'" for h' s'
    using that by (auto intro!: holds_ret holds_then_do[where A = "\<lambda>h'' s''. allowed_in call facts d h''"] holds_await_ok
        dest: allowed_mono)
qed

lemma holds_evaluate:
  "holds g0 (evaluateTightened env call)
     (\<lambda>h' s' e. \<exists>d. evaluated_in env call g0 (ev_facts e) d h' \<and> (ev_decision e = d \<and> args_passed env call h' \<or> d_outcome (ev_decision e) = Deny)) h s"
  unfolding evaluateTightened_def
proof (rule holds_and_then)
  show "holds g0 (evaluate env call) (\<lambda>h' s' e. evaluated_in env call g0 (ev_facts e) (ev_decision e) h') h s"
    unfolding evaluate_def
    by (rule holds_reading) (auto intro: holds_throw intro!: holds_ret simp: seen_evaluated split: option.split)
  fix h' s' e
  assume ev: "evaluated_in env call g0 (ev_facts e) (ev_decision e) h'"
  have *: "evaluated_in env call g0 (ev_facts e) (ev_decision e) (h' @ [Awaited q r s1])" for q r s1
    by (rule evaluated_mono[OF ev]) auto
  have passed: "args_passed env call (h' @ [Awaited (CheckArgs call) (ArgsReply None) s1])" for s1
    by (auto simp: args_passed_def)
  have no_check: "\<not> ge_checks_args env \<Longrightarrow> args_passed env call h'" by (simp add: args_passed_def)
  show "holds g0 (if \<not> ge_checks_args env \<or> d_outcome (ev_decision e) = Deny then ret e
       else await (CheckArgs call) (\<lambda>r.
         case r of
           ArgsReply None \<Rightarrow> ret e
         | ArgsReply (Some refusal) \<Rightarrow>
             ret (e\<lparr>ev_decision := \<lparr>d_outcome = Deny, d_rule = rf_rule refusal, d_reason = rf_reason refusal\<rparr>,
               ev_message := Some (rf_message refusal)\<rparr>)
         | _ \<Rightarrow> throw))
     (\<lambda>h' s' e. \<exists>d. evaluated_in env call g0 (ev_facts e) d h' \<and> (ev_decision e = d \<and> args_passed env call h' \<or> d_outcome (ev_decision e) = Deny)) h' s'"
    using ev * passed no_check by (auto intro!: holds_ret holds_await holds_throw split: gate_reply.split option.split) blast+
qed

text \<open>An approval: its request, its wait, its outcome.\<close>

lemma holds_enqueue:
  assumes "fa_server facts = ge_server env"
  shows "holds g0 (enqueue_approval env call facts d captured base) (\<lambda>h' s' approvalId. requested_in call facts approvalId h') h s"
  unfolding enqueue_approval_def
proof (intro holds_reading holds_await)
  fix r s1
  let ?h = "h @ [Awaited (EnqueueApproval (enqueue_request_of env s call facts d captured)) r s1]"
  show "holds g0 (case r of
           Enqueued approvalId \<Rightarrow>
             then_do (writeDecision env (decisionInfoOf facts OPending (d_rule d)
                 (base\<lparr>dx_approval := Some approvalId, dx_agent := map_option ga_name (ge_agent env)\<rparr>))
                 (call_args call) (Some captured))
              (then_do (settleJournal env)
                (then_do (emit [ApprovalPending approvalId]) (ret approvalId)))
         | _ \<Rightarrow> throw) (\<lambda>h' s' approvalId. requested_in call facts approvalId h') ?h s1"
  proof (cases r)
    case (Enqueued approvalId)
    have "requested_in call facts approvalId ?h"
      using assms unfolding requested_in_def by (auto simp: Enqueued enqueue_request_of_def)
    moreover have "holds g0 (ret approvalId) (\<lambda>h' s' i. requested_in call facts i h') h' s'"
      if "requested_in call facts approvalId h'" for h' s'
      by (rule holds_ret) (rule that)
    ultimately show ?thesis
      unfolding Enqueued gate_reply.case
      by (intro holds_then_do[where A = "\<lambda>h' s'. requested_in call facts approvalId h'"] holds_write holds_settle holds_emit)
        (simp_all, (erule requested_mono, auto)+)
  qed (simp_all add: holds_throw)
qed

definition waited_in :: "gate_env \<Rightarrow> jstr \<Rightarrow> wait_result \<Rightarrow> (gate, gate_effect, gate_ask, gate_reply) moment list \<Rightarrow> gate \<Rightarrow> bool" where
  "waited_in env approvalId r h g \<longleftrightarrow>
     (\<exists>s. Awaited (AwaitResolution approvalId (holdLimitMs env)) (Waited (wr_outcome r) (wr_actor r)) s \<in> set h
        \<and> ag_answered (gt_guard s) = ag_answered (gt_guard g))"

lemma answered_endWait [simp]: "ag_answered (endWait key a) = ag_answered a"
  by (simp add: endWait_def Let_def)

lemma holds_hold: "holds g0 (hold_call env key approvalId) (\<lambda>h' s' r. waited_in env approvalId r h' s') h s"
  unfolding hold_call_def
proof (rule holds_then_do[where A = "\<lambda>h' s'. True"])
  show "holds g0 (modify (begin_wait key)) (\<lambda>h' s' x. True) h s" by (simp add: holds_modify view_simps)
  fix h' s'
  let ?fin = "modify (\<lambda>g. (end_wait key g)\<lparr>gt_held := AList.delete approvalId (gt_held g)\<rparr>)"
  show "holds g0 (finalizing (await (AwaitResolution approvalId (holdLimitMs env)) (\<lambda>r.
          case r of
            Waited outcome actor \<Rightarrow>
              reading (\<lambda>g. ret \<lparr>wr_outcome = outcome, wr_actor = actor,
                wr_left = Option.bind (map_of (gt_held g) approvalId) hc_left_reason\<rparr>)
          | _ \<Rightarrow> throw)) ?fin) (\<lambda>h' s' r. waited_in env approvalId r h' s') h' s'"
  proof (rule holds_finalizing[where A = "\<lambda>h' s' r. waited_in env approvalId r h' s'"])
    show "holds g0 (await (AwaitResolution approvalId (holdLimitMs env)) (\<lambda>r.
          case r of
            Waited outcome actor \<Rightarrow>
              reading (\<lambda>g. ret \<lparr>wr_outcome = outcome, wr_actor = actor,
                wr_left = Option.bind (map_of (gt_held g) approvalId) hc_left_reason\<rparr>)
          | _ \<Rightarrow> throw)) (\<lambda>h' s' r. waited_in env approvalId r h' s') h' s'"
      by (intro holds_await) (auto intro!: holds_throw holds_reading holds_ret simp: waited_in_def split: gate_reply.split)
    show "holds g0 ?fin (\<lambda>h'' s'' u. waited_in env approvalId x h'' s'') h'a s'a" if "waited_in env approvalId x h'a s'a" for h'a s'a x
      using that by (intro holds_modify) (auto simp: view_simps waited_in_def end_wait_def)
    show "holds g0 ?fin (\<lambda>h'' s'' u. True) h'a s'a" for h'a s'a
      by (intro holds_modify) (auto simp: view_simps)
  qed
qed

lemma holds_finishAgentGone: "holds g0 (finishAgentGone env call facts rule captured key x) (\<lambda>h' s' v. v \<noteq> Forward) h s"
  unfolding finishAgentGone_def
  by (intro holds_steps holds_modify holds_emit) (auto simp: view_simps Let_def split: option.split)

lemma holds_finishDenied: "holds g0 (finishDenied env call facts rule captured actor x) (\<lambda>h' s' v. v \<noteq> Forward) h s"
  unfolding finishDenied_def by (intro holds_steps) simp

lemma holds_finishTimedOut: "holds g0 (finishTimedOut env call facts rule captured approvalId x) (\<lambda>h' s' v. v \<noteq> Forward) h s"
  unfolding finishTimedOut_def by (intro holds_steps holds_catching holds_emit) simp

lemma holds_finishApproved:
  "holds g0 (finishApproved env call facts rule captured key actor x)
     (\<lambda>h' s' v. v = Forward \<longrightarrow> key \<notin> set (ag_answered (gt_guard s)) \<and>
        (\<exists>x pv. Did (Journal (decisionInfoOf facts OApproved rule x) (call_args call) pv) \<in> set h')) h s"
proof (cases "isAnswered (gt_guard s) key")
  case True
  then show ?thesis unfolding finishApproved_def by (intro holds_reading) (auto intro!: holds_steps)
next
  case False
  let ?did = "\<lambda>h'. \<exists>x pv. Did (Journal (decisionInfoOf facts OApproved rule x) (call_args call) pv) \<in> set h'"
  have wrote: "holds g0 (writeDecision env (decisionInfoOf facts OApproved rule (x\<lparr>dx_actor := actor\<rparr>)) (call_args call) (Some captured))
      (\<lambda>h' s' u. ?did h') h s"
    by (rule holds_write) (simp, blast)
  have "holds g0 (then_do (settleJournal env) (ret Forward)) (\<lambda>h' s' v. ?did h') h' s'" if "?did h'" for h' s'
    by (rule holds_then_do[where A = "\<lambda>h' s'. ?did h'"])
      (rule holds_settle, use that in blast, rule holds_ret, assumption)
  from holds_then_do[OF wrote this] show ?thesis
    using False unfolding finishApproved_def
    by (intro holds_reading) (auto simp: isAnswered_def elim!: holds_weaken)
qed

lemma holds_finishApproval:
  assumes "waited_in env approvalId r h s" and "requested_in call facts approvalId h"
    and "d_outcome d = RequireApproval" and "gc_id call \<noteq> IdNull"
  shows "holds g0 (finishApproval env call facts (d_rule d) captured (id_key env (gc_id call)) approvalId t r base)
     (\<lambda>h' s' v. v = Forward \<longrightarrow> approved_in env call facts d h') h s"
proof -
  let ?B = "\<lambda>h' s' v. v = Forward \<longrightarrow> approved_in env call facts d h'"
  let ?key = "id_key env (gc_id call)"
  have denied: "holds g0 (finishDenied env call facts (d_rule d) captured (wr_actor r) x) ?B h s" for x
    by (rule holds_weaken[OF holds_finishDenied]) simp
  have late: "holds g0 (finishTimedOut env call facts (d_rule d) captured approvalId x) ?B h s" for x
    by (rule holds_weaken[OF holds_finishTimedOut]) simp
  have gone: "holds g0 (finishAgentGone env call facts (d_rule d) captured ?key x) ?B h s" for x
    by (rule holds_weaken[OF holds_finishAgentGone]) simp
  have approved: "holds g0 (finishApproved env call facts (d_rule d) captured ?key (wr_actor r) x) ?B h s"
    if won: "wr_outcome r = WaitApproved" for x
  proof (rule holds_weaken[OF holds_finishApproved], intro impI)
    fix h' s' v
    assume sub: "set h \<subseteq> set h'" and "v = Forward"
      and "v = Forward \<longrightarrow> ?key \<notin> set (ag_answered (gt_guard s)) \<and>
        (\<exists>x pv. Did (Journal (decisionInfoOf facts OApproved (d_rule d) x) (call_args call) pv) \<in> set h')"
    then obtain x pv where did: "Did (Journal (decisionInfoOf facts OApproved (d_rule d) x) (call_args call) pv) \<in> set h'"
      and fresh: "?key \<notin> set (ag_answered (gt_guard s))" by blast
    obtain s1 where waited: "Awaited (AwaitResolution approvalId (holdLimitMs env)) (Waited WaitApproved (wr_actor r)) s1 \<in> set h"
      and same: "ag_answered (gt_guard s1) = ag_answered (gt_guard s)"
      using assms(1)[unfolded waited_in_def won] by blast
    from fresh have "?key \<notin> set (ag_answered (gt_guard s1))" unfolding same .
    then show "approved_in env call facts d h'"
      unfolding approved_in_def using assms(3,4) requested_mono[OF assms(2) sub] subsetD[OF sub waited] did by blast
  qed
  show ?thesis
    unfolding finishApproval_def
    by (rule holds_reading) (cases "wr_outcome r"; cases "wr_left r"; simp add: denied late gone approved)
qed

lemma holds_requestApproval:
  assumes "fa_server facts = ge_server env" and "d_outcome d = RequireApproval" and "gc_id call \<noteq> IdNull"
  shows "holds g0 (requestApproval env call facts d captured base) (\<lambda>h' s' v. v = Forward \<longrightarrow> approved_in env call facts d h') h s"
proof -
  let ?B = "\<lambda>h' s' v. v = Forward \<longrightarrow> approved_in env call facts d h'"
  let ?key = "id_key env (gc_id call)"
  let ?rest = "\<lambda>g0 approvalId. then_do (modify (\<lambda>g. g\<lparr>gt_held := AList.update approvalId
              \<lparr>hc_id_key = ?key, hc_left_reason = None, hc_aborted = False\<rparr> (gt_held g)\<rparr>))
           (then_do (reading (\<lambda>g. case early_reason g ?key of None \<Rightarrow> ret ()
               | Some reason \<Rightarrow> then_do (modify (mark_left approvalId reason)) (emit [LeaveStarted approvalId reason])))
             (and_then (hold_call env ?key approvalId) (\<lambda>result.
               finishApproval env call facts (d_rule d) captured ?key approvalId (gt_now g0) result base)))"
  have hold: "holds g0 (and_then (hold_call env ?key approvalId) (\<lambda>result.
      finishApproval env call facts (d_rule d) captured ?key approvalId t result base)) ?B h1 s1"
    if "requested_in call facts approvalId h1" for approvalId t h1 s1
  proof (rule holds_and_then[OF holds_hold])
    show "holds g0 (finishApproval env call facts (d_rule d) captured ?key approvalId t r base) ?B h2 s2"
      if "set h1 \<subseteq> set h2" "waited_in env approvalId r h2 s2" for h2 s2 r
      by (rule holds_finishApproval[OF that(2) requested_mono[OF _ that(1)] assms(2,3)])
        (rule \<open>requested_in call facts approvalId h1\<close>)
  qed
  have left: "holds g0 (reading (\<lambda>g. case early_reason g ?key of None \<Rightarrow> ret ()
               | Some reason \<Rightarrow> then_do (modify (mark_left approvalId reason)) (emit [LeaveStarted approvalId reason])))
      (\<lambda>h' s' u. requested_in call facts approvalId h') h1 s1"
    if "requested_in call facts approvalId h1" for approvalId h1 s1
  proof -
    have "holds g0 (modify (mark_left approvalId reason)) (\<lambda>h' s' u. requested_in call facts approvalId h') h1 s1" for reason
      by (rule holds_modify) (simp_all add: view_simps that)
    then have "holds g0 (then_do (modify (mark_left approvalId reason)) (emit [LeaveStarted approvalId reason]))
        (\<lambda>h' s' u. requested_in call facts approvalId h') h1 s1" for reason
      by (rule holds_then_do) (rule holds_emit, erule requested_mono, auto)
    then show ?thesis
      by (intro holds_reading) (cases "early_reason s1 ?key"; simp add: holds_ret that)
  qed
  have rest: "holds g0 (?rest t approvalId) ?B h1 s1" if "requested_in call facts approvalId h1" for t approvalId h1 s1
  proof (rule holds_then_do[where A = "\<lambda>h' s'. requested_in call facts approvalId h'"])
    show "holds g0 (modify (\<lambda>g. g\<lparr>gt_held := AList.update approvalId
              \<lparr>hc_id_key = ?key, hc_left_reason = None, hc_aborted = False\<rparr> (gt_held g)\<rparr>))
        (\<lambda>h' s' x. requested_in call facts approvalId h') h1 s1"
      by (rule holds_modify) (simp_all add: view_simps that)
    show "holds g0 (then_do (reading (\<lambda>g. case early_reason g ?key of None \<Rightarrow> ret ()
               | Some reason \<Rightarrow> then_do (modify (mark_left approvalId reason)) (emit [LeaveStarted approvalId reason])))
             (and_then (hold_call env ?key approvalId) (\<lambda>result.
               finishApproval env call facts (d_rule d) captured ?key approvalId (gt_now t) result base))) ?B h2 s2"
      if "requested_in call facts approvalId h2" for h2 s2
      by (rule holds_then_do[OF left[OF that]]) (rule hold)
  qed
  have "holds g0 (enqueueAndHold env call facts d captured base) ?B h1 s1" for h1 s1
    unfolding enqueueAndHold_def Let_def using assms(3)
    by (intro holds_reading) (simp, rule holds_and_then[OF holds_enqueue[OF assms(1)]], rule rest)
  then have "holds g0 (finalizing (enqueueAndHold env call facts d captured base)
      (modify (\<lambda>g. g\<lparr>gt_admitted := gt_admitted g - 1\<rparr>))) ?B h1 s1" for h1 s1
    by (rule holds_finalizing) (rule holds_modify; simp add: view_simps)+
  then show ?thesis
    unfolding requestApproval_def refuseOverCap_def
    by (intro holds_reading) (auto intro!: holds_steps holds_then_do[of _ _ "\<lambda>h' s'. True"] holds_modify simp: view_simps)
qed

lemma holds_go_on:
  assumes "fa_server (ev_facts e) = ge_server env"
  shows "holds g0 (go_on env call e base) (\<lambda>h' s' v. v = Forward \<longrightarrow>
     allowed_in call (ev_facts e) (ev_decision e) h' \<or> approved_in env call (ev_facts e) (ev_decision e) h') h s"
proof -
  have deny: "holds g0 (applyDeny env call (ev_facts e) d detail) (\<lambda>h' s' v. v = Forward \<longrightarrow>
     allowed_in call (ev_facts e) (ev_decision e) h' \<or> approved_in env call (ev_facts e) (ev_decision e) h') h s" for d detail
    by (rule holds_weaken[OF holds_applyDeny]) simp
  have allow: "holds g0 (applyAllow env call (ev_facts e) (ev_decision e) base) (\<lambda>h' s' v. v = Forward \<longrightarrow>
     allowed_in call (ev_facts e) (ev_decision e) h' \<or> approved_in env call (ev_facts e) (ev_decision e) h') h s"
    if "d_outcome (ev_decision e) = Allow"
    by (rule holds_weaken[OF holds_applyAllow[OF that]]) simp
  have approve: "holds g0 (requestApproval env call (ev_facts e) (ev_decision e) (ev_captured e) base) (\<lambda>h' s' v. v = Forward \<longrightarrow>
     allowed_in call (ev_facts e) (ev_decision e) h' \<or> approved_in env call (ev_facts e) (ev_decision e) h') h s"
    if "d_outcome (ev_decision e) = RequireApproval" "gc_id call \<noteq> IdNull"
    by (rule holds_weaken[OF holds_requestApproval[OF assms that]]) simp
  show ?thesis
    using allow approve by (cases "d_outcome (ev_decision e)") (simp_all add: go_on_def deny)
qed

lemma holds_go_on_decided:
  assumes ev: "\<exists>d. evaluated_in env call g0 (ev_facts e) d h \<and> (ev_decision e = d \<and> args_passed env call h \<or> d_outcome (ev_decision e) = Deny)"
  shows "holds g0 (go_on env call e base) (\<lambda>h' s' v. v = Forward \<longrightarrow> decided_in env call g0 h') h s"
proof -
  obtain d where d: "evaluated_in env call g0 (ev_facts e) d h" and tight: "ev_decision e = d \<and> args_passed env call h \<or> d_outcome (ev_decision e) = Deny"
    using ev by blast
  have server: "fa_server (ev_facts e) = ge_server env" using facts_server[OF d] by simp
  show ?thesis
  proof (rule holds_weaken[OF holds_go_on[OF server]], intro impI)
    fix h' s' v
    assume sub: "set h \<subseteq> set h'" and "v = Forward"
      and "v = Forward \<longrightarrow> allowed_in call (ev_facts e) (ev_decision e) h' \<or> approved_in env call (ev_facts e) (ev_decision e) h'"
    then have fin: "allowed_in call (ev_facts e) (ev_decision e) h' \<or> approved_in env call (ev_facts e) (ev_decision e) h'" by simp
    then have "ev_decision e = d \<and> args_passed env call h'"
      using tight args_passed_mono[OF _ sub] by (auto simp: allowed_in_def approved_in_def)
    with fin evaluated_mono[OF d sub] show "decided_in env call g0 h'" unfolding decided_in_def by blast
  qed
qed

lemma holds_case_confirm:
  "\<lbrakk>\<And>answer late. r = ConfirmReply answer late \<Longrightarrow> holds g0 (f answer late) B h s; \<And>x. holds g0 throw B h s\<rbrakk> \<Longrightarrow>
     holds g0 (case r of ConfirmReply answer late \<Rightarrow> f answer late | _ \<Rightarrow> throw) B h s"
  by (cases r) auto

text \<open>A confirmation is a person's acceptance.\<close>

definition accepted_in :: "(gate, gate_effect, gate_ask, gate_reply) moment list \<Rightarrow> bool" where
  "accepted_in h \<longleftrightarrow> (\<exists>key q actor late s. Awaited (Confirmation key q) (ConfirmReply (Accepted actor) late) s \<in> set h)"

lemma accepted_inI: "Awaited (Confirmation key q) (ConfirmReply (Accepted actor) late) s \<in> set h \<Longrightarrow> accepted_in h"
  unfolding accepted_in_def by blast

lemma accepted_mono: "accepted_in h \<Longrightarrow> set h \<subseteq> set h' \<Longrightarrow> accepted_in h'"
  unfolding accepted_in_def by blast

lemma accepted_confirmed: "accepted_in h \<Longrightarrow> confirmed_in env call g0 h"
  unfolding accepted_in_def confirmed_in_def by blast

lemma holds_refuse: "holds g0 (then_do (tellOperator facts line) (then_do (refuse_confirm env call facts refusal) (ret None)))
   (\<lambda>h' s' c. c = None) h s"
  unfolding tellOperator_def refuse_confirm_def
  by (auto intro!: holds_then_do[of _ _ "\<lambda>h' s'. True"] holds_ret holds_emit holds_write holds_settle holds_answer holds_modify
      simp: view_simps split: option.split)

lemma holds_wait_confirm:
  "holds g0 (wait_confirm env call facts key n thenAdmin) (\<lambda>h' s' c. c \<noteq> None \<longrightarrow> accepted_in h') h s"
  unfolding wait_confirm_def
proof (rule holds_finalizing[where A = "\<lambda>h' s' c. c \<noteq> None \<longrightarrow> accepted_in h'"])
  let ?fin = "modify (\<lambda>g. if map_option fst (map_of (gt_confirming g) key) = Some n
          then g\<lparr>gt_confirming := AList.delete key (gt_confirming g)\<rparr> else g) :: unit gproc"
  show "holds g0 ?fin (\<lambda>h'' s'' u. x \<noteq> None \<longrightarrow> accepted_in h'') h' s'" if "x \<noteq> None \<longrightarrow> accepted_in h'" for h' s' and x :: "jstr option"
    using that by (intro holds_modify) (simp_all add: view_simps)
  show "holds g0 ?fin (\<lambda>h'' s'' u. True) h' s'" for h' s'
    by (intro holds_modify) (simp_all add: view_simps)
  fix h' s'
  have no: "holds g0 (reading (\<lambda>g.
                  (let refusal = refusalOf answer timedOut (confirm_entry_cancelled g key n) in
                   then_do (if person_refused answer then modify (pause_call facts) else ret ())
                    (then_do (tellOperator facts (rl_line refusal))
                      (then_do (refuse_confirm env call facts refusal) (ret None))))))
      (\<lambda>h' s' c. c \<noteq> None \<longrightarrow> accepted_in h') h2 s2" for answer timedOut h2 s2
    unfolding Let_def
    by (intro holds_reading holds_then_do[of _ _ "\<lambda>h' s'. True"] holds_weaken[OF holds_refuse])
      (auto intro: holds_ret holds_modify simp: view_simps)
  show "holds g0 (await (Confirmation key (question_of env call facts thenAdmin)) (\<lambda>r.
         case r of
           ConfirmReply answer timedOut \<Rightarrow>
             (case answer of
                Accepted actor \<Rightarrow> ret (Some actor)
              | _ \<Rightarrow> reading (\<lambda>g.
                  (let refusal = refusalOf answer timedOut (confirm_entry_cancelled g key n) in
                   then_do (if person_refused answer then modify (pause_call facts) else ret ())
                    (then_do (tellOperator facts (rl_line refusal))
                      (then_do (refuse_confirm env call facts refusal) (ret None))))))
         | _ \<Rightarrow> throw)) (\<lambda>h' s' c. c \<noteq> None \<longrightarrow> accepted_in h') h s"
  proof (intro holds_await holds_case_confirm holds_throw)
    fix r s1 answer late
    assume r: "r = ConfirmReply answer late"
    let ?h = "h @ [Awaited (Confirmation key (question_of env call facts thenAdmin)) r s1]"
    have "holds g0 (ret (Some actor)) (\<lambda>h' s' c. c \<noteq> None \<longrightarrow> accepted_in h') ?h s1" if "answer = Accepted actor" for actor
      by (rule holds_ret) (auto intro: accepted_inI simp: r that)
    with no show "holds g0 (case answer of
                Accepted actor \<Rightarrow> ret (Some actor)
              | _ \<Rightarrow> reading (\<lambda>g.
                  (let refusal = refusalOf answer late (confirm_entry_cancelled g key n) in
                   then_do (if person_refused answer then modify (pause_call facts) else ret ())
                    (then_do (tellOperator facts (rl_line refusal))
                      (then_do (refuse_confirm env call facts refusal) (ret None)))))) (\<lambda>h' s' c. c \<noteq> None \<longrightarrow> accepted_in h') ?h s1"
      by (cases answer) (simp_all only: confirm_answer.case)
  qed
qed

lemma holds_run_confirm:
  "holds g0 (run_confirm env call facts thenAdmin) (\<lambda>h' s' c. c \<noteq> None \<longrightarrow> accepted_in h') h s"
proof -
  let ?B = "\<lambda>h' s' (c :: jstr option). c \<noteq> None \<longrightarrow> accepted_in h'"
  have refuse: "holds g0 (then_do (tellOperator facts line) (then_do (refuse_confirm env call facts refusal) (ret None))) ?B h s" for line refusal
    by (rule holds_weaken[OF holds_refuse]) simp
  have "holds g0 (finalizing (wait_confirm env call facts key n thenAdmin) (modify (end_wait key))) ?B h1 s1" for key n h1 s1
    by (rule holds_finalizing[OF holds_wait_confirm]) (rule holds_modify; simp add: view_simps)+
  then have "holds g0 (let key = id_key env (gc_id call); n = gt_next s in
            then_do (modify (\<lambda>g. begin_wait key
                (g\<lparr>gt_confirming := AList.update key (n, False) (gt_confirming g), gt_next := Suc n\<rparr>)))
             (finalizing (wait_confirm env call facts key n thenAdmin) (modify (end_wait key)))) ?B h s"
    unfolding Let_def by (intro holds_then_do[of _ _ "\<lambda>h' s'. True"] holds_modify) (simp_all add: view_simps)
  with refuse show ?thesis
    unfolding run_confirm_def by (intro holds_reading) (simp split: option.split)
qed

lemma holds_confirmThenGo:
  "holds g0 (confirmThenGo env call facts thenAdmin)
     (\<lambda>h' s' v. v = Forward \<longrightarrow> decided_in env call g0 h' \<and> confirmed_in env call g0 h') h s"
proof -
  let ?B = "\<lambda>h' s' v. v = Forward \<longrightarrow> decided_in env call g0 h' \<and> confirmed_in env call g0 h'"
  let ?key = "id_key env (gc_id call)"
  let ?waits = "gc_id call \<noteq> IdNull"
  have bracket: "holds g0 (if ?waits then modify (f ?key) else ret ()) (\<lambda>h' s' u. P h') h1 s1"
    if "P h1" "\<And>key g. decision_view (f key g) = decision_view g" for f P h1 s1
    using that by (auto intro: holds_modify holds_ret)
  have late: "holds g0 (then_do (writeDecision env (decisionInfoOf facts ODeny already_answered_rule base) (call_args call) None)
                      (then_do (settleJournal env) (ret Drop))) ?B h1 s1" for facts base h1 s1
    by (intro holds_steps) simp
  have go: "holds g0 (go_on env call e base) ?B h1 s1"
    if acc: "accepted_in h1" and ev: "\<exists>d. evaluated_in env call g0 (ev_facts e) d h1 \<and> (ev_decision e = d \<and> args_passed env call h1 \<or> d_outcome (ev_decision e) = Deny)"
    for e :: evaluation and base h1 s1
    by (rule holds_weaken[OF holds_go_on_decided[OF ev]]) (simp add: accepted_confirmed[OF accepted_mono[OF acc]])
  have next_step: "holds g0 (and_then (evaluateTightened env call) (\<lambda>e.
                  reading (\<lambda>g.
                    if ?waits \<and> isAnswered (gt_guard g) ?key
                    then then_do (writeDecision env (decisionInfoOf (ev_facts e) ODeny already_answered_rule base) (call_args call) None)
                      (then_do (settleJournal env) (ret Drop))
                    else go_on env call e base))) ?B h1 s1" if "accepted_in h1" for base h1 s1
  proof (rule holds_and_then[OF holds_evaluate], rule holds_reading)
    fix h2 s2 and e :: evaluation
    assume "set h1 \<subseteq> set h2" "\<exists>d. evaluated_in env call g0 (ev_facts e) d h2 \<and> (ev_decision e = d \<and> args_passed env call h2 \<or> d_outcome (ev_decision e) = Deny)"
    then show "holds g0 (if ?waits \<and> isAnswered (gt_guard s2) ?key
                    then then_do (writeDecision env (decisionInfoOf (ev_facts e) ODeny already_answered_rule base) (call_args call) None)
                      (then_do (settleJournal env) (ret Drop))
                    else go_on env call e base) ?B h2 s2"
      using late go[OF accepted_mono[OF that]] by simp
  qed
  have body: "holds g0 (and_then (run_confirm env call facts thenAdmin) (\<lambda>confirmed.
           case confirmed of None \<Rightarrow> ret Drop
           | Some actor \<Rightarrow>
               (let base = no_extras\<lparr>dx_confirmed_by := Some actor\<rparr> in
                and_then (evaluateTightened env call) (\<lambda>e.
                  reading (\<lambda>g.
                    if ?waits \<and> isAnswered (gt_guard g) ?key
                    then then_do (writeDecision env (decisionInfoOf (ev_facts e) ODeny already_answered_rule base) (call_args call) None)
                      (then_do (settleJournal env) (ret Drop))
                    else go_on env call e base))))) ?B h1 s1" for h1 s1
  proof (rule holds_and_then[OF holds_run_confirm])
    fix h2 s2 and confirmed :: "jstr option"
    assume "confirmed \<noteq> None \<longrightarrow> accepted_in h2"
    then show "holds g0 (case confirmed of None \<Rightarrow> ret Drop
           | Some actor \<Rightarrow>
               (let base = no_extras\<lparr>dx_confirmed_by := Some actor\<rparr> in
                and_then (evaluateTightened env call) (\<lambda>e.
                  reading (\<lambda>g.
                    if ?waits \<and> isAnswered (gt_guard g) ?key
                    then then_do (writeDecision env (decisionInfoOf (ev_facts e) ODeny already_answered_rule base) (call_args call) None)
                      (then_do (settleJournal env) (ret Drop))
                    else go_on env call e base)))) ?B h2 s2"
      using next_step by (cases confirmed) (simp_all add: holds_drop Let_def)
  qed
  show ?thesis
    unfolding confirmThenGo_def Let_def
  proof (rule holds_then_do[where A = "\<lambda>h' s'. True"])
    show "holds g0 (if ?waits then modify (begin_wait ?key) else ret ()) (\<lambda>h' s' x. True) h s"
      by (rule bracket) (simp_all add: view_simps)
    show "holds g0 (finalizing (and_then (run_confirm env call facts thenAdmin) (\<lambda>confirmed.
           case confirmed of None \<Rightarrow> ret Drop
           | Some actor \<Rightarrow>
                and_then (evaluateTightened env call) (\<lambda>e.
                  reading (\<lambda>g.
                    if ?waits \<and> isAnswered (gt_guard g) ?key
                    then then_do (writeDecision env (decisionInfoOf (ev_facts e) ODeny already_answered_rule
                        (no_extras\<lparr>dx_confirmed_by := Some actor\<rparr>)) (call_args call) None)
                      (then_do (settleJournal env) (ret Drop))
                    else go_on env call e (no_extras\<lparr>dx_confirmed_by := Some actor\<rparr>)))))
         (if ?waits then modify (end_wait ?key) else ret ())) ?B h1 s1" for h1 s1
    proof (rule holds_finalizing[OF body[unfolded Let_def]])
      show "holds g0 (if ?waits then modify (end_wait ?key) else ret ()) (\<lambda>h'' s'' u. ?B h'' s'' x) h2 s2" if "?B h2 s2 x" for h2 s2 x
        using that by (rule bracket) (simp add: view_simps)
      show "holds g0 (if ?waits then modify (end_wait ?key) else ret ()) (\<lambda>h'' s'' u. True) h2 s2" for h2 s2
        by (rule bracket) (simp_all add: view_simps)
    qed
  qed
qed

section \<open>The whole call\<close>

definition sound_in :: "gate_env \<Rightarrow> gate_call \<Rightarrow> gate \<Rightarrow> (gate, gate_effect, gate_ask, gate_reply) moment list \<Rightarrow> verdict \<Rightarrow> bool" where
  "sound_in env call g0 h v \<longleftrightarrow> (v = Forward \<longrightarrow> decided_in env call g0 h \<and> confirmed_in env call g0 h)"

lemma sound_mono: "sound_in env call g0 h v \<Longrightarrow> set h \<subseteq> set h' \<Longrightarrow> sound_in env call g0 h' v"
  unfolding sound_in_def using decided_mono confirmed_mono by blast

lemma holds_seen: "(seen g0 h s \<Longrightarrow> holds g0 p B h s) \<Longrightarrow> holds g0 p B h s"
  by (simp add: holds_def)

lemma admit_cases:
  "case fst (admit env call facts g) of
     Answered p \<Rightarrow> (\<exists>response. p = replay_answer env call facts response) \<or> p = refuseJoin env call facts
   | JoinedCall p \<Rightarrow> \<exists>use. p = join_call env call facts use
   | Go cl \<Rightarrow> True"
  by (auto simp: admit_def Let_def split_beta split: option.split)

lemma holds_replay: "holds g0 (replay_answer env call facts response) (\<lambda>h' s' v. v \<noteq> Forward) h s"
  unfolding replay_answer_def by (intro holds_steps) simp

lemma holds_refuseJoin: "holds g0 (refuseJoin env call facts) (\<lambda>h' s' v. v \<noteq> Forward) h s"
  unfolding refuseJoin_def by (intro holds_steps) simp

lemma holds_join: "holds g0 (join_call env call facts use) (\<lambda>h' s' out. out \<noteq> Some Forward) h s"
proof -
  have settled: "holds g0 (case r of JoinReply False \<Rightarrow> ret (Some Drop) | _ \<Rightarrow> then_do (modify (end_join key n)) (ret None))
      (\<lambda>h' s' out. out \<noteq> Some Forward) h1 s1" for r key n h1 s1
  proof -
    have go: "holds g0 (then_do (modify (end_join key n)) (ret None)) (\<lambda>h' s' out. out \<noteq> Some Forward) h1 s1"
      by (intro holds_then_do[of _ _ "\<lambda>h' s'. True"] holds_modify holds_ret) (simp_all add: view_simps)
    have gone: "holds g0 (ret (Some Drop)) (\<lambda>h' s' out. out \<noteq> Some Forward) h1 s1" by (rule holds_ret) simp
    show ?thesis using go gone by (simp split: gate_reply.split bool.split)
  qed
  show ?thesis
    unfolding join_call_def Let_def
    by (rule holds_reading, rule holds_then_do[of _ _ "\<lambda>h' s'. True"], rule holds_act, simp add: view_simps, rule TrueI,
        rule holds_and_then[of _ _ "\<lambda>h' s' w. True"], rule holds_acting, simp add: split_beta view_simps, rule TrueI,
        rule holds_await, rule settled)
qed

lemma holds_track:
  assumes "holds g0 p (\<lambda>h' s' v. sound_in env call g0 h' v) h s"
  shows "holds g0 (track_call env call facts cl p) (\<lambda>h' s' v. sound_in env call g0 h' v) h s"
  unfolding track_call_def
proof (rule holds_try_with[OF assms])
  show "holds g0 (then_do (act (register env call facts cl v)) (ret v)) (\<lambda>h' s' v. sound_in env call g0 h' v) h1 s1"
    if "sound_in env call g0 h1 v" for h1 s1 v
  proof (rule holds_then_do[where A = "\<lambda>h' s'. sound_in env call g0 h' v"])
    show "holds g0 (act (register env call facts cl v)) (\<lambda>h' s' x. sound_in env call g0 h' v) h1 s1"
      by (rule holds_act) (simp add: view_simps, rule sound_mono[OF that], simp)
  qed (rule holds_ret)
  show "holds g0 (then_do (act (release_claim env cl)) throw) (\<lambda>h' s' v. sound_in env call g0 h' v) h1 s1" for h1 s1
    by (intro holds_then_do[of _ _ "\<lambda>h' s'. True"] holds_act holds_throw) (simp_all add: view_simps)
qed

lemma holds_decideEvaluated:
  assumes again: "\<And>h s. holds g0 again (\<lambda>h' s' v. sound_in env call g0 h' v) h s"
    and ev: "\<exists>d. evaluated_in env call g0 (ev_facts e) d h \<and> (ev_decision e = d \<and> args_passed env call h \<or> d_outcome (ev_decision e) = Deny)"
  shows "holds g0 (decideEvaluated env call again e) (\<lambda>h' s' v. sound_in env call g0 h' v) h s"
proof (cases "d_outcome (ev_decision e) = Deny")
  case True
  then show ?thesis
    unfolding decideEvaluated_def Let_def by (simp add: holds_weaken[OF holds_applyDeny] sound_in_def)
next
  case False
  let ?B = "\<lambda>h' s' v. sound_in env call g0 h' v"
  have refuse: "holds g0 p ?B h1 s1" if "holds g0 p (\<lambda>h' s' v. v \<noteq> Forward) h1 s1" for p h1 s1
    by (rule holds_weaken[OF that]) (simp add: sound_in_def)
  have direct: "holds g0 (go_on env call e no_extras) ?B h1 s1"
    if sub: "set h \<subseteq> set h1" and no: "\<not> confirm_isRequired env s1 (fa_tool (ev_facts e))" for h1 s1
  proof (rule holds_seen)
    assume "seen g0 h1 s1"
    then have conf: "confirmed_in env call g0 h1"
      using seen_confirmed[of g0 h1 s1 env call] no ev facts_server by metis
    have ev1: "\<exists>d. evaluated_in env call g0 (ev_facts e) d h1 \<and> (ev_decision e = d \<and> args_passed env call h1 \<or> d_outcome (ev_decision e) = Deny)"
      using ev evaluated_mono[OF _ sub] args_passed_mono[OF _ sub] by blast
    show "holds g0 (go_on env call e no_extras) ?B h1 s1"
      by (rule holds_weaken[OF holds_go_on_decided[OF ev1]]) (simp add: sound_in_def confirmed_mono[OF conf])
  qed
  have confirmed: "holds g0 (confirmThenGo env call (ev_facts e) b) ?B h1 s1" for b h1 s1
    by (rule holds_weaken[OF holds_confirmThenGo]) (simp add: sound_in_def)
  have admitted: "holds g0 (case adm of
          Answered p \<Rightarrow> p
        | JoinedCall p \<Rightarrow> and_then p (\<lambda>out. case out of None \<Rightarrow> again | Some v \<Rightarrow> ret v)
        | Go cl \<Rightarrow> reading (\<lambda>g.
            track_call env call (ev_facts e) cl
              (if confirm_isRequired env g (fa_tool (ev_facts e))
               then confirmThenGo env call (ev_facts e) (d_outcome (ev_decision e) = RequireApproval)
               else go_on env call e no_extras))) ?B h1 s1"
    if sub: "set h \<subseteq> set h1" and adm: "case adm of
        Answered p \<Rightarrow> (\<exists>response. p = replay_answer env call (ev_facts e) response) \<or> p = refuseJoin env call (ev_facts e)
      | JoinedCall p \<Rightarrow> \<exists>use. p = join_call env call (ev_facts e) use
      | Go cl \<Rightarrow> True" for adm h1 s1
  proof (cases adm)
    case (Answered p)
    then show ?thesis using adm refuse holds_replay holds_refuseJoin by auto
  next
    case (JoinedCall p)
    then obtain use where p: "p = join_call env call (ev_facts e) use" using adm by auto
    have "holds g0 (and_then p (\<lambda>out. case out of None \<Rightarrow> again | Some v \<Rightarrow> ret v)) ?B h1 s1"
      unfolding p using again by (intro holds_and_then[OF holds_join]) (auto intro!: holds_ret simp: sound_in_def split: option.split)
    then show ?thesis by (simp add: JoinedCall)
  next
    case (Go cl)
    have "holds g0 (track_call env call (ev_facts e) cl
              (if confirm_isRequired env s1 (fa_tool (ev_facts e))
               then confirmThenGo env call (ev_facts e) (d_outcome (ev_decision e) = RequireApproval)
               else go_on env call e no_extras)) ?B h1 s1"
      by (rule holds_track) (simp add: confirmed direct[OF sub])
    then show ?thesis by (simp add: Go holds_reading)
  qed
  have "holds g0 (acting (admit env call (ev_facts e))) (\<lambda>h' s' adm. case adm of
        Answered p \<Rightarrow> (\<exists>response. p = replay_answer env call (ev_facts e) response) \<or> p = refuseJoin env call (ev_facts e)
      | JoinedCall p \<Rightarrow> \<exists>use. p = join_call env call (ev_facts e) use
      | Go cl \<Rightarrow> True) h s"
    by (rule holds_acting) (rule view_admit, rule admit_cases)
  from holds_and_then[OF this admitted] show ?thesis
    unfolding decideEvaluated_def Let_def using False by simp
qed

lemma holds_decideToolCall: "holds g0 (decideToolCall n env call) (\<lambda>h' s' v. sound_in env call g0 h' v) h s"
proof (induction n arbitrary: h s)
  case (Suc n)
  show ?case
    unfolding decideToolCall.simps
    by (rule holds_and_then[OF holds_evaluate]) (rule holds_decideEvaluated[OF Suc.IH])
qed (simp add: holds_throw)

lemma holds_denyOnGateError: "holds g0 (denyOnGateError env call) (\<lambda>h' s' v. v \<noteq> Forward) h s"
  unfolding denyOnGateError_def Let_def
  by (intro holds_then_do[of _ _ "\<lambda>h' s'. True"] holds_catching holds_write holds_settle holds_answer holds_emit holds_drop) simp_all

lemma holds_gated_call: "holds g0 (gated_call n env call) (\<lambda>h' s' v. sound_in env call g0 h' v) h s"
proof -
  have "holds g0 (gateToolCall n env call) (\<lambda>h' s' v. sound_in env call g0 h' v) h s"
    unfolding gateToolCall_def by (rule holds_reading) (simp add: holds_decideToolCall holds_await)
  then show ?thesis
    unfolding gated_call_def guarded_def
    by (rule holds_catching)
      (rule holds_then_do[of _ _ "\<lambda>h' s'. True"], rule holds_emit, rule TrueI,
        rule holds_weaken[OF holds_denyOnGateError], simp add: sound_in_def)
qed

text \<open>A sample of the gate, and a run on it: a call that needs an approval, and gets it.\<close>

definition sample_frame :: json where
  "sample_frame = JObj [(js ''jsonrpc'', JStr (js ''2.0'')), (js ''id'', JStr (js ''1'')), (js ''method'', JStr tools_call_method),
     (js ''params'', JObj [(js ''name'', JStr (js ''t''))])]"

definition sample_env :: gate_env where
  "sample_env = \<lparr>ge_parse = (\<lambda>_. Some sample_frame), ge_num = (\<lambda>_. []), ge_sha = (\<lambda>s. s),
     ge_unicode = \<lparr>nfkc = (\<lambda>s. s), strip_evasion = (\<lambda>s. s), to_lower = (\<lambda>s. s)\<rparr>,
     ge_redactor = \<lparr>rd_unicode = \<lparr>nfkc = (\<lambda>s. s), strip_evasion = (\<lambda>s. s), to_lower = (\<lambda>s. s)\<rparr>,
       rd_parse = (\<lambda>_. None), rd_stringify = (\<lambda>_. []), rd_text = (\<lambda>s. s)\<rparr>,
     ge_policy_hash = (\<lambda>_. []), ge_iso = (\<lambda>_. []), ge_server = js ''gh'', ge_session = js ''s'', ge_agent = None,
     ge_fail_closed = True, ge_wait_cap = None, ge_confirms = False, ge_confirm_prefix = client_confirm_id_prefix, ge_checks_args = False,
     ge_limits = \<lparr>ul_total = 100, ul_scope = 100\<rparr>\<rparr>"

definition sample_gate :: gate where
  "sample_gate = \<lparr>gt_now = 0,
     gt_policy = \<lparr>default_decision = RequireApproval, class_defaults = None, quarantine_enabled = False, on_quarantined = None,
       hide_denied = False, approval_timeout = None, fail_closed = True, servers = None\<rparr>,
     gt_inventory = createInventory, gt_loaded = True, gt_load_failed = False, gt_grants_hash = [], gt_confirmer = createClientConfirmer,
     gt_descriptors = [], gt_guard = createAnswerGuard, gt_uses = createToolUseAnswers, gt_forwarded = [], gt_joined = [],
     gt_leaving = False, gt_held = [], gt_admitted = 0, gt_closed = False, gt_confirming = [], gt_paused = [],
     gt_verdicts = [], gt_cancelled = [], gt_tools_lists = [], gt_resource_lists = [], gt_prompt_lists = [], gt_next = 0\<rparr>"

definition sample_call :: gate_call where
  "sample_call = \<lparr>gc_id = IdStr (js ''1''), gc_call = \<lparr>tc_name = js ''t'', tc_args = JNull,
     tc_meta = \<lparr>cm_progress_token = None, cm_tool_use_id = None\<rparr>\<rparr>\<rparr>"

definition sample_replies :: "(gate_reply \<times> gate) list" where
  "sample_replies = [(Enqueued (js ''a''), sample_gate), (Ok, sample_gate), (Waited WaitApproved (Some (js ''admin'')), sample_gate),
     (Ok, sample_gate)]"

lemma sample_facts: "factsOf sample_env sample_gate sample_call \<noteq> None"
  by code_simp

lemma sample_decision:
  "d_outcome (call_decision sample_env sample_gate (the (factsOf sample_env sample_gate sample_call))) = RequireApproval"
  by code_simp

lemma sample_steps:
  "\<not> confirm_isRequired sample_env sample_gate tool"
  "admit sample_env sample_call facts sample_gate = (Go None, sample_gate, [])"
  "gt_loaded sample_gate" "\<not> ge_checks_args sample_env" "gc_id sample_call \<noteq> IdNull" "gt_admitted sample_gate = 0"
  "gt_closed sample_gate = False" "gt_cancelled sample_gate = []" "ge_fail_closed sample_env"
  "gt_guard sample_gate = createAnswerGuard"
  by (simp_all add: confirm_isRequired_def sample_env_def sample_gate_def sample_call_def isConfirmInClient_def server_entry_def
      admit_def call_tool_use_def)

lemmas call_runs = exec_simps gated_call_def guarded_def catching_def finalizing_def gateToolCall_def and_then_def then_do_def
  evaluateTightened_def evaluate_def decideEvaluated_def Let_def track_call_def split_beta go_on_def requestApproval_def
  max_held_calls_per_session_def enqueueAndHold_def enqueue_approval_def writeDecision_def settleJournal_def hold_call_def
  finishApproval_def early_reason_def finishApproved_def await_ok_def

lemma sample_run: "snd (exec (gated_call (Suc 0) sample_env sample_call) sample_gate sample_replies) = Finished Forward"
proof -
  obtain facts where facts: "factsOf sample_env sample_gate sample_call = Some facts" using sample_facts by blast
  moreover obtain d where d: "call_decision sample_env sample_gate facts = d" by simp
  moreover have "d_outcome d = RequireApproval" using sample_decision by (simp add: facts d)
  ultimately show ?thesis
    by (simp add: call_runs sample_steps sample_replies_def isAnswered_def createAnswerGuard_def end_wait_def endWait_def)
qed

lemma forwarded_decided:
  assumes "exec (gated_call n env call) g replies = (tr, Finished Forward)"
  shows "decided_in env call g tr \<and> confirmed_in env call g tr"
proof -
  from holds_gated_call[of g n env call "[]" g] seen_start
  have "wp (\<lambda>h s out. \<forall>v. out = Some v \<longrightarrow> sound_in env call g h v) (gated_call n env call) [] g"
    by (auto simp: holds_def elim!: wp_mono)
  from exec_wp[OF this assms] show ?thesis by (simp add: sound_in_def)
qed



end
