(* ===== verification/Gate_Errors.thy ===== *)
theory Gate_Errors
  imports Gate_Safety
begin

text \<open>
  What an error does to a call (\<open>proxy/gate-guard.ts\<close>): it is reported, the call is denied, and its id is
  answered; nothing gets past the guard. And what the end of a wait does to the memory of an answer.
\<close>

section \<open>The guard\<close>

lemma wp_denyOnGateError: "wp (\<lambda>h s out. out = Some Drop) (denyOnGateError env call) h s"
  using wp_True by (auto simp: denyOnGateError_def Let_def wp_simps intro!: wp_cong[THEN iffD1, OF _ wp_True] split: option.split)

definition error_denial :: "gate_env \<Rightarrow> gate_call \<Rightarrow> decision_info" where
  "error_denial env call = decisionInfoOf (unsafe_facts env (tc_name (gc_call call))) ODeny gate_error_rule no_extras"

lemma exec_denyOnGateError:
  "\<exists>pv more fin. exec (denyOnGateError env call) s rs = (Did (Journal (error_denial env call) None pv) # more, fin)"
  by (simp add: denyOnGateError_def error_denial_def call_runs split: prod.split)

lemma denyOnGateError_ending:
  "snd (exec (denyOnGateError env call) s rs) = Finished Drop \<or> (\<exists>q. snd (exec (denyOnGateError env call) s rs) = Suspended q)"
proof (cases "snd (exec (denyOnGateError env call) s rs)")
  case (Finished v)
  then have "exec (denyOnGateError env call) s rs = (fst (exec (denyOnGateError env call) s rs), Finished v)"
    by (metis prod.collapse)
  from exec_wp[OF wp_denyOnGateError this] Finished show ?thesis by simp
next
  case Raised
  then show ?thesis
    using exec_no_raise[OF wp_mono[OF wp_denyOnGateError[of env call "[]" s]], of rs] by auto
qed simp

text \<open>C4. An error never lets a call through: when deciding it ends in an exception, at whatever step,
  the guarded call does what was done so far, reports the error and journals a denial by the rule
  \<open>gate-error\<close>; then its verdict is to drop the call, and neither an exception nor a forward.\<close>

theorem gate_error_denied:
  assumes "exec (gateToolCall n env call) g replies = (tr, Raised)"
  shows "\<exists>pv more fin. exec (gated_call n env call) g replies =
      (tr @ Did ReportError # Did (Journal (error_denial env call) None pv) # more, fin)
    \<and> (fin = Finished Drop \<or> (\<exists>q. fin = Suspended q))"
proof -
  let ?handler = "then_do (emit [ReportError]) (denyOnGateError env call)"
  obtain s' rest where run: "exec (gated_call n env call) g replies =
      (tr @ fst (exec ?handler s' rest), snd (exec ?handler s' rest))"
    using exec_raised[OF assms, of ret ?handler] unfolding gated_call_def guarded_def catching_def by blast
  obtain pv more fin where deny: "exec (denyOnGateError env call) s' rest = (Did (Journal (error_denial env call) None pv) # more, fin)"
    using exec_denyOnGateError by blast
  have "exec ?handler s' rest = (Did ReportError # Did (Journal (error_denial env call) None pv) # more, fin)"
    by (simp add: then_do_def and_then_def exec_simps deny)
  moreover have "fin = Finished Drop \<or> (\<exists>q. fin = Suspended q)"
    using denyOnGateError_ending[of env call s' rest] by (simp add: deny)
  ultimately show ?thesis using run by auto
qed

lemma sample_error:
  "snd (exec (gateToolCall (Suc 0) sample_env sample_call) sample_gate [(Failed, sample_gate)]) = Raised"
proof -
  obtain facts where facts: "factsOf sample_env sample_gate sample_call = Some facts" using sample_facts by blast
  moreover obtain d where d: "call_decision sample_env sample_gate facts = d" by simp
  moreover have "d_outcome d = RequireApproval" using sample_decision by (simp add: facts d)
  ultimately show ?thesis by (simp add: call_runs sample_steps)
qed

theorem gate_error_denied_witness:
  "\<exists>tr fin. exec (gated_call (Suc 0) sample_env sample_call) sample_gate [(Failed, sample_gate)] = (tr, fin)
     \<and> Did ReportError \<in> set tr \<and> fin \<noteq> Finished Forward"
proof -
  obtain tr where "exec (gateToolCall (Suc 0) sample_env sample_call) sample_gate [(Failed, sample_gate)] = (tr, Raised)"
    using sample_error by (metis prod.collapse)
  from gate_error_denied[OF this] show ?thesis by force
qed

section \<open>An observation\<close>

text \<open>Where the guard of answered ids ends too early: the burn of an id answered while its call is held
  ends with the hold, before the approval looks. An id that the gate has answered itself, and that
  \<open>isAnswered\<close> still knows in the state in which the approval arrives, is forwarded when the bounded set of
  answered ids has forgotten it and no other wait is open.\<close>

lemma approval_after_burn_forwards:
  assumes "isAnswered (gt_guard s1) key" and "key \<notin> set (ag_answered (gt_guard s1))" and "wait_count (gt_guard s1) key = 1"
  shows "snd (exec (and_then (hold_call env key approvalId) (\<lambda>r.
      finishApproval env call facts rule captured key approvalId startedAt r base)) g
    [(Waited WaitApproved actor, s1), (Ok, s2)]) = Finished Forward"
  using assms by (simp add: call_runs isAnswered_def end_wait_def endWait_def)

definition burned_gate :: gate where
  "burned_gate = sample_gate\<lparr>gt_guard := \<lparr>ag_answered = [], ag_waits = [(js ''k'', 1)], ag_burned = [js ''k'']\<rparr>\<rparr>"

lemma approval_after_burn_forwards_witness:
  "\<forall>env call facts captured r base. snd (exec (and_then (hold_call env (js ''k'') (js ''a'')) (\<lambda>r.
      finishApproval env call facts [] captured (js ''k'') (js ''a'') 0 r base)) sample_gate
    [(Waited WaitApproved None, burned_gate), (Ok, sample_gate)]) = Finished Forward"
  by (intro allI approval_after_burn_forwards) (simp_all add: burned_gate_def isAnswered_def wait_count_def)

end
