(* ===== verification/Gate_Router.thy ===== *)
theory Gate_Router
  imports Gate_Call
begin

text \<open>
  \<open>proxy/gate-router.ts\<close>, \<open>proxy/gate-cancel.ts\<close>, \<open>proxy/gate-method-router.ts\<close> and
  \<open>proxy/gate-server-router.ts\<close>: what the gate does with each message of either side. A message is the
  text of its line. The confirmer is the one of \<open>Client_Confirm\<close>; a wait on the verdict of another call
  is the ask \<open>AwaitVerdict\<close>.
\<close>

section \<open>Cancelled calls\<close>

text \<open>
  \<open>recordVerdict\<close>: the verdict of a call that is still being decided is kept under its id until it settles,
  and with it what is known of a cancellation.
\<close>

definition drop_verdict :: "jstr \<Rightarrow> nat \<Rightarrow> gate \<Rightarrow> gate" where
  "drop_verdict key n g =
     (if map_of (gt_verdicts g) key \<noteq> Some n then g
      else g\<lparr>gt_verdicts := AList.delete key (gt_verdicts g), gt_cancelled := AList.delete key (gt_cancelled g)\<rparr>)"

definition note_verdict :: "jstr \<Rightarrow> gate \<Rightarrow> gate" where
  "note_verdict key g = g\<lparr>gt_verdicts := AList.update key (gt_next g) (gt_verdicts g), gt_next := Suc (gt_next g)\<rparr>"

fun is_pending :: "('s, 'e, 'q, 'r, 'a) task \<Rightarrow> bool" where
  "is_pending (Ask q k) = True"
| "is_pending _ = False"

definition recordVerdict :: "gate_env \<Rightarrow> rpc_id \<Rightarrow> verdict gproc \<Rightarrow> verdict gproc" where
  "recordVerdict env i p =
     (\<lambda>g. case p g of (g1, es, t) \<Rightarrow>
        if i = IdNull \<or> \<not> is_pending t then (g1, es, t)
        else let key = id_key env i; n = gt_next g1; settle = modify (drop_verdict key n) in
          after es (finish_with (\<lambda>v. then_do settle (ret v)) (then_do settle throw) t (note_verdict key g1)))"

text \<open>\<open>withdrawByClient\<close>: each held call of the id is left, up to the wait of its withdrawal.\<close>

fun leave_each :: "jstr list \<Rightarrow> jstr \<Rightarrow> gate \<Rightarrow> gate \<times> gate_effect list" where
  "leave_each [] reason g = (g, [])"
| "leave_each (a # rest) reason g =
     (let first = (case map_of (gt_held g) a of None \<Rightarrow> False | Some h \<Rightarrow> hc_left_reason h = None);
          (g1, es) = (if first then (mark_left a reason g, [LeaveStarted a reason]) else (g, []));
          (g2, more) = leave_each rest reason g1
      in (g2, es @ more))"

definition withdrawByClient :: "jstr \<Rightarrow> jstr \<Rightarrow> gate \<Rightarrow> gate \<times> gate_effect list" where
  "withdrawByClient key reason g = leave_each (held_under key g) reason g"

definition onClientCancelled :: "gate_env \<Rightarrow> jstr \<Rightarrow> departure \<Rightarrow> gate \<Rightarrow> gate \<times> gate_effect list" where
  "onClientCancelled env key dep g =
     (let (g1, es1) = cancelByClient key g;
          (g2, es2) = departed env key dep g1;
          (g3, es3) = withdrawByClient key (dp_reason dep) g2
      in (g3, es1 @ es2 @ es3))"

definition announce :: "gate_env \<Rightarrow> jstr \<Rightarrow> departure \<Rightarrow> gate \<Rightarrow> nat option \<times> gate \<times> gate_effect list" where
  "announce env key dep g =
     (let pending = map_of (gt_verdicts g) key;
          g1 = (if pending = None then g else g\<lparr>gt_cancelled := AList.update key dep (gt_cancelled g)\<rparr>)
      in (pending, onClientCancelled env key dep g1))"

definition gateCancel :: "gate_env \<Rightarrow> jstr \<Rightarrow> verdict gproc" where
  "gateCancel env raw =
     (case parseCancelledRequestId env raw of
        IdNull \<Rightarrow> ret Forward
      | i \<Rightarrow>
          and_then (acting (announce env (id_key env i)
              \<lparr>dp_reason = cleanWithdrawReason env (parseCancelledReason env raw), dp_kind = CancelDeparture\<rparr>))
            (\<lambda>pending. case pending of None \<Rightarrow> ret Forward
             | Some n \<Rightarrow> await (AwaitVerdict n) (\<lambda>r.
                 case r of VerdictReply v \<Rightarrow> ret (if v = Forward then Forward else Drop) | _ \<Rightarrow> ret Forward)))"

definition abandon :: "gate_env \<Rightarrow> jstr \<Rightarrow> jstr \<Rightarrow> gate \<Rightarrow> gate \<times> gate_effect list" where
  "abandon env key reason g = snd (announce env key \<lparr>dp_reason = reason, dp_kind = AbandonDeparture\<rparr> g)"

section \<open>Methods that need a grant\<close>

definition max_tracked_list_ids :: nat where "max_tracked_list_ids = 65536"
definition method_list_overflow_rule :: jstr where "method_list_overflow_rule = js ''method-list-tracking-overflow''"
definition max_journaled_removed_subjects :: nat where "max_journaled_removed_subjects = 20"
definition list_filtered_rule_prefix :: jstr where "list_filtered_rule_prefix = js ''agent: grant-filtered''"
definition method_not_granted_rule_prefix :: jstr where "method_not_granted_rule_prefix = js ''agent: no resources/prompts grant''"
definition method_ungrantable_rule_prefix :: jstr where "method_ungrantable_rule_prefix = js ''agent: method not grantable''"

definition non_grantable_methods :: "jstr list" where
  "non_grantable_methods = [js ''resources/'', js ''prompts/'', js ''completion/complete'']"

definition isNonGrantableMethod :: "jstr \<Rightarrow> bool" where
  "isNonGrantableMethod m \<longleftrightarrow>
     list_ex (\<lambda>entry. if suffix (js ''/'') entry then prefix entry m else m = entry) non_grantable_methods"

definition agent_grants :: "gate_env \<Rightarrow> method_grants option" where
  "agent_grants env = map_option (\<lambda>a. as_methods (ga_scope a)) (ge_agent env)"

definition list_method :: "list_kind \<Rightarrow> jstr" where
  "list_method kind = list_kind_str kind @ js ''/list''"

definition methodDecisionInfo :: "gate_env \<Rightarrow> jstr \<Rightarrow> journal_outcome \<Rightarrow> decided_method \<Rightarrow> decision_info option" where
  "methodDecisionInfo env m out decided =
     map_option (\<lambda>h. decisionInfoOf \<lparr>fa_server = ge_server env, fa_tool = m, fa_class = dm_class decided,
       fa_state = Unknown, fa_args_hash = h\<rparr> out (dm_rule decided) no_extras) (argsHashOf env (dm_params decided))"

definition writeMethod :: "gate_env \<Rightarrow> jstr \<Rightarrow> journal_outcome \<Rightarrow> decided_method \<Rightarrow> unit gproc" where
  "writeMethod env m out decided =
     (case methodDecisionInfo env m out decided of None \<Rightarrow> throw
      | Some info \<Rightarrow> writeDecision env info (dm_params decided) None)"

text \<open>The frame is a request with its id, or a notification, which has none to answer.\<close>

definition answer_frame :: "gate_env \<Rightarrow> rpc_id option \<Rightarrow> (rpc_id \<Rightarrow> json) \<Rightarrow> unit gproc" where
  "answer_frame env frame_id build = (case frame_id of None \<Rightarrow> ret () | Some i \<Rightarrow> answerLocally env i build)"

definition denyNonGrantableMethod :: "gate_env \<Rightarrow> rpc_id option \<Rightarrow> jstr \<Rightarrow> fallback_reason \<Rightarrow> verdict gproc" where
  "denyNonGrantableMethod env frame_id m reason =
     (let granted = (reason = NoGrant);
          rule = (if granted then method_not_granted_rule_prefix else method_ungrantable_rule_prefix) @ js '': '' @ m;
          info = \<lparr>md_method = m, md_server = ge_server env, md_rule = rule\<rparr>
      in then_do
        (catching
          (then_do (writeDecision env (decisionInfoOf (unsafe_facts env m) ODeny rule no_extras) None None)
            (then_do (settleJournal env)
              (answer_frame env frame_id (\<lambda>i. if granted then methodNotGrantedError i info else methodNotGrantableError i info))))
          (emit [ReportError]))
        (ret Drop))"

definition failClosedOnJournalError :: "gate_env \<Rightarrow> rpc_id option \<Rightarrow> jstr \<Rightarrow> verdict gproc" where
  "failClosedOnJournalError env frame_id m =
     then_do (emit [ReportError])
      (then_do
        (catching (answer_frame env frame_id (\<lambda>i. denialBytesFor i m (ge_server env) gate_error_rule None)) (emit [ReportError]))
        (ret Drop))"

definition denyFrame :: "gate_env \<Rightarrow> rpc_id option \<Rightarrow> jstr \<Rightarrow> decided_method \<Rightarrow> verdict gproc" where
  "denyFrame env frame_id m decided =
     then_do
       (catching
         (then_do (writeMethod env m ODeny decided)
           (then_do (settleJournal env)
             (answer_frame env frame_id (\<lambda>i. methodDeniedError i \<lparr>md_method = m, md_server = ge_server env, md_rule = dm_rule decided\<rparr>))))
         (emit [ReportError]))
       (ret Drop)"

definition overflow_journal :: "gate_env \<Rightarrow> jstr \<Rightarrow> jstr \<Rightarrow> jstr list \<Rightarrow> gate \<Rightarrow> gate_effect list" where
  "overflow_journal env rule name evicted g =
     map (\<lambda>e. Journal (bookkeepingDecisionInfo env rule name (JStr e)) None (snapshot env g)) evicted"

definition track_list :: "gate_env \<Rightarrow> list_kind \<Rightarrow> jstr \<Rightarrow> gate \<Rightarrow> gate \<times> gate_effect list" where
  "track_list env kind key g =
     (let old = (if kind = ResourcesList then gt_resource_lists g else gt_prompt_lists g);
          (ids, evicted) = bounded_add max_tracked_list_ids key old;
          es = overflow_journal env method_list_overflow_rule (list_method kind) evicted g
      in (if kind = ResourcesList then g\<lparr>gt_resource_lists := ids\<rparr> else g\<lparr>gt_prompt_lists := ids\<rparr>, es))"

definition gateFrame :: "gate_env \<Rightarrow> rpc_id option \<Rightarrow> jstr \<Rightarrow> jstr \<Rightarrow> verdict gproc" where
  "gateFrame env frame_id m raw =
     (case decideMethodGrant (ge_parse env) m raw (agent_grants env) of
        MethodFallback reason \<Rightarrow> denyNonGrantableMethod env frame_id m reason
      | MethodDeny decided \<Rightarrow> denyFrame env frame_id m decided
      | MethodForward decided l \<Rightarrow>
          try_with (then_do (writeMethod env m OAllow decided) (settleJournal env))
            (\<lambda>_. then_do
               (case (l, frame_id) of
                  (Some kind, Some i) \<Rightarrow> if i = IdNull then ret () else act (track_list env kind (id_key env i))
                | _ \<Rightarrow> ret ())
               (ret Forward))
            (failClosedOnJournalError env frame_id m))"

section \<open>Messages of the client\<close>

definition denyUnsafeClientFrame :: "gate_env \<Rightarrow> jstr \<Rightarrow> rpc_id \<Rightarrow> verdict gproc" where
  "denyUnsafeClientFrame env rule i =
     then_do
       (catching
         (then_do (writeDecision env (unsafeClientFrameDecision env rule) None None)
           (then_do (settleJournal env)
             (answerLocally env i (\<lambda>i. denialBytesFor i unparseable_tool_name (ge_server env) rule None))))
         (emit [ReportError]))
       (ret Drop)"

definition gateToolsCallFrame :: "nat \<Rightarrow> gate_env \<Rightarrow> classified \<Rightarrow> jstr \<Rightarrow> verdict gproc" where
  "gateToolsCallFrame n env msg raw =
     (case msg of
        Request i m r \<Rightarrow>
          (case parseToolCall (ge_parse env) msg of
             None \<Rightarrow> denyUnsafeClientFrame env malformed_tools_call_rule i
           | Some (j, c) \<Rightarrow> (let call = \<lparr>gc_id = j, gc_call = c\<rparr> in recordVerdict env j (gated_call n env call)))
      | _ \<Rightarrow>
          (case parseIdlessToolCall env raw of
             None \<Rightarrow> denyUnsafeClientFrame env malformed_tools_call_rule IdNull
           | Some call \<Rightarrow> gated_call n env call))"

definition track_tools_list :: "gate_env \<Rightarrow> rpc_id \<Rightarrow> gate \<Rightarrow> gate \<times> gate_effect list" where
  "track_tools_list env i g =
     (let (ids, evicted) = bounded_add max_tracked_list_ids (id_key env i) (gt_tools_lists g)
      in (g\<lparr>gt_tools_lists := ids\<rparr>, overflow_journal env tools_list_overflow_rule tools_list_method evicted g))"

text \<open>The confirmer sees its own answers, and the client's \<open>initialize\<close>.\<close>

definition confirmer_event :: "gate_env \<Rightarrow> (int \<Rightarrow> confirm_event) \<Rightarrow> gate \<Rightarrow> gate \<times> gate_effect list" where
  "confirmer_event env ev g =
     (let (c, es) = confirm_step (ge_parse env) (ge_confirm_prefix env) (gt_confirmer g) (ev (gt_now g))
      in (g\<lparr>gt_confirmer := c\<rparr>, map Dialog es))"

definition response_id :: "classified \<Rightarrow> rpc_id option" where
  "response_id msg = (case msg of Success i r \<Rightarrow> Some i | Failure i c e r \<Rightarrow> Some i | _ \<Rightarrow> None)"

definition takes_response :: "gate_env \<Rightarrow> rpc_id \<Rightarrow> jstr \<Rightarrow> gate \<Rightarrow> bool" where
  "takes_response env i raw g =
     (Handled True \<in> set (snd (takeResponse (ge_parse env) (ge_confirm_prefix env) i raw (gt_now g) (gt_confirmer g))))"

definition gateClientMessage :: "nat \<Rightarrow> gate_env \<Rightarrow> jstr \<Rightarrow> verdict gproc" where
  "gateClientMessage n env text =
     (let msg = classify (ge_parse env) text in
      case msg of
        Request i m raw \<Rightarrow>
          if m = tools_call_method then gateToolsCallFrame n env msg text
          else if ge_agent env \<noteq> None \<and> isNonGrantableMethod m then gateFrame env (Some i) m raw
          else then_do (if ge_confirms env \<and> m = initialize_method
              then act (confirmer_event env (\<lambda>now. ObserveInitialize text)) else ret ())
            (then_do (if isToolsListRequest msg then act (track_tools_list env i) else ret ()) (ret Forward))
      | Notification m raw \<Rightarrow>
          if m = tools_call_method then gateToolsCallFrame n env msg text
          else if ge_agent env \<noteq> None \<and> isNonGrantableMethod m then gateFrame env None m raw
          else if m = js ''notifications/cancelled'' then gateCancel env raw else ret Forward
      | Invalid raw r \<Rightarrow> denyUnsafeClientFrame env unparseable_client_frame_rule (recoverScalarId env text)
      | _ \<Rightarrow>
          reading (\<lambda>g. case response_id msg of None \<Rightarrow> ret Forward
            | Some i \<Rightarrow>
                if ge_confirms env
                then then_do (act (confirmer_event env (ClientResponse i (raw_of msg))))
                  (ret (if takes_response env i (raw_of msg) g then Drop else Forward))
                else ret Forward))"

section \<open>Messages of the server\<close>

definition untracked_catalog_rule :: jstr where "untracked_catalog_rule = js ''toolsList.untracked-grant-filtered''"

definition takePendingList :: "gate_env \<Rightarrow> jstr \<Rightarrow> gate \<Rightarrow> list_kind option \<times> gate" where
  "takePendingList env key g =
     (if agent_grants env = None then (None, g)
      else if key \<in> set (gt_resource_lists g)
      then (Some ResourcesList, g\<lparr>gt_resource_lists := snd (bounded_delete key (gt_resource_lists g))\<rparr>)
      else if key \<in> set (gt_prompt_lists g)
      then (Some PromptsList, g\<lparr>gt_prompt_lists := snd (bounded_delete key (gt_prompt_lists g))\<rparr>)
      else (None, g))"

definition capRemovedSubjects :: "jstr list \<Rightarrow> jstr list" where
  "capRemovedSubjects removed =
     (if length removed \<le> max_journaled_removed_subjects then removed
      else take max_journaled_removed_subjects removed
        @ [js ''+'' @ decimal (length removed - max_journaled_removed_subjects) @ js '' more''])"

definition filterListResponse :: "gate_env \<Rightarrow> jstr \<Rightarrow> list_kind \<Rightarrow> verdict gproc" where
  "filterListResponse env raw kind =
     (case agent_grants env of None \<Rightarrow> ret Forward
      | Some grants \<Rightarrow>
          (case filterMethodListResult (ge_parse env) (ge_num env) raw kind (listItemPredicate grants kind) of
             None \<Rightarrow> ret Forward
           | Some f \<Rightarrow>
               if fm_removed f = [] \<and> fm_unreadable f = 0 then ret Forward
               else (let removed = names_json (capRemovedSubjects (fm_removed f)) in
                 try_with
                   (then_do (writeDecision env (bookkeepingDecisionInfo env (list_filtered_rule_prefix @ js '': '' @ list_method kind)
                        (list_method kind) removed)
                      (Some (JObj [(js ''removed'', removed), (js ''removedCount'', JNum (double_of_int (int (length (fm_removed f))))),
                        (js ''droppedUnreadable'', JNum (double_of_int (int (fm_unreadable f))))])) None)
                     (settleJournal env))
                   (\<lambda>_. ret (Emit (fm_serialized f)))
                   (then_do (emit [ReportError]) (ret Drop)))))"

definition filterUntrackedCatalog :: "gate_env \<Rightarrow> jstr \<Rightarrow> verdict gproc" where
  "filterUntrackedCatalog env raw =
     (case granted_tool env of None \<Rightarrow> ret Forward
      | Some granted \<Rightarrow>
          (case filterToolsListResult (ge_parse env) (ge_num env) raw (\<lambda>t. True) (Some granted) of
             None \<Rightarrow> ret Forward
           | Some f \<Rightarrow>
               if ft_removed f = [] then ret Forward
               else then_do (writeDecision env (bookkeepingDecisionInfo env untracked_catalog_rule tools_list_method (names_json (ft_removed f)))
                     (Some (JObj [(js ''removed'', names_json (ft_removed f))])) None)
                 (then_do (settleJournal env) (ret (Emit (ft_line f))))))"

definition note_duplicate :: "gate_env \<Rightarrow> rpc_id \<Rightarrow> jstr \<Rightarrow> gate \<Rightarrow> gate_effect list" where
  "note_duplicate env i key g =
     (if isAnswered (gt_guard g) key
      then [Journal (bookkeepingDecisionInfo env duplicate_response_rule response_tool_name (id_json i))
        (Some (JObj [(js ''rpcId'', id_json i)])) (snapshot env g)]
      else [])"

definition gateServerMessage :: "gate_env \<Rightarrow> jstr \<Rightarrow> verdict gproc" where
  "gateServerMessage env text =
     (let msg = classify (ge_parse env) text in
      case response_id msg of None \<Rightarrow> ret Forward
      | Some i \<Rightarrow>
          (let key = id_key env i in
           reading (\<lambda>g.
             if key \<in> set (gt_tools_lists g)
             then then_do (modify (\<lambda>g. g\<lparr>gt_tools_lists := snd (bounded_delete key (gt_tools_lists g))\<rparr>)) (handleResponse env msg)
             else and_then (acting (\<lambda>g. case takePendingList env key g of (l, g1) \<Rightarrow> (l, g1, [])))
               (\<lambda>tracked. case tracked of Some kind \<Rightarrow> filterListResponse env (raw_of msg) kind
                | None \<Rightarrow> then_do (act (observeAnswer env key (raw_of msg)))
                    (then_do (act (\<lambda>g. (g, note_duplicate env i key g))) (filterUntrackedCatalog env (raw_of msg)))))))"

section \<open>The end of the session\<close>

text \<open>\<open>agentLeft\<close>, up to the waits of the withdrawals it starts.\<close>

definition withdrawAll :: "gate \<Rightarrow> gate \<times> gate_effect list" where
  "withdrawAll g = leave_each (map fst (gt_held g)) withdraw_reason_disconnected (g\<lparr>gt_closed := True\<rparr>)"

definition agentLeft :: "gate_env \<Rightarrow> gate \<Rightarrow> gate \<times> gate_effect list" where
  "agentLeft env g =
     (let (g1, es1) = delivery_agentLeft env g;
          (g2, es2) = (if ge_confirms env then confirmer_event env WithdrawAllAsked g1 else (g1, []));
          (g3, es3) = withdrawAll g2
      in (g3, es1 @ es2 @ es3))"

end
