(* ===== verification/Gate_Router_Safety.thy ===== *)
theory Gate_Router_Safety
  imports Gate_Router Gate_Safety
begin

text \<open>
  What a frame of the client must have gone through when the gate forwards it, whatever the frame is; and
  what is left of a list the server answers with.
\<close>

section \<open>Verdicts that are recorded\<close>

lemma wp_task_pending: "is_pending t \<Longrightarrow> wp_task Q t h s = wp_task Q t h s'"
  by (cases t) simp_all

lemma wp_recordVerdict:
  assumes "wp (\<lambda>h s out. P h out) p h s"
  shows "wp (\<lambda>h s out. P h out) (recordVerdict env i p) h s"
proof -
  obtain s1 es t where p: "p s = (s1, es, t)" by (cases "p s") auto
  have t: "wp_task (\<lambda>h s out. P h out) t (h @ map Did es) s1" using assms by (simp add: wp_def p)
  show ?thesis
  proof (cases "i = IdNull \<or> \<not> is_pending t")
    case True
    then show ?thesis using t by (auto simp: wp_def recordVerdict_def p)
  next
    case False
    define settle :: "unit gproc" where "settle = modify (drop_verdict (id_key env i) (gt_next s1))"
    define k where "k = finish_with (\<lambda>v. then_do settle (ret v)) (then_do settle throw) t"
    have rec: "recordVerdict env i p s = after es (k (note_verdict (id_key env i) s1))"
      using False by (simp add: recordVerdict_def p k_def settle_def Let_def)
    have "wp_task (\<lambda>h s out. P h out) t (h @ map Did es) (note_verdict (id_key env i) s1)"
      using t wp_task_pending False by metis
    then have "wp (\<lambda>h s out. P h out) k (h @ map Did es) (note_verdict (id_key env i) s1)"
      unfolding k_def wp_finish_with
      by (rule wp_task_mono) (auto simp: wp_simps settle_def split: option.split)
    then show ?thesis by (simp add: wp_def rec after_def split_beta)
  qed
qed

lemma exec_settling:
  "exec (finish_with (\<lambda>v. then_do (modify u) (ret v)) (then_do (modify u) throw) t) s rs = exec_task t rs"
proof (induction t arbitrary: s rs rule: task_induct)
  case (Ask q k)
  show ?case
  proof (cases rs)
    case (Cons x rest)
    obtain r s1 where x: "x = (r, s1)" by (cases x)
    have "exec (finish_with (\<lambda>v. then_do (modify u) (ret v)) (then_do (modify u) throw) (snd (snd (k r s1)))) (fst (k r s1)) rest =
        exec_task (snd (snd (k r s1))) rest" by (rule Ask.IH)
    then show ?thesis by (simp add: Cons x exec_def after_def split_beta prod_eq_iff)
  qed (simp add: exec_def)
qed (simp_all add: then_do_def and_then_def exec_simps)

lemma exec_recordVerdict: "exec (recordVerdict env i p) s rs = exec p s rs"
proof -
  obtain s1 es t where p: "p s = (s1, es, t)" by (cases "p s") auto
  show ?thesis
  proof (cases "i = IdNull \<or> \<not> is_pending t")
    case True
    then show ?thesis by (auto simp: exec_def recordVerdict_def p)
  next
    case False
    then show ?thesis
      using exec_settling[of "drop_verdict (id_key env i) (gt_next s1)" t "note_verdict (id_key env i) s1" rs]
      by (simp add: exec_def recordVerdict_def p after_def Let_def split_beta prod_eq_iff)
  qed
qed

section \<open>Frames of the client\<close>

definition method_allowed_in :: "gate_env \<Rightarrow> jstr \<Rightarrow> jstr \<Rightarrow> (gate, gate_effect, gate_ask, gate_reply) moment list \<Rightarrow> bool" where
  "method_allowed_in env m raw h \<longleftrightarrow>
     (\<exists>d l info pv. decideMethodGrant (ge_parse env) m raw (agent_grants env) = MethodForward d l
        \<and> methodDecisionInfo env m OAllow d = Some info \<and> Did (Journal info (dm_params d) pv) \<in> set h)"

definition call_sound_in :: "gate_env \<Rightarrow> gate_call \<Rightarrow> gate \<Rightarrow> (gate, gate_effect, gate_ask, gate_reply) moment list \<Rightarrow> bool" where
  "call_sound_in env call g h \<longleftrightarrow> decided_in env call g h \<and> confirmed_in env call g h"

definition frame_sound_in :: "gate_env \<Rightarrow> jstr \<Rightarrow> gate \<Rightarrow> (gate, gate_effect, gate_ask, gate_reply) moment list \<Rightarrow> bool" where
  "frame_sound_in env text g h \<longleftrightarrow>
     (let msg = classify (ge_parse env) text in
      case msg of
        Request i m raw \<Rightarrow>
          if m = tools_call_method
          then (case parseToolCall (ge_parse env) msg of None \<Rightarrow> False
            | Some (j, c) \<Rightarrow> call_sound_in env \<lparr>gc_id = j, gc_call = c\<rparr> g h)
          else if ge_agent env \<noteq> None \<and> isNonGrantableMethod m then method_allowed_in env m raw h else True
      | Notification m raw \<Rightarrow>
          if m = tools_call_method
          then (case parseIdlessToolCall env text of None \<Rightarrow> False | Some call \<Rightarrow> call_sound_in env call g h)
          else if ge_agent env \<noteq> None \<and> isNonGrantableMethod m then method_allowed_in env m raw h else True
      | Invalid raw r \<Rightarrow> False
      | _ \<Rightarrow> True)"

lemma wp_gated_call: "wp (\<lambda>h s out. out = Some Forward \<longrightarrow> call_sound_in env call g h) (gated_call n env call) [] g"
  using holds_gated_call[of g n env call "[]" g] seen_start
  by (auto simp: holds_def sound_in_def call_sound_in_def elim!: wp_mono)

lemma wp_gateFrame:
  "wp (\<lambda>h s out. out = Some Forward \<longrightarrow> method_allowed_in env m raw h) (gateFrame env frame_id m raw) [] g"
proof (cases "decideMethodGrant (ge_parse env) m raw (agent_grants env)")
  case (MethodFallback r)
  then show ?thesis
    by (auto simp: gateFrame_def denyNonGrantableMethod_def answer_frame_def Let_def wp_simps split: option.split)
next
  case (MethodDeny d)
  then show ?thesis
    by (auto simp: gateFrame_def denyFrame_def answer_frame_def writeMethod_def Let_def wp_simps split: option.split)
next
  case (MethodForward d l)
  have written: "method_allowed_in env m raw (h @ Did (Journal info (dm_params d) pv) # h')"
    if "methodDecisionInfo env m OAllow d = Some info" for info pv h h'
    unfolding method_allowed_in_def using MethodForward that by auto
  show ?thesis
    by (cases l; cases frame_id)
      (auto simp: gateFrame_def MethodForward failClosedOnJournalError_def answer_frame_def writeMethod_def wp_simps
        written[of _ "[]", simplified] split: option.split)
qed

lemma wp_deny_frame: "wp (\<lambda>h s out. out = Some Forward \<longrightarrow> False) (denyUnsafeClientFrame env rule i) h s"
  by (auto simp: denyUnsafeClientFrame_def wp_simps)

lemma wp_gateClientMessage:
  "wp (\<lambda>h s out. out = Some Forward \<longrightarrow> frame_sound_in env text g h) (gateClientMessage n env text) [] g"
  (is "wp ?Q _ [] g")
proof -
  have deny: "wp ?Q (denyUnsafeClientFrame env rule i) [] g" for rule i
    using wp_deny_frame by (rule wp_mono) simp
  show ?thesis
  proof (cases "classify (ge_parse env) text")
    case (Request i m raw)
    show ?thesis
    proof (cases "m = tools_call_method")
      case True
      have "wp ?Q (recordVerdict env j (gated_call n env \<lparr>gc_id = j, gc_call = c\<rparr>)) [] g"
        if "parseToolCall (ge_parse env) (Request i m raw) = Some (j, c)" for j c
        by (rule wp_recordVerdict, rule wp_mono[OF wp_gated_call]) (use that True in \<open>simp add: frame_sound_in_def Request\<close>)
      then show ?thesis
        using deny by (simp add: gateClientMessage_def Request True gateToolsCallFrame_def Let_def split: option.split)
    next
      case False
      have "wp ?Q (gateFrame env (Some i) m raw) [] g" if "ge_agent env \<noteq> None" "isNonGrantableMethod m"
        by (rule wp_mono[OF wp_gateFrame]) (use that False in \<open>simp add: frame_sound_in_def Request\<close>)
      moreover have "frame_sound_in env text g h" if "\<not> (ge_agent env \<noteq> None \<and> isNonGrantableMethod m)" for h
        using that False by (auto simp: frame_sound_in_def Request)
      ultimately show ?thesis
        using False by (auto simp: gateClientMessage_def Request Let_def wp_simps)
    qed
  next
    case (Notification m raw)
    show ?thesis
    proof (cases "m = tools_call_method")
      case True
      have "wp ?Q (gated_call n env call) [] g" if "parseIdlessToolCall env text = Some call" for call
        by (rule wp_mono[OF wp_gated_call]) (use that True in \<open>simp add: frame_sound_in_def Notification\<close>)
      then show ?thesis
        using deny by (simp add: gateClientMessage_def Notification True gateToolsCallFrame_def Let_def split: option.split)
    next
      case False
      have "wp ?Q (gateFrame env None m raw) [] g" if "ge_agent env \<noteq> None" "isNonGrantableMethod m"
        by (rule wp_mono[OF wp_gateFrame]) (use that False in \<open>simp add: frame_sound_in_def Notification\<close>)
      moreover have *: "frame_sound_in env text g h" if "\<not> (ge_agent env \<noteq> None \<and> isNonGrantableMethod m)" for h
        using that False by (auto simp: frame_sound_in_def Notification)
      moreover have "wp ?Q (gateCancel env raw) [] g" if "\<not> (ge_agent env \<noteq> None \<and> isNonGrantableMethod m)"
        by (rule wp_mono[OF wp_True]) (simp add: *[OF that])
      ultimately show ?thesis
        using False by (auto simp: gateClientMessage_def Notification Let_def wp_simps)
    qed
  next
    case (Invalid raw r)
    show ?thesis using deny by (simp add: gateClientMessage_def Invalid)
  next
    case (Success i raw)
    show ?thesis by (rule wp_mono[OF wp_True]) (simp add: frame_sound_in_def Success)
  next
    case (Failure i c e raw)
    show ?thesis by (rule wp_mono[OF wp_True]) (simp add: frame_sound_in_def Failure)
  qed
qed

text \<open>C1. What a client sends reaches the server only for a reason. If the gate's verdict on a frame of the
  client is to forward it, then the frame is a JSON-RPC message; if it is a \<open>tools/call\<close>, with or without
  an id, it names its tool, and the policy decided that very call in the client's favour, with the journal
  entry, the approval and the confirmation it asked for; and if it is a method of the resources, prompts
  or completion families and the session is an agent's, the agent's grants cover what it asks for, and the
  decision to allow it is in the journal.\<close>

theorem client_frame_forwarded:
  assumes "exec (gateClientMessage n env text) g replies = (tr, Finished Forward)"
  shows "frame_sound_in env text g tr"
  using exec_wp[OF wp_gateClientMessage assms] by simp

lemma sample_classified: "classify (ge_parse sample_env) [] = Request (IdStr (js ''1'')) tools_call_method []"
  by (simp add: sample_env_def) code_simp

lemma sample_parsed: "parseToolCall (ge_parse sample_env) (Request (IdStr (js ''1'')) tools_call_method []) = Some (gc_id sample_call, gc_call sample_call)"
  by (simp add: sample_env_def) code_simp

lemma sample_eq: "\<lparr>gc_id = gc_id sample_call, gc_call = gc_call sample_call\<rparr> = sample_call"
  by (simp add: sample_call_def)

theorem client_frame_forwarded_witness:
  "\<exists>tr. exec (gateClientMessage (Suc 0) sample_env []) sample_gate sample_replies = (tr, Finished Forward)
     \<and> frame_sound_in sample_env [] sample_gate tr"
proof -
  have "exec (gateClientMessage (Suc 0) sample_env []) sample_gate sample_replies =
      exec (gated_call (Suc 0) sample_env \<lparr>gc_id = gc_id sample_call, gc_call = gc_call sample_call\<rparr>) sample_gate sample_replies"
    by (simp add: gateClientMessage_def sample_classified gateToolsCallFrame_def sample_parsed exec_recordVerdict)
  then have "snd (exec (gateClientMessage (Suc 0) sample_env []) sample_gate sample_replies) = Finished Forward"
    unfolding sample_eq by (simp add: sample_run)
  then show ?thesis using client_frame_forwarded by (metis prod.collapse)
qed

end
