(* ===== verification/Journal_Db.thy ===== *)
theory Journal_Db
  imports Canonical_Hash Protocol
begin

text \<open>
  The journal's database (\<open>journal/db.ts\<close>) with the chain of hashes over its rows (\<open>journal/chain.ts\<close>),
  the signed anchors (\<open>journal/signing.ts\<close>) and the import of one legacy session
  (\<open>journal/import.ts\<close>).

  A table is the list of its rows in the order of its primary key, which is the order SQLite keeps them
  in: \<open>ORDER BY seq LIMIT 1\<close> is the first row of the list and \<open>ORDER BY seq DESC LIMIT 1\<close> the last one.
  \<open>AUTOINCREMENT\<close> remembers the largest key ever given out in \<open>jd_last\<close>. A transaction is a function of
  the whole database that is rolled back when it throws. SQLite's comparison of timestamps, SHA-256 and
  Ed25519 are fields of the environment.
\<close>

section \<open>Tables\<close>

record journal_row =
  jr_session :: jstr
  jr_id :: jstr
  jr_ts :: jstr
  jr_direction :: jstr
  jr_kind :: jstr
  jr_method :: "jstr option"
  jr_doc :: jstr

record chain_row =
  cr_seq :: nat
  cr_record :: journal_row
  cr_prev :: "jstr option"
  cr_hash :: "jstr option"

record marker_signature =
  ms_version :: nat
  ms_signed_at :: jstr
  ms_fingerprint :: jstr
  ms_signature :: jstr

record prune_marker =
  pm_through :: nat
  pm_head :: "jstr option"
  pm_at :: jstr
  pm_deleted :: nat
  pm_signature :: "marker_signature option"

record journal_db =
  jd_rows :: "chain_row list"
  jd_last :: nat
  jd_markers :: "prune_marker list"
  jd_imported :: "jstr list"

text \<open>The rows of the journal and of the other tables, as one \<open>SELECT\<close> each finds them.\<close>

definition first_opt :: "'a list \<Rightarrow> 'a option" where
  "first_opt xs = (case xs of [] \<Rightarrow> None | x # _ \<Rightarrow> Some x)"

definition last_opt :: "'a list \<Rightarrow> 'a option" where
  "last_opt xs = first_opt (rev xs)"

lemma first_opt_simps [simp]: "first_opt [] = None" "first_opt (x # xs) = Some x"
  by (simp_all add: first_opt_def)

lemma last_opt_simps [simp]: "last_opt [] = None" "last_opt [x] = Some x" "last_opt (xs @ [x]) = Some x"
  by (simp_all add: last_opt_def)

lemma last_opt_if: "last_opt xs = (if xs = [] then None else Some (last xs))"
  by (cases xs rule: rev_cases) simp_all

lemma last_opt_append: "last_opt (xs @ ys) = (if ys = [] then last_opt xs else last_opt ys)"
  by (cases ys rule: rev_cases) (simp_all add: last_opt_def)

lemma last_opt_None [simp]: "last_opt xs = None \<longleftrightarrow> xs = []"
  by (cases xs rule: rev_cases) simp_all

lemma last_opt_Some: "last_opt xs = Some x \<longleftrightarrow> xs \<noteq> [] \<and> x = last xs"
  by (cases xs rule: rev_cases) auto

section \<open>Links\<close>

definition genesis_prev_hash :: jstr where
  "genesis_prev_hash = []"

definition newline :: u16 where
  "newline = 10"

definition linkHashOf :: "(jstr \<Rightarrow> jstr) \<Rightarrow> jstr \<Rightarrow> jstr \<Rightarrow> jstr" where
  "linkHashOf sha prev doc = sha (prev @ [newline] @ sha doc)"

section \<open>Inserting\<close>

definition chainHeadOf :: "journal_db \<Rightarrow> jstr" where
  "chainHeadOf db =
     (case last_opt (List.map_filter cr_hash (jd_rows db)) of
        Some h \<Rightarrow> h
      | None \<Rightarrow>
          (case last_opt (List.map_filter pm_head (jd_markers db)) of
             Some h \<Rightarrow> h
           | None \<Rightarrow> genesis_prev_hash))"

text \<open>One \<open>INSERT\<close> under \<open>AUTOINCREMENT\<close>: a key larger than every key there is or ever was.\<close>

definition next_seq :: "journal_db \<Rightarrow> nat" where
  "next_seq db = Suc (foldr max (map cr_seq (jd_rows db)) (jd_last db))"

definition insert_row :: "journal_row \<Rightarrow> jstr \<Rightarrow> jstr \<Rightarrow> journal_db \<Rightarrow> journal_db" where
  "insert_row row prev h db =
     db\<lparr>jd_rows := jd_rows db @
           [\<lparr>cr_seq = next_seq db, cr_record = row, cr_prev = Some prev, cr_hash = Some h\<rparr>],
        jd_last := next_seq db\<rparr>"

fun insert_chained :: "(jstr \<Rightarrow> jstr) \<Rightarrow> jstr \<Rightarrow> journal_row list \<Rightarrow> journal_db \<Rightarrow> journal_db" where
  "insert_chained sha prev [] db = db"
| "insert_chained sha prev (row # rows) db =
     (let h = linkHashOf sha prev (jr_doc row)
      in insert_chained sha h rows (insert_row row prev h db))"

definition insertRecordRows :: "(jstr \<Rightarrow> jstr) \<Rightarrow> journal_row list \<Rightarrow> journal_db \<Rightarrow> journal_db" where
  "insertRecordRows sha rows db =
     (if rows = [] then db else insert_chained sha (chainHeadOf db) rows db)"

text \<open>
  \<open>handle.transaction(fn)\<close> when the lock was obtained: \<open>fn\<close> throws (\<^const>\<open>None\<close>) and everything it wrote is
  rolled back, or what it left is committed.
\<close>

definition transaction :: "(journal_db \<Rightarrow> ('a \<times> journal_db) option) \<Rightarrow> journal_db \<Rightarrow> 'a option \<times> journal_db" where
  "transaction f db = (case f db of None \<Rightarrow> (None, db) | Some (x, db') \<Rightarrow> (Some x, db'))"

section \<open>Importing a legacy session\<close>

datatype import_outcome = Imported nat | AlreadyMigrated | Refused

definition markerPresent :: "journal_db \<Rightarrow> jstr \<Rightarrow> bool" where
  "markerPresent db sid \<longleftrightarrow> sid \<in> set (jd_imported db)"

definition writeMarker :: "jstr \<Rightarrow> journal_db \<Rightarrow> journal_db" where
  "writeMarker sid db = (if sid \<in> set (jd_imported db) then db else db\<lparr>jd_imported := jd_imported db @ [sid]\<rparr>)"

definition sessionHasRows :: "journal_db \<Rightarrow> jstr \<Rightarrow> bool" where
  "sessionHasRows db sid \<longleftrightarrow> (\<exists>r \<in> set (jd_rows db). jr_session (cr_record r) = sid)"

definition commitBatch ::
  "(jstr \<Rightarrow> jstr) \<Rightarrow> jstr \<Rightarrow> journal_row list \<Rightarrow> bool \<Rightarrow> bool \<Rightarrow> journal_db \<Rightarrow> import_outcome option \<times> journal_db" where
  "commitBatch sha sid rows isFirst isFinal = transaction (\<lambda>db.
     if markerPresent db sid then Some (AlreadyMigrated, db)
     else if isFirst \<and> sessionHasRows db sid then Some (Refused, db)
     else
       (let db1 = (if rows \<noteq> [] then insertRecordRows sha rows db else db);
            db2 = (if isFinal then writeMarker sid db1 else db1)
        in Some (Imported (length rows), db2)))"

section \<open>Signed anchors\<close>

record journal_env =
  je_sha :: "jstr \<Rightarrow> jstr"
  je_ts_ge :: "jstr \<Rightarrow> jstr \<Rightarrow> bool"
  je_num :: "64 word \<Rightarrow> jstr"
  je_double :: "nat \<Rightarrow> 64 word"
  je_fingerprint :: "jstr \<Rightarrow> jstr option"
  je_sign :: "bytes \<Rightarrow> jstr \<Rightarrow> jstr option"
  je_verify :: "bytes \<Rightarrow> jstr \<Rightarrow> jstr \<Rightarrow> bool option"

text \<open>
  \<open>je_fingerprint\<close> is \<open>privateKeyFingerprint\<close>, \<open>je_sign\<close> the base64 text of \<open>crypto.sign\<close> and \<open>je_verify\<close>
  \<open>crypto.verify\<close> on the decoded text; each throws (\<^const>\<open>None\<close>) on a key it cannot read.
\<close>

record chain_head_anchor =
  ca_version :: nat
  ca_seq :: nat
  ca_hash :: jstr
  ca_signed_at :: jstr
  ca_fingerprint :: jstr

definition chain_head_anchor_format_version :: nat where
  "chain_head_anchor_format_version = 2"

definition anchor_object :: "journal_env \<Rightarrow> chain_head_anchor \<Rightarrow> json" where
  "anchor_object env a =
     JObj [(js ''formatVersion'', JNum (je_double env (ca_version a))), (js ''seq'', JNum (je_double env (ca_seq a))),
           (js ''recordHash'', JStr (ca_hash a)), (js ''signedAt'', JStr (ca_signed_at a)),
           (js ''keyFingerprint'', JStr (ca_fingerprint a))]"

definition canonicalChainHeadAnchorBytes :: "journal_env \<Rightarrow> chain_head_anchor \<Rightarrow> jstr option" where
  "canonicalChainHeadAnchorBytes env a = canonicalJson (je_num env) (anchor_object env a)"

text \<open>The anchor without its fingerprint comes in with an empty one.\<close>

definition signChainHeadAnchor ::
  "journal_env \<Rightarrow> jstr \<Rightarrow> chain_head_anchor \<Rightarrow> (chain_head_anchor \<times> jstr) option" where
  "signChainHeadAnchor env pem anchor =
     (case je_fingerprint env pem of
        None \<Rightarrow> None
      | Some fp \<Rightarrow>
          (let full = anchor\<lparr>ca_fingerprint := fp\<rparr>
           in case canonicalChainHeadAnchorBytes env full of
                None \<Rightarrow> None
              | Some text \<Rightarrow> map_option (\<lambda>sig. (full, sig)) (je_sign env (utf8_encode text) pem)))"

definition verifyChainHeadAnchorSignature ::
  "journal_env \<Rightarrow> jstr \<Rightarrow> chain_head_anchor \<Rightarrow> jstr \<Rightarrow> bool" where
  "verifyChainHeadAnchorSignature env pub anchor sig =
     (case canonicalChainHeadAnchorBytes env anchor of
        None \<Rightarrow> False
      | Some text \<Rightarrow> je_verify env (utf8_encode text) pub sig = Some True)"

end
