(* ===== verification/Journal_Chain.thy ===== *)
theory Journal_Chain
  imports Journal_Db
begin

text \<open>
  Pruning (\<open>journal/prune.ts\<close>) and the verification of the chain (\<open>journal/chain-verify.ts\<close>) on the
  tables of \<open>Journal_Db\<close>. A prune deletes a prefix of the rows and leaves a marker with the hash of the last
  one it deleted; the verification starts from the latest marker.
\<close>

section \<open>Pruning\<close>

record prune_plan =
  pp_through :: nat
  pp_head :: "jstr option"
  pp_deleted :: nat
  pp_first :: nat

record prune_input =
  pi_cutoff :: jstr
  pi_now :: jstr
  pi_key :: "jstr option"

record prune_outcome =
  po_deleted :: nat
  po_marker :: "prune_marker option"
  po_first_remaining :: "nat option"

definition prefixBoundaryOf :: "journal_env \<Rightarrow> journal_db \<Rightarrow> jstr \<Rightarrow> (nat \<times> jstr option) option" where
  "prefixBoundaryOf env db cutoff =
     map_option (\<lambda>r. (cr_seq r, cr_hash r))
       (case find (\<lambda>r. je_ts_ge env (jr_ts (cr_record r)) cutoff) (jd_rows db) of
          None \<Rightarrow> last_opt (jd_rows db)
        | Some kept \<Rightarrow> last_opt (filter (\<lambda>r. cr_seq r < cr_seq kept) (jd_rows db)))"

definition firstSeqOf :: "journal_db \<Rightarrow> nat option" where
  "firstSeqOf db = map_option cr_seq (first_opt (jd_rows db))"

definition count_prefix :: "journal_db \<Rightarrow> nat \<Rightarrow> nat" where
  "count_prefix db s = length (filter (\<lambda>r. cr_seq r \<le> s) (jd_rows db))"

definition delete_prefix :: "nat \<Rightarrow> journal_db \<Rightarrow> journal_db" where
  "delete_prefix s db = db\<lparr>jd_rows := filter (\<lambda>r. \<not> cr_seq r \<le> s) (jd_rows db)\<rparr>"

definition planPruneOlderThan :: "journal_env \<Rightarrow> journal_db \<Rightarrow> jstr \<Rightarrow> prune_plan option" where
  "planPruneOlderThan env db cutoff =
     (case prefixBoundaryOf env db cutoff of
        None \<Rightarrow> None
      | Some (s, h) \<Rightarrow>
          (case firstSeqOf db of
             None \<Rightarrow> None
           | Some f \<Rightarrow> Some \<lparr>pp_through = s, pp_head = h, pp_deleted = count_prefix db s, pp_first = f\<rparr>))"

text \<open>The marker; \<^const>\<open>None\<close> when signing throws.\<close>

definition markerFor :: "journal_env \<Rightarrow> nat \<times> jstr option \<Rightarrow> nat \<Rightarrow> prune_input \<Rightarrow> prune_marker option" where
  "markerFor env b deleted inp =
     (let base = \<lparr>pm_through = fst b, pm_head = snd b, pm_at = pi_now inp, pm_deleted = deleted,
                  pm_signature = None\<rparr>
      in case (pi_key inp, snd b) of
           (Some pem, Some h) \<Rightarrow>
             map_option (\<lambda>(a, sig). base\<lparr>pm_signature := Some
                 \<lparr>ms_version = ca_version a, ms_signed_at = ca_signed_at a, ms_fingerprint = ca_fingerprint a,
                  ms_signature = sig\<rparr>\<rparr>)
               (signChainHeadAnchor env pem
                  \<lparr>ca_version = chain_head_anchor_format_version, ca_seq = fst b, ca_hash = h,
                   ca_signed_at = pi_now inp, ca_fingerprint = []\<rparr>)
         | _ \<Rightarrow> Some base)"

text \<open>The \<open>INSERT\<close> of a marker, at the place of its key; a key that is taken makes SQLite throw.\<close>

definition insert_marker :: "prune_marker \<Rightarrow> journal_db \<Rightarrow> journal_db option" where
  "insert_marker m db =
     (if pm_through m \<in> pm_through ` set (jd_markers db) then None
      else Some (db\<lparr>jd_markers := insort_key pm_through m (jd_markers db)\<rparr>))"

definition pruneRecordsOlderThan ::
  "journal_env \<Rightarrow> prune_input \<Rightarrow> journal_db \<Rightarrow> prune_outcome option \<times> journal_db" where
  "pruneRecordsOlderThan env inp = transaction (\<lambda>db.
     case prefixBoundaryOf env db (pi_cutoff inp) of
       None \<Rightarrow> Some (\<lparr>po_deleted = 0, po_marker = None, po_first_remaining = firstSeqOf db\<rparr>, db)
     | Some b \<Rightarrow>
         (let n = count_prefix db (fst b); db1 = delete_prefix (fst b) db
          in case markerFor env b n inp of
               None \<Rightarrow> None
             | Some m \<Rightarrow>
                 map_option (\<lambda>db2. (\<lparr>po_deleted = n, po_marker = Some m, po_first_remaining = firstSeqOf db2\<rparr>, db2))
                   (insert_marker m db1)))"

definition latestPruneMarker :: "journal_db \<Rightarrow> prune_marker option" where
  "latestPruneMarker db = last_opt (jd_markers db)"

section \<open>Verification\<close>

datatype chain_break_reason = Modified | Gap

record chain_result =
  cv_total :: nat
  cv_unattested :: nat
  cv_unattested_through :: "nat option"
  cv_attested :: nat
  cv_intact_through :: "nat option"
  cv_break :: "(nat \<times> chain_break_reason) option"

definition resolveChainStartPrevHash :: "journal_db \<Rightarrow> jstr" where
  "resolveChainStartPrevHash db =
     (case Option.bind (latestPruneMarker db) pm_head of Some h \<Rightarrow> h | None \<Rightarrow> genesis_prev_hash)"

definition unattested :: "chain_row \<Rightarrow> bool" where
  "unattested r \<longleftrightarrow> cr_prev r = None \<and> cr_hash r = None"

fun verify_rows :: "(jstr \<Rightarrow> jstr) \<Rightarrow> bool \<Rightarrow> jstr \<Rightarrow> chain_row list \<Rightarrow> chain_result \<Rightarrow> chain_result" where
  "verify_rows sha started prev [] v = v"
| "verify_rows sha started prev (r # rs) v =
     (let v1 = v\<lparr>cv_total := cv_total v + 1\<rparr>
      in if \<not> started \<and> unattested r
         then verify_rows sha started prev rs
                (v1\<lparr>cv_unattested := cv_unattested v + 1, cv_unattested_through := Some (cr_seq r)\<rparr>)
         else if cr_prev r \<noteq> Some prev then v1\<lparr>cv_break := Some (cr_seq r, Gap)\<rparr>
         else
           (let expected = linkHashOf sha prev (jr_doc (cr_record r))
            in if cr_hash r \<noteq> Some expected then v1\<lparr>cv_break := Some (cr_seq r, Modified)\<rparr>
               else verify_rows sha True expected rs
                      (v1\<lparr>cv_intact_through := Some (cr_seq r), cv_attested := cv_attested v + 1\<rparr>)))"

definition verify_start :: chain_result where
  "verify_start = \<lparr>cv_total = 0, cv_unattested = 0, cv_unattested_through = None, cv_attested = 0,
     cv_intact_through = None, cv_break = None\<rparr>"

definition verifyChain :: "(jstr \<Rightarrow> jstr) \<Rightarrow> journal_db \<Rightarrow> chain_result" where
  "verifyChain sha db = verify_rows sha False (resolveChainStartPrevHash db) (jd_rows db) verify_start"

definition latestAttestedChainHead :: "journal_db \<Rightarrow> (nat \<times> jstr) option" where
  "latestAttestedChainHead db =
     map_option (\<lambda>r. (cr_seq r, case cr_hash r of Some h \<Rightarrow> h | None \<Rightarrow> []))
       (last_opt (filter (\<lambda>r. cr_hash r \<noteq> None) (jd_rows db)))"

record session_span =
  ss_session :: jstr
  ss_count :: nat
  ss_first :: nat
  ss_last :: nat

definition sessionChainSpan :: "journal_db \<Rightarrow> jstr \<Rightarrow> session_span option" where
  "sessionChainSpan db sid =
     (let seqs = map cr_seq (filter (\<lambda>r. jr_session (cr_record r) = sid) (jd_rows db))
      in if seqs = [] then None
         else Some \<lparr>ss_session = sid, ss_count = length seqs, ss_first = Min (set seqs), ss_last = Max (set seqs)\<rparr>)"

end
