(* ===== verification/Journal_Chain_Safety.thy ===== *)
theory Journal_Chain_Safety
  imports Journal_Chain
begin

text \<open>
  What the chain of hashes gives. The journals the program can reach from a legacy one verify without a
  break; a journal that verifies is determined by its start and its head, as far as the hash has no
  collision; a changed row and a removed row are reported where they are.
\<close>

section \<open>Chained rows\<close>

definition doc_of :: "chain_row \<Rightarrow> jstr" where
  "doc_of r = jr_doc (cr_record r)"

fun chained :: "(jstr \<Rightarrow> jstr) \<Rightarrow> jstr \<Rightarrow> chain_row list \<Rightarrow> bool" where
  "chained sha prev [] \<longleftrightarrow> True"
| "chained sha prev (r # rs) \<longleftrightarrow>
     cr_prev r = Some prev \<and> cr_hash r = Some (linkHashOf sha prev (doc_of r)) \<and>
     chained sha (linkHashOf sha prev (doc_of r)) rs"

definition chain_end :: "(jstr \<Rightarrow> jstr) \<Rightarrow> jstr \<Rightarrow> jstr list \<Rightarrow> jstr" where
  "chain_end sha prev docs = foldl (linkHashOf sha) prev docs"

lemma chain_end_simps [simp]:
  "chain_end sha prev [] = prev"
  "chain_end sha prev (d # ds) = chain_end sha (linkHashOf sha prev d) ds"
  "chain_end sha prev (ds @ es) = chain_end sha (chain_end sha prev ds) es"
  by (simp_all add: chain_end_def)

lemma chained_append [simp]:
  "chained sha prev (rs @ qs) \<longleftrightarrow> chained sha prev rs \<and> chained sha (chain_end sha prev (map doc_of rs)) qs"
  by (induction rs arbitrary: prev) auto

lemma chained_attested: "chained sha prev rs \<Longrightarrow> r \<in> set rs \<Longrightarrow> cr_prev r \<noteq> None \<and> cr_hash r \<noteq> None"
  by (induction rs arbitrary: prev) auto

lemma chained_head:
  "chained sha prev rs \<Longrightarrow>
   last_opt (List.map_filter cr_hash rs) = (if rs = [] then None else Some (chain_end sha prev (map doc_of rs)))"
proof (induction rs rule: rev_induct)
  case (snoc r rs)
  then show ?case by (auto simp: List.map_filter_def last_opt_append)
qed (simp add: List.map_filter_def)

text \<open>The rows before the chain, and the chain.\<close>

definition legacy_part :: "journal_db \<Rightarrow> chain_row list" where
  "legacy_part db = takeWhile unattested (jd_rows db)"

definition chained_part :: "journal_db \<Rightarrow> chain_row list" where
  "chained_part db = dropWhile unattested (jd_rows db)"

lemma parts: "jd_rows db = legacy_part db @ chained_part db"
  by (simp add: legacy_part_def chained_part_def)

lemma legacy_part_unattested: "r \<in> set (legacy_part db) \<Longrightarrow> cr_hash r = None"
  by (auto simp: legacy_part_def unattested_def dest: set_takeWhileD)

section \<open>The verification as a specification\<close>

lemma verify_started:
  "chained sha prev rs \<Longrightarrow>
   verify_rows sha True prev rs v =
     v\<lparr>cv_total := cv_total v + length rs, cv_attested := cv_attested v + length rs,
       cv_intact_through := (if rs = [] then cv_intact_through v else Some (cr_seq (last rs)))\<rparr>"
  by (induction rs arbitrary: prev v) (auto simp: doc_of_def Let_def)

lemma verify_legacy:
  "(\<forall>r \<in> set us. unattested r) \<Longrightarrow>
   verify_rows sha False prev (us @ rs) v =
     verify_rows sha False prev rs
       (v\<lparr>cv_total := cv_total v + length us, cv_unattested := cv_unattested v + length us,
          cv_unattested_through := (if us = [] then cv_unattested_through v else Some (cr_seq (last us)))\<rparr>)"
  by (induction us arbitrary: v) (auto simp: Let_def)

text \<open>Once a row is not a legacy row, having started or not makes no difference.\<close>

lemma verify_starts:
  "rs = [] \<or> \<not> unattested (hd rs) \<Longrightarrow> verify_rows sha False prev rs v = verify_rows sha True prev rs v"
  by (cases rs) (auto simp: Let_def)

lemma verify_break_kept: "cv_break (verify_rows sha started prev rs v) = None \<Longrightarrow> cv_break v = None"
  by (induction sha started prev rs v rule: verify_rows.induct) (auto simp: Let_def split: if_splits)

lemma verify_intact: "cv_break (verify_rows sha True prev rs v) = None \<Longrightarrow> chained sha prev rs"
  by (induction rs arbitrary: prev v) (auto simp: doc_of_def Let_def split: if_splits)

lemma verifyChain_parts:
  "verifyChain sha db =
     verify_rows sha True (resolveChainStartPrevHash db) (chained_part db)
       (verify_start\<lparr>cv_total := length (legacy_part db), cv_unattested := length (legacy_part db),
          cv_unattested_through := map_option cr_seq (last_opt (legacy_part db))\<rparr>)"
proof -
  have "\<forall>r \<in> set (legacy_part db). unattested r" by (auto simp: legacy_part_def dest: set_takeWhileD)
  moreover have "chained_part db = [] \<or> \<not> unattested (hd (chained_part db))"
    by (metis chained_part_def hd_dropWhile)
  ultimately show ?thesis
    by (simp add: verifyChain_def parts[of db] verify_legacy verify_starts verify_start_def last_opt_if)
qed

text \<open>No break is reported exactly when the rows after the legacy ones are chained from the start.\<close>

lemma verify_iff:
  "cv_break (verifyChain sha db) = None \<longleftrightarrow> chained sha (resolveChainStartPrevHash db) (chained_part db)"
  by (auto simp: verifyChain_parts verify_started verify_start_def dest: verify_intact)

lemma verify_counts:
  assumes "chained sha (resolveChainStartPrevHash db) (chained_part db)"
  shows "verifyChain sha db =
    \<lparr>cv_total = length (jd_rows db), cv_unattested = length (legacy_part db),
     cv_unattested_through = map_option cr_seq (last_opt (legacy_part db)),
     cv_attested = length (chained_part db),
     cv_intact_through = map_option cr_seq (last_opt (chained_part db)), cv_break = None\<rparr>"
  using assms by (cases "chained_part db" rule: rev_cases)
    (simp_all add: verifyChain_parts verify_started verify_start_def parts[of db])

section \<open>What every reachable journal satisfies\<close>

definition journal_ok :: "(jstr \<Rightarrow> jstr) \<Rightarrow> journal_db \<Rightarrow> bool" where
  "journal_ok sha db \<longleftrightarrow>
     sorted_wrt (<) (map cr_seq (jd_rows db)) \<and> (\<forall>r \<in> set (jd_rows db). cr_seq r \<le> jd_last db) \<and>
     sorted_wrt (<) (map pm_through (jd_markers db)) \<and>
     (\<forall>m \<in> set (jd_markers db). pm_through m \<le> jd_last db \<and> (\<forall>r \<in> set (jd_rows db). pm_through m < cr_seq r)) \<and>
     chained sha (resolveChainStartPrevHash db) (chained_part db) \<and>
     (\<forall>m \<in> set (jd_markers db). pm_head m \<noteq> None \<longrightarrow>
        legacy_part db = [] \<and> pm_head (last (jd_markers db)) \<noteq> None)"

lemma journal_okD:
  assumes "journal_ok sha db"
  shows "sorted_wrt (<) (map cr_seq (jd_rows db))"
    and "\<forall>r \<in> set (jd_rows db). cr_seq r \<le> jd_last db"
    and "sorted_wrt (<) (map pm_through (jd_markers db))"
    and "\<forall>m \<in> set (jd_markers db). pm_through m \<le> jd_last db \<and> (\<forall>r \<in> set (jd_rows db). pm_through m < cr_seq r)"
    and "chained sha (resolveChainStartPrevHash db) (chained_part db)"
    and "\<forall>m \<in> set (jd_markers db). pm_head m \<noteq> None \<longrightarrow>
       legacy_part db = [] \<and> pm_head (last (jd_markers db)) \<noteq> None"
  using assms unfolding journal_ok_def by blast+

text \<open>The database of a version that had no chain.\<close>

definition journal_legacy :: "journal_db \<Rightarrow> bool" where
  "journal_legacy db \<longleftrightarrow>
     sorted_wrt (<) (map cr_seq (jd_rows db)) \<and> (\<forall>r \<in> set (jd_rows db). cr_seq r \<le> jd_last db) \<and>
     (\<forall>r \<in> set (jd_rows db). unattested r) \<and> jd_markers db = []"

lemma legacy_ok: "journal_legacy db \<Longrightarrow> journal_ok sha db"
proof -
  assume legacy: "journal_legacy db"
  then have "chained_part db = []" by (auto simp: journal_legacy_def chained_part_def)
  with legacy show ?thesis by (auto simp: journal_legacy_def journal_ok_def)
qed

lemma map_filter_marker_heads:
  assumes "\<forall>m \<in> set ms. pm_head m \<noteq> None \<longrightarrow> pm_head (last ms) \<noteq> None"
  shows "last_opt (List.map_filter pm_head ms) = Option.bind (last_opt ms) pm_head"
proof (cases ms rule: rev_cases)
  case (snoc ys m)
  show ?thesis
  proof (cases "pm_head m")
    case None
    then have "List.map_filter pm_head ms = []" using assms snoc by (auto simp: List.map_filter_def filter_empty_conv)
    then show ?thesis using snoc None by simp
  qed (simp add: snoc List.map_filter_def)
qed (simp add: List.map_filter_def)

lemma map_filter_append: "List.map_filter f (xs @ ys) = List.map_filter f xs @ List.map_filter f ys"
  by (simp add: List.map_filter_def)

lemma legacy_part_hashes: "List.map_filter cr_hash (legacy_part db) = []"
  by (auto simp: List.map_filter_def filter_empty_conv dest: legacy_part_unattested)

text \<open>The head an insert starts from is the end of the chain that the verification walks.\<close>

lemma chainHeadOf_ok:
  assumes "journal_ok sha db"
  shows "chainHeadOf db = chain_end sha (resolveChainStartPrevHash db) (map doc_of (chained_part db))"
proof -
  have heads: "\<forall>m \<in> set (jd_markers db). pm_head m \<noteq> None \<longrightarrow> pm_head (last (jd_markers db)) \<noteq> None"
    and ch: "chained sha (resolveChainStartPrevHash db) (chained_part db)"
    using assms by (auto simp: journal_ok_def)
  have "last_opt (List.map_filter cr_hash (jd_rows db)) = last_opt (List.map_filter cr_hash (chained_part db))"
    by (simp add: parts[of db] map_filter_append legacy_part_hashes)
  then show ?thesis
    by (simp add: chainHeadOf_def chained_head[OF ch] map_filter_marker_heads[OF heads]
        resolveChainStartPrevHash_def latestPruneMarker_def)
qed

section \<open>Inserting keeps it\<close>

lemma foldr_max_le: "x \<in> set xs \<Longrightarrow> (x::nat) \<le> foldr max xs n"
  and foldr_max_base: "n \<le> foldr max xs n"
  by (induction xs) auto

lemma next_seq_new: "r \<in> set (jd_rows db) \<Longrightarrow> cr_seq r < next_seq db" "jd_last db < next_seq db"
  using foldr_max_le[of "cr_seq r" "map cr_seq (jd_rows db)" "jd_last db"]
    foldr_max_base[of "jd_last db" "map cr_seq (jd_rows db)"]
  by (auto simp: next_seq_def)

lemma parts_snoc_attested:
  assumes "jd_rows db' = jd_rows db @ [r]" and "cr_hash r \<noteq> None"
  shows "legacy_part db' = legacy_part db" and "chained_part db' = chained_part db @ [r]"
proof -
  have "\<not> unattested r" using assms(2) by (simp add: unattested_def)
  then show "legacy_part db' = legacy_part db" and "chained_part db' = chained_part db @ [r]"
    using assms(1) by (auto simp: legacy_part_def chained_part_def takeWhile_append dropWhile_append
        simp flip: takeWhile_eq_all_conv)
qed

lemma insert_row_ok:
  assumes "journal_ok sha db" and "prev = chain_end sha (resolveChainStartPrevHash db) (map doc_of (chained_part db))"
    and "h = linkHashOf sha prev (jr_doc row)"
  shows "journal_ok sha (insert_row row prev h db)"
    and "chained_part (insert_row row prev h db) =
      chained_part db @ [\<lparr>cr_seq = next_seq db, cr_record = row, cr_prev = Some prev, cr_hash = Some h\<rparr>]"
    and "legacy_part (insert_row row prev h db) = legacy_part db"
proof -
  let ?r = "\<lparr>cr_seq = next_seq db, cr_record = row, cr_prev = Some prev, cr_hash = Some h\<rparr>"
  let ?db = "insert_row row prev h db"
  have rows: "jd_rows ?db = jd_rows db @ [?r]" and ms: "jd_markers ?db = jd_markers db"
    and last: "jd_last ?db = next_seq db"
    by (simp_all add: insert_row_def)
  note split = parts_snoc_attested[OF rows, simplified]
  show "chained_part ?db = chained_part db @ [?r]" and leg: "legacy_part ?db = legacy_part db" by (fact split)+
  have start: "resolveChainStartPrevHash ?db = resolveChainStartPrevHash db"
    by (simp add: resolveChainStartPrevHash_def latestPruneMarker_def ms)
  note ok = journal_okD[OF assms(1)]
  have new: "\<forall>m \<in> set (jd_markers db). pm_through m < next_seq db" "\<forall>r \<in> set (jd_rows db). cr_seq r < next_seq db"
    using ok(4) next_seq_new(1)[of _ db] next_seq_new(2)[of db] by fastforce+
  show "journal_ok sha ?db"
    unfolding journal_ok_def rows ms last start split
  proof (intro conjI)
    show "sorted_wrt (<) (map cr_seq (jd_rows db @ [?r]))" using ok(1) new(2) by (simp add: sorted_wrt_append)
    show "\<forall>r \<in> set (jd_rows db @ [?r]). cr_seq r \<le> next_seq db" using new(2) by (auto intro: less_imp_le)
    show "sorted_wrt (<) (map pm_through (jd_markers db))" by (fact ok(3))
    show "\<forall>m \<in> set (jd_markers db). pm_through m \<le> next_seq db \<and>
        (\<forall>r \<in> set (jd_rows db @ [?r]). pm_through m < cr_seq r)"
      using ok(4) new(1) by (auto intro: less_imp_le)
    show "chained sha (resolveChainStartPrevHash db) (chained_part db @ [?r])"
      using ok(5) assms(2,3) by (simp add: doc_of_def)
    show "\<forall>m \<in> set (jd_markers db). pm_head m \<noteq> None \<longrightarrow>
        legacy_part db = [] \<and> pm_head (last (jd_markers db)) \<noteq> None"
      by (fact ok(6))
  qed
qed

lemma insert_chained_ok:
  assumes "journal_ok sha db"
    and "prev = chain_end sha (resolveChainStartPrevHash db) (map doc_of (chained_part db))"
  shows "journal_ok sha (insert_chained sha prev rows db) \<and>
    jd_markers (insert_chained sha prev rows db) = jd_markers db \<and>
    legacy_part (insert_chained sha prev rows db) = legacy_part db \<and>
    map cr_record (jd_rows (insert_chained sha prev rows db)) = map cr_record (jd_rows db) @ rows"
  using assms
proof (induction rows arbitrary: prev db)
  case (Cons row rows)
  let ?h = "linkHashOf sha prev (jr_doc row)"
  let ?db = "insert_row row prev ?h db"
  note new = insert_row_ok[OF Cons.prems refl]
  have start: "resolveChainStartPrevHash ?db = resolveChainStartPrevHash db"
    by (simp add: resolveChainStartPrevHash_def latestPruneMarker_def insert_row_def)
  have "?h = chain_end sha (resolveChainStartPrevHash ?db) (map doc_of (chained_part ?db))"
    unfolding start new(2) by (simp add: doc_of_def flip: Cons.prems(2))
  from Cons.IH[OF new(1) this] new(3) show ?case by (simp add: Let_def insert_row_def)
qed simp

lemma insertRecordRows_ok:
  assumes "journal_ok sha db"
  shows "journal_ok sha (insertRecordRows sha rows db)"
    and "jd_markers (insertRecordRows sha rows db) = jd_markers db"
    and "legacy_part (insertRecordRows sha rows db) = legacy_part db"
    and "map cr_record (jd_rows (insertRecordRows sha rows db)) = map cr_record (jd_rows db) @ rows"
  using insert_chained_ok[OF assms chainHeadOf_ok[OF assms], of rows] assms
  by (simp_all add: insertRecordRows_def)

section \<open>Pruning keeps it\<close>

text \<open>The rows a prune deletes, and those it keeps.\<close>

definition old_prefix :: "journal_env \<Rightarrow> jstr \<Rightarrow> journal_db \<Rightarrow> chain_row list" where
  "old_prefix env cutoff db = takeWhile (\<lambda>r. \<not> je_ts_ge env (jr_ts (cr_record r)) cutoff) (jd_rows db)"

definition kept_suffix :: "journal_env \<Rightarrow> jstr \<Rightarrow> journal_db \<Rightarrow> chain_row list" where
  "kept_suffix env cutoff db = dropWhile (\<lambda>r. \<not> je_ts_ge env (jr_ts (cr_record r)) cutoff) (jd_rows db)"

lemma prune_split: "jd_rows db = old_prefix env cutoff db @ kept_suffix env cutoff db"
  by (simp add: old_prefix_def kept_suffix_def)

lemma filter_before:
  assumes "sorted_wrt (<) (map f (ps @ q # qs))"
  shows "filter (\<lambda>x. f x < (f q :: nat)) (ps @ q # qs) = ps"
proof -
  have "\<forall>x \<in> set ps. f x < f q" "\<forall>x \<in> set qs. \<not> f x < f q"
    using assms by (auto simp: sorted_wrt_append dest: order.asym)
  then show ?thesis by (simp add: filter_empty_conv)
qed

lemma filter_through:
  assumes "sorted_wrt (<) (map f (ps @ qs))" and "ps \<noteq> []"
  shows "filter (\<lambda>x. f x \<le> (f (last ps) :: nat)) (ps @ qs) = ps"
    and "filter (\<lambda>x. \<not> f x \<le> f (last ps)) (ps @ qs) = qs"
proof -
  obtain ps' p where ps: "ps = ps' @ [p]" using assms(2) by (cases ps rule: rev_cases) auto
  have "\<forall>x \<in> set ps. f x \<le> f p" "\<forall>x \<in> set qs. \<not> f x \<le> f p"
    using assms(1) ps by (auto simp: sorted_wrt_append dest: leD intro: less_imp_le)
  then show "filter (\<lambda>x. f x \<le> f (last ps)) (ps @ qs) = ps" "filter (\<lambda>x. \<not> f x \<le> f (last ps)) (ps @ qs) = qs"
    by (simp_all add: ps filter_empty_conv)
qed

lemma insort_key_last: "(\<forall>x \<in> set xs. f x < f y) \<Longrightarrow> insort_key f y xs = xs @ [y]"
  by (induction xs) auto

lemma prefixBoundaryOf_ok:
  assumes "sorted_wrt (<) (map cr_seq (jd_rows db))"
  shows "prefixBoundaryOf env db cutoff = map_option (\<lambda>r. (cr_seq r, cr_hash r)) (last_opt (old_prefix env cutoff db))"
proof (cases "kept_suffix env cutoff db")
  case Nil
  then have "find (\<lambda>r. je_ts_ge env (jr_ts (cr_record r)) cutoff) (jd_rows db) = None"
    by (auto simp: kept_suffix_def find_None_iff)
  moreover have "jd_rows db = old_prefix env cutoff db" using prune_split[of db env cutoff] Nil by simp
  ultimately show ?thesis by (simp add: prefixBoundaryOf_def)
next
  case (Cons q qs)
  then have "find (\<lambda>r. je_ts_ge env (jr_ts (cr_record r)) cutoff) (jd_rows db) = Some q"
    by (simp add: kept_suffix_def find_dropWhile comp_def)
  moreover have "filter (\<lambda>r. cr_seq r < cr_seq q) (jd_rows db) = old_prefix env cutoff db"
    using filter_before[of cr_seq "old_prefix env cutoff db" q qs] assms prune_split[of db env cutoff] Cons by metis
  ultimately show ?thesis by (simp add: prefixBoundaryOf_def)
qed

text \<open>A marker for the last row deleted fits behind the others, and the chain goes on from it.\<close>

lemma prune_ok:
  assumes "journal_ok sha db" and "jd_rows db = ps @ qs" and "ps \<noteq> []"
    and "pm_through m = cr_seq (last ps)" and "pm_head m = cr_hash (last ps)"
  defines "db' \<equiv> db\<lparr>jd_rows := qs, jd_markers := jd_markers db @ [m]\<rparr>"
  shows "insert_marker m (delete_prefix (pm_through m) db) = Some db'" and "journal_ok sha db'"
proof -
  note ok = journal_okD[OF assms(1)]
  have last_in: "last ps \<in> set (jd_rows db)" using assms(2,3) by simp
  have older: "\<forall>x \<in> set (jd_markers db). pm_through x < pm_through m" using ok(4) assms(4) last_in by auto
  have "jd_rows (delete_prefix (pm_through m) db) = qs"
    using filter_through(2)[of cr_seq ps qs] ok(1) assms(2-4) by (simp add: delete_prefix_def)
  then have "delete_prefix (pm_through m) db = db\<lparr>jd_rows := qs\<rparr>" by (simp add: delete_prefix_def)
  then show "insert_marker m (delete_prefix (pm_through m) db) = Some db'"
    using older by (auto simp: insert_marker_def db'_def insort_key_last)
  have start: "resolveChainStartPrevHash db' = (case cr_hash (last ps) of Some h \<Rightarrow> h | None \<Rightarrow> genesis_prev_hash)"
    by (simp add: db'_def resolveChainStartPrevHash_def latestPruneMarker_def assms(5))
  have heads: "chained sha (resolveChainStartPrevHash db') (chained_part db') \<and>
      (\<forall>x \<in> set (jd_markers db'). pm_head x \<noteq> None \<longrightarrow> legacy_part db' = [] \<and> cr_hash (last ps) \<noteq> None)"
  proof -
    consider (legacy) zs where "legacy_part db = ps @ zs" "qs = zs @ chained_part db"
      | (attested) zs where "zs \<noteq> []" "ps = legacy_part db @ zs" "chained_part db = zs @ qs"
    proof -
      obtain us where us: "ps @ us = legacy_part db \<and> qs = us @ chained_part db \<or>
          ps = legacy_part db @ us \<and> us @ qs = chained_part db"
        using assms(2) parts[of db] append_eq_append_conv2[of ps qs "legacy_part db" "chained_part db"] by metis
      show thesis
      proof (cases "us = []")
        case True
        with us have "legacy_part db = ps @ []" "qs = [] @ chained_part db" by auto
        then show thesis by (rule legacy)
      next
        case False
        with us legacy[of us] attested[of us] show thesis by auto
      qed
    qed
    then show ?thesis
    proof cases
      case legacy
      have un: "\<forall>r \<in> set (ps @ zs). unattested r"
        using legacy(1) by (metis legacy_part_def set_takeWhileD)
      have "last ps \<in> set ps" using assms(3) by simp
      with un have none: "cr_hash (last ps) = None" by (auto simp: unattested_def)
      have no_heads: "\<forall>x \<in> set (jd_markers db). pm_head x = None" using ok(6) legacy(1) assms(3) by auto
      have "chained_part db' = dropWhile unattested (chained_part db)"
        using un legacy(2) by (simp add: db'_def chained_part_def dropWhile_append2)
      then have "chained_part db' = chained_part db" by (simp add: chained_part_def)
      moreover have "resolveChainStartPrevHash db = genesis_prev_hash"
        using no_heads by (auto simp: resolveChainStartPrevHash_def latestPruneMarker_def last_opt_if)
      ultimately show ?thesis using ok(5) no_heads none start assms(5) by (auto simp: db'_def)
    next
      case attested
      have qs: "chained sha (chain_end sha (resolveChainStartPrevHash db) (map doc_of zs)) qs"
        and zs: "chained sha (resolveChainStartPrevHash db) zs"
        using ok(5) attested(3) by simp_all
      have "last_opt (List.map_filter cr_hash zs) = cr_hash (last ps)"
        using attested chained_attested[OF zs, of "last zs"]
        by (cases zs rule: rev_cases) (auto simp: List.map_filter_def last_opt_append)
      then have h: "cr_hash (last ps) = Some (chain_end sha (resolveChainStartPrevHash db) (map doc_of zs))"
        using chained_head[OF zs] attested(1) by simp
      have "\<forall>r \<in> set qs. \<not> unattested r" using chained_attested[OF qs] by (auto simp: unattested_def)
      then have "legacy_part db' = []" "chained_part db' = qs"
        by (cases qs; auto simp: db'_def legacy_part_def chained_part_def)+
      then show ?thesis using qs h start by (simp add: db'_def)
    qed
  qed
  have "sorted_wrt (<) (map cr_seq qs)" "\<forall>r \<in> set qs. cr_seq (last ps) < cr_seq r"
    using ok(1) assms(2,3) by (auto simp: sorted_wrt_append)
  then show "journal_ok sha db'"
    using heads ok(2,3,4) older assms(2,4,5) last_in
    by (auto simp: journal_ok_def db'_def sorted_wrt_append)
qed

section \<open>The journals the program reaches\<close>

inductive journal_reachable :: "journal_env \<Rightarrow> journal_db \<Rightarrow> bool" for env where
  legacy: "journal_legacy db \<Longrightarrow> journal_reachable env db"
| append: "journal_reachable env db \<Longrightarrow> journal_reachable env (insertRecordRows (je_sha env) rows db)"
| import_batch: "journal_reachable env db \<Longrightarrow>
    journal_reachable env (snd (commitBatch (je_sha env) sid rows isFirst isFinal db))"
| prune: "journal_reachable env db \<Longrightarrow> journal_reachable env (snd (pruneRecordsOlderThan env inp db))"

lemma markerFor_boundary: "markerFor env b n inp = Some m \<Longrightarrow> pm_through m = fst b \<and> pm_head m = snd b"
  by (auto simp: markerFor_def Let_def split: option.splits)

lemma markerFor_unsigned: "pi_key inp = None \<Longrightarrow> markerFor env b n inp \<noteq> None"
  by (simp add: markerFor_def Let_def)

text \<open>What a prune does to a good journal: its last old row is the boundary.\<close>

definition old_boundary :: "journal_env \<Rightarrow> jstr \<Rightarrow> journal_db \<Rightarrow> nat \<times> jstr option" where
  "old_boundary env cutoff db = (cr_seq (last (old_prefix env cutoff db)), cr_hash (last (old_prefix env cutoff db)))"

lemma prune_result:
  assumes "journal_ok sha db"
  shows "pruneRecordsOlderThan env inp db =
    (let ps = old_prefix env (pi_cutoff inp) db; qs = kept_suffix env (pi_cutoff inp) db
     in if ps = [] then (Some \<lparr>po_deleted = 0, po_marker = None, po_first_remaining = firstSeqOf db\<rparr>, db)
        else case markerFor env (old_boundary env (pi_cutoff inp) db) (length ps) inp of
               None \<Rightarrow> (None, db)
             | Some m \<Rightarrow>
                 (Some \<lparr>po_deleted = length ps, po_marker = Some m, po_first_remaining = map_option cr_seq (first_opt qs)\<rparr>,
                  db\<lparr>jd_rows := qs, jd_markers := jd_markers db @ [m]\<rparr>))"
proof -
  let ?ps = "old_prefix env (pi_cutoff inp) db" and ?qs = "kept_suffix env (pi_cutoff inp) db"
  note sorted = journal_okD(1)[OF assms]
  note rows = prune_split[of db env "pi_cutoff inp"]
  show ?thesis
  proof (cases "?ps = []")
    case True
    then show ?thesis
      by (simp add: pruneRecordsOlderThan_def transaction_def prefixBoundaryOf_ok[OF sorted])
  next
    case False
    have b: "prefixBoundaryOf env db (pi_cutoff inp) = Some (old_boundary env (pi_cutoff inp) db)"
      using False by (simp add: prefixBoundaryOf_ok[OF sorted] last_opt_if old_boundary_def)
    have n: "count_prefix db (fst (old_boundary env (pi_cutoff inp) db)) = length ?ps"
      using filter_through(1)[of cr_seq ?ps ?qs] sorted False rows by (simp add: count_prefix_def old_boundary_def)
    show ?thesis
    proof (cases "markerFor env (old_boundary env (pi_cutoff inp) db) (length ?ps) inp")
      case None
      then show ?thesis using False by (simp add: pruneRecordsOlderThan_def transaction_def b n)
    next
      case (Some m)
      have m: "pm_through m = cr_seq (last ?ps)" "pm_head m = cr_hash (last ?ps)"
        using markerFor_boundary[OF Some] by (simp_all add: old_boundary_def)
      have "insert_marker m (delete_prefix (fst (old_boundary env (pi_cutoff inp) db)) db) =
          Some (db\<lparr>jd_rows := ?qs, jd_markers := jd_markers db @ [m]\<rparr>)"
        using prune_ok(1)[OF assms rows False m] m(1) by (simp add: old_boundary_def)
      then show ?thesis using Some False by (simp add: pruneRecordsOlderThan_def transaction_def b n firstSeqOf_def Let_def)
    qed
  qed
qed

lemma pruned_ok:
  assumes "journal_ok sha db"
  shows "journal_ok sha (snd (pruneRecordsOlderThan env inp db))"
proof (cases "old_prefix env (pi_cutoff inp) db = []")
  case False
  note old = prune_ok(2)[OF assms prune_split False]
  show ?thesis
    using assms False old markerFor_boundary
    by (fastforce simp: prune_result[OF assms] Let_def old_boundary_def split: option.split)
qed (simp add: prune_result[OF assms] assms)

lemma journal_reachable_ok: "journal_reachable env db \<Longrightarrow> journal_ok (je_sha env) db"
proof (induction rule: journal_reachable.induct)
  case (legacy db)
  then show ?case by (rule legacy_ok)
next
  case (append db rows)
  then show ?case by (simp add: insertRecordRows_ok(1))
next
  case (import_batch db sid rows isFirst isFinal)
  have "journal_ok (je_sha env) (writeMarker sid d)" if "journal_ok (je_sha env) d" for d
    using that by (simp add: journal_ok_def writeMarker_def chained_part_def legacy_part_def
        resolveChainStartPrevHash_def latestPruneMarker_def)
  with import_batch.IH insertRecordRows_ok(1)[OF import_batch.IH]
  show ?case by (simp add: commitBatch_def transaction_def Let_def)
next
  case (prune db inp)
  then show ?case by (simp add: pruned_ok)
qed

lemma legacy_part_filter:
  assumes "chained sha prev (chained_part db)"
  shows "filter unattested (jd_rows db) = legacy_part db"
    and "filter (\<lambda>r. \<not> unattested r) (jd_rows db) = chained_part db"
proof -
  have "\<forall>r \<in> set (legacy_part db). unattested r" by (auto simp: legacy_part_def dest: set_takeWhileD)
  moreover have "\<forall>r \<in> set (chained_part db). \<not> unattested r"
    using chained_attested[OF assms] by (auto simp: unattested_def)
  ultimately show "filter unattested (jd_rows db) = legacy_part db"
    "filter (\<lambda>r. \<not> unattested r) (jd_rows db) = chained_part db"
    by (simp_all add: parts[of db] filter_empty_conv)
qed

section \<open>What the chain gives evidence of\<close>

text \<open>The texts that are hashed to link documents from a start.\<close>

fun hashed_texts :: "(jstr \<Rightarrow> jstr) \<Rightarrow> jstr \<Rightarrow> jstr list \<Rightarrow> jstr set" where
  "hashed_texts sha prev [] = {}"
| "hashed_texts sha prev (d # ds) =
     {d, prev @ [newline] @ sha d} \<union> hashed_texts sha (linkHashOf sha prev d) ds"

lemma hashed_texts_append:
  "hashed_texts sha prev (ds @ es) = hashed_texts sha prev ds \<union> hashed_texts sha (chain_end sha prev ds) es"
  by (induction ds arbitrary: prev) auto

text \<open>Digests of one length, no two hashed texts with the same digest: a link gives back what it was made of.\<close>

lemma linkHashOf_inj:
  assumes "linkHashOf sha p d = linkHashOf sha q e" and "\<And>t u. length (sha t) = length (sha u)"
    and "inj_on sha {d, e, p @ [newline] @ sha d, q @ [newline] @ sha e}"
  shows "p = q \<and> d = e"
proof -
  have "p @ [newline] @ sha d = q @ [newline] @ sha e"
    using assms(1,3) by (auto simp: linkHashOf_def dest: inj_onD)
  then have "p = q \<and> sha d = sha e" using assms(2)[of d e] by simp
  with assms(3) show ?thesis by (auto dest: inj_onD)
qed

lemma chain_end_inj:
  assumes "chain_end sha p ds = chain_end sha p es" and "length ds = length es"
    and "\<And>t u. length (sha t) = length (sha u)"
    and "inj_on sha (hashed_texts sha p ds \<union> hashed_texts sha p es)"
  shows "ds = es"
  using assms(1,2,4)
proof (induction ds arbitrary: es rule: rev_induct)
  case (snoc d ds)
  then obtain es' e where es: "es = es' @ [e]" by (cases es rule: rev_cases) auto
  let ?p = "chain_end sha p ds" and ?q = "chain_end sha p es'"
  have "inj_on sha {d, e, ?p @ [newline] @ sha d, ?q @ [newline] @ sha e}"
    by (rule inj_on_subset[OF snoc.prems(3)]) (auto simp: es hashed_texts_append)
  with snoc.prems(1) assms(3) have same: "?p = ?q \<and> d = e" by (intro linkHashOf_inj[of sha]) (simp_all add: es)
  have "inj_on sha (hashed_texts sha p ds \<union> hashed_texts sha p es')"
    by (rule inj_on_subset[OF snoc.prems(3)]) (auto simp: es hashed_texts_append)
  with snoc.IH[of es'] snoc.prems(2) same show ?case by (simp add: es)
qed simp

lemma latest_head_chained:
  assumes "chained sha p (chained_part db)"
  shows "map_option snd (latestAttestedChainHead db) =
    (if chained_part db = [] then None else Some (chain_end sha p (map doc_of (chained_part db))))"
proof -
  have leg: "filter (\<lambda>r. cr_hash r \<noteq> None) (legacy_part db) = []"
    by (auto simp: filter_empty_conv dest: legacy_part_unattested)
  have "filter (\<lambda>r. cr_hash r \<noteq> None) (chained_part db) = chained_part db"
    using chained_attested[OF assms] by (auto simp: filter_id_conv)
  then have "latestAttestedChainHead db =
      map_option (\<lambda>r. (cr_seq r, case cr_hash r of Some h \<Rightarrow> h | None \<Rightarrow> [])) (last_opt (chained_part db))"
    using leg by (simp add: latestAttestedChainHead_def parts[of db])
  then show ?thesis
    using chained_head[OF assms] chained_attested[OF assms, of "last (chained_part db)"]
    by (cases "chained_part db" rule: rev_cases) (auto simp: List.map_filter_def last_opt_append split: if_splits)
qed

text \<open>A row out of place, and a row with another document, are where the verification stops.\<close>

lemma verify_stops:
  assumes "chained sha p cs" and "cr_prev r \<noteq> Some (chain_end sha p (map doc_of cs)) \<or>
      cr_hash r \<noteq> Some (linkHashOf sha (chain_end sha p (map doc_of cs)) (doc_of r))"
  shows "verify_rows sha True p (cs @ r # rs) v =
    v\<lparr>cv_total := cv_total v + length cs + 1, cv_attested := cv_attested v + length cs,
      cv_intact_through := (if cs = [] then cv_intact_through v else Some (cr_seq (last cs))),
      cv_break := Some (cr_seq r,
        if cr_prev r \<noteq> Some (chain_end sha p (map doc_of cs)) then Gap else Modified)\<rparr>"
  using assms by (induction cs arbitrary: p v) (auto simp: doc_of_def Let_def)

text \<open>
  C29. Whatever an installation does to its journal, starting from the database of a version without a chain:
  after any appends, imports and prunes the verification finds no break. It counts every row, the rows
  from before the chain as unattested and all others as attested, and attests up to the last of them.
\<close>

theorem reachable_journal_verifies:
  "journal_reachable env db \<Longrightarrow>
   verifyChain (je_sha env) db =
     \<lparr>cv_total = length (jd_rows db),
      cv_unattested = length (filter unattested (jd_rows db)),
      cv_unattested_through = map_option cr_seq (last_opt (filter unattested (jd_rows db))),
      cv_attested = length (filter (\<lambda>r. \<not> unattested r) (jd_rows db)),
      cv_intact_through = map_option cr_seq (last_opt (filter (\<lambda>r. \<not> unattested r) (jd_rows db))),
      cv_break = None\<rparr>"
  using journal_reachable_ok[of env db] journal_okD(5)[of "je_sha env" db]
  by (simp add: verify_counts legacy_part_filter)

text \<open>
  C31. A prune deletes exactly the rows in front of the first one that is not older than the cutoff: it
  punches no hole, deletes no row as young as the cutoff, reports the number it deleted, and leaves a
  journal that still verifies. It fails only when signing its marker does.
\<close>

theorem prune_exact:
  assumes "journal_reachable env db"
    and "\<And>pem anchor. pi_key inp = Some pem \<Longrightarrow> signChainHeadAnchor env pem anchor \<noteq> None"
  shows "jd_rows (snd (pruneRecordsOlderThan env inp db)) =
        dropWhile (\<lambda>r. \<not> je_ts_ge env (jr_ts (cr_record r)) (pi_cutoff inp)) (jd_rows db) \<and>
      map_option po_deleted (fst (pruneRecordsOlderThan env inp db)) =
        Some (length (takeWhile (\<lambda>r. \<not> je_ts_ge env (jr_ts (cr_record r)) (pi_cutoff inp)) (jd_rows db))) \<and>
      cv_break (verifyChain (je_sha env) (snd (pruneRecordsOlderThan env inp db))) = None"
proof -
  have ok: "journal_ok (je_sha env) db" using assms(1) by (rule journal_reachable_ok)
  have intact: "cv_break (verifyChain (je_sha env) (snd (pruneRecordsOlderThan env inp db))) = None"
    using journal_okD(5)[OF pruned_ok[OF ok]] by (simp add: verify_iff)
  have marker: "markerFor env b n inp \<noteq> None" for b n
    using assms(2) by (auto simp: markerFor_def Let_def split: option.splits)
  note result = prune_result[OF ok, of env inp, unfolded Let_def]
  have "jd_rows (snd (pruneRecordsOlderThan env inp db)) = kept_suffix env (pi_cutoff inp) db \<and>
      map_option po_deleted (fst (pruneRecordsOlderThan env inp db)) = Some (length (old_prefix env (pi_cutoff inp) db))"
  proof (cases "old_prefix env (pi_cutoff inp) db = []")
    case True
    with prune_split[of db env "pi_cutoff inp"] have "kept_suffix env (pi_cutoff inp) db = jd_rows db" by simp
    with True show ?thesis by (simp add: result)
  next
    case False
    obtain m where "markerFor env (old_boundary env (pi_cutoff inp) db) (length (old_prefix env (pi_cutoff inp) db)) inp = Some m"
      using marker[of "old_boundary env (pi_cutoff inp) db" "length (old_prefix env (pi_cutoff inp) db)"] by blast
    with False show ?thesis by (simp add: result)
  qed
  with intact show ?thesis by (simp add: old_prefix_def kept_suffix_def)
qed


text \<open>
  Editing the document of one attested row of a journal that verifies is reported at that very row as a
  modification, with every attested row before it still intact: unless the digest collides on the old and
  the new document or on the two texts of the link.
\<close>

lemma changed_document_located:
  assumes "cv_break (verifyChain sha db) = None"
    and "chained_part db = before @ r # later" and "doc_of r' \<noteq> doc_of r"
    and "cr_seq r' = cr_seq r" and "cr_prev r' = cr_prev r" and "cr_hash r' = cr_hash r"
    and "cr_prev r = Some q"
    and "inj_on sha {doc_of r, doc_of r', q @ [newline] @ sha (doc_of r), q @ [newline] @ sha (doc_of r')}"
  shows "cv_break (verifyChain sha (db\<lparr>jd_rows := legacy_part db @ before @ r' # later\<rparr>)) =
        Some (cr_seq r, Modified) \<and>
      cv_attested (verifyChain sha (db\<lparr>jd_rows := legacy_part db @ before @ r' # later\<rparr>)) = length before"
proof -
  let ?db = "db\<lparr>jd_rows := legacy_part db @ before @ r' # later\<rparr>" and ?p = "resolveChainStartPrevHash db"
  have ch: "chained sha ?p (before @ r # later)" using assms(1,2) by (simp add: verify_iff)
  have un: "\<forall>x \<in> set (legacy_part db). unattested x" by (auto simp: legacy_part_def dest: set_takeWhileD)
  have at: "\<not> unattested (hd (before @ r' # later))"
    using ch assms(5) chained_attested[OF ch] by (cases before) (auto simp: unattested_def)
  have dw: "dropWhile unattested (before @ r' # later) = before @ r' # later"
    using at by (cases before) auto
  have cp: "chained_part ?db = before @ r' # later"
    using un dw by (simp add: chained_part_def dropWhile_append2)
  have lh: "linkHashOf sha q (doc_of r') \<noteq> linkHashOf sha q (doc_of r)"
  proof
    assume eq: "linkHashOf sha q (doc_of r') = linkHashOf sha q (doc_of r)"
    have "q @ [newline] @ sha (doc_of r) = q @ [newline] @ sha (doc_of r')"
      by (rule inj_onD[OF assms(8)]) (use eq in \<open>simp_all add: linkHashOf_def\<close>)
    then have "sha (doc_of r) = sha (doc_of r')" by simp
    with assms(3) inj_onD[OF assms(8), of "doc_of r" "doc_of r'"] show False by simp
  qed
  have start: "resolveChainStartPrevHash ?db = ?p"
    by (simp add: resolveChainStartPrevHash_def latestPruneMarker_def)
  show ?thesis
    using ch assms(4-7) lh
    by (simp add: verifyChain_parts cp start verify_stops verify_start_def)
qed

text \<open>
  Removing rows from the middle of a journal that verifies is reported as a gap at the first row behind
  them, unless the chain had come back to an earlier hash.
\<close>

lemma removed_rows_located:
  assumes "cv_break (verifyChain sha db) = None"
    and "chained_part db = before @ removed @ r # later" and "removed \<noteq> []"
    and "distinct (resolveChainStartPrevHash db # map (\<lambda>x. the (cr_hash x)) (chained_part db))"
  shows "cv_break (verifyChain sha (db\<lparr>jd_rows := legacy_part db @ before @ r # later\<rparr>)) = Some (cr_seq r, Gap)"
proof -
  let ?db = "db\<lparr>jd_rows := legacy_part db @ before @ r # later\<rparr>" and ?p = "resolveChainStartPrevHash db"
  have ch: "chained sha ?p (before @ removed @ r # later)" using assms(1,2) by (simp add: verify_iff)
  have un: "\<forall>x \<in> set (legacy_part db). unattested x" by (auto simp: legacy_part_def dest: set_takeWhileD)
  have at: "\<not> unattested (hd (before @ r # later))"
    using chained_attested[OF ch] by (cases before) (auto simp: unattested_def)
  then have cp: "chained_part ?db = before @ r # later"
    using un by (cases before) (auto simp: chained_part_def dropWhile_append2)
  let ?q = "chain_end sha ?p (map doc_of before)"
  have ends: "chain_end sha s (map doc_of xs) = (if xs = [] then s else the (cr_hash (last xs)))"
    if "chained sha s xs" for s xs
    using that by (cases xs rule: rev_cases) auto
  obtain x xs where rem: "removed = xs @ [x]" using assms(3) by (cases removed rule: rev_cases) auto
  have "chained sha ?p before" "chained sha ?q removed" using ch by simp_all
  note e = ends[OF this(1)] ends[OF this(2)]
  have same: "chain_end sha ?q (map doc_of removed) = the (cr_hash x)" using e(2) rem by simp
  have "the (cr_hash x) \<noteq> ?q"
    unfolding e(1) using assms(2,4) by (cases before rule: rev_cases) (auto simp: rem)
  then have "chain_end sha ?q (map doc_of removed) \<noteq> ?q" by (simp only: same not_False_eq_True)
  moreover have "cr_prev r = Some (chain_end sha ?q (map doc_of removed))" using ch by simp
  moreover have "resolveChainStartPrevHash ?db = ?p"
    by (simp add: resolveChainStartPrevHash_def latestPruneMarker_def)
  ultimately show ?thesis
    using \<open>chained sha ?p before\<close> by (simp add: verifyChain_parts cp verify_stops verify_start_def)
qed

section \<open>A journal to try them on\<close>

text \<open>A digest of two units, the length and a polynomial, that tells the texts below apart.\<close>

definition sample_sha :: "jstr \<Rightarrow> jstr" where
  "sample_sha t = [word_of_nat (length t), foldl (\<lambda>a c. 31 * a + c) 7 t]"

definition sample_row :: "string \<Rightarrow> string \<Rightarrow> journal_row" where
  "sample_row ts doc = \<lparr>jr_session = js ''s'', jr_id = js ''r'', jr_ts = js ts, jr_direction = js ''client'',
     jr_kind = js ''request'', jr_method = None, jr_doc = js doc\<rparr>"

definition sample_legacy_row :: chain_row where
  "sample_legacy_row = \<lparr>cr_seq = 4, cr_record = sample_row ''1'' ''old'', cr_prev = None, cr_hash = None\<rparr>"

definition sample_legacy :: journal_db where
  "sample_legacy = \<lparr>jd_rows = [sample_legacy_row], jd_last = 4, jd_markers = [], jd_imported = []\<rparr>"

definition sample_journal :: journal_db where
  "sample_journal = insertRecordRows sample_sha [sample_row ''2'' ''a'', sample_row ''3'' ''b''] sample_legacy"

definition sample_journal_env :: journal_env where
  "sample_journal_env = \<lparr>je_sha = sample_sha, je_ts_ge = (\<lambda>t c. hd c \<le> hd t), je_num = (\<lambda>_. js ''0''), je_double = word_of_nat,
     je_fingerprint = (\<lambda>_. Some (js ''f'')), je_sign = (\<lambda>_ _. Some (js ''sig'')), je_verify = (\<lambda>_ _ _. Some True)\<rparr>"

text \<open>Its rows, evaluated.\<close>

definition sample_hash1 :: jstr where "sample_hash1 = linkHashOf sample_sha [] (js ''a'')"
definition sample_hash2 :: jstr where "sample_hash2 = linkHashOf sample_sha sample_hash1 (js ''b'')"

lemmas sample_simps = sample_sha_def sample_hash1_def sample_hash2_def linkHashOf_def newline_def js_def unit_of_Char

definition sample_row1 :: chain_row where
  "sample_row1 = \<lparr>cr_seq = 5, cr_record = sample_row ''2'' ''a'', cr_prev = Some [], cr_hash = Some sample_hash1\<rparr>"

definition sample_row2 :: chain_row where
  "sample_row2 = \<lparr>cr_seq = 6, cr_record = sample_row ''3'' ''b'', cr_prev = Some sample_hash1,
     cr_hash = Some sample_hash2\<rparr>"

lemma sample_journal_rows:
  "sample_journal = \<lparr>jd_rows = [sample_legacy_row, sample_row1, sample_row2], jd_last = 6, jd_markers = [], jd_imported = []\<rparr>"
  by (simp add: sample_journal_def sample_legacy_def insertRecordRows_def chainHeadOf_def List.map_filter_def
      genesis_prev_hash_def insert_row_def next_seq_def sample_legacy_row_def Let_def sample_row1_def sample_row2_def
      sample_hash1_def sample_hash2_def sample_row_def)

lemma sample_legacy_ok: "journal_legacy sample_legacy"
  by (simp add: journal_legacy_def sample_legacy_def sample_legacy_row_def unattested_def)

lemma sample_journal_reachable: "journal_reachable sample_journal_env sample_journal"
  using journal_reachable.append[OF journal_reachable.legacy[OF sample_legacy_ok], of sample_journal_env]
  by (simp add: sample_journal_def sample_journal_env_def)

lemma sample_parts: "legacy_part sample_journal = [sample_legacy_row]"
    "chained_part sample_journal = [sample_row1, sample_row2]"
  by (simp_all add: sample_journal_rows legacy_part_def chained_part_def unattested_def sample_legacy_row_def
      sample_row1_def sample_row2_def)

lemma sample_docs: "doc_of sample_row1 = js ''a''" "doc_of sample_row2 = js ''b''"
  by (simp_all add: doc_of_def sample_row1_def sample_row2_def sample_row_def)

lemma sample_start: "resolveChainStartPrevHash sample_journal = []"
  by (simp add: resolveChainStartPrevHash_def latestPruneMarker_def sample_journal_rows genesis_prev_hash_def)

lemma sample_intact: "cv_break (verifyChain sample_sha sample_journal) = None"
  by (simp add: verify_iff sample_parts resolveChainStartPrevHash_def latestPruneMarker_def sample_journal_rows
      genesis_prev_hash_def sample_row1_def sample_row2_def sample_hash1_def sample_hash2_def doc_of_def sample_row_def
      legacy_part_def chained_part_def unattested_def sample_legacy_row_def)

lemma reachable_journal_verifies_witness:
  "cv_break (verifyChain (je_sha sample_journal_env) sample_journal) = None \<and>
   cv_attested (verifyChain (je_sha sample_journal_env) sample_journal) = 2"
  unfolding reachable_journal_verifies[OF sample_journal_reachable]
  by (simp add: sample_journal_rows unattested_def sample_legacy_row_def sample_row1_def sample_row2_def)

lemma prune_exact_witness:
  "jd_rows (snd (pruneRecordsOlderThan sample_journal_env
     \<lparr>pi_cutoff = js ''3'', pi_now = js ''9'', pi_key = None\<rparr> sample_journal)) = [sample_row2]"
  using prune_exact[OF sample_journal_reachable, of "\<lparr>pi_cutoff = js ''3'', pi_now = js ''9'', pi_key = None\<rparr>"]
  by (simp add: sample_journal_rows sample_legacy_row_def sample_row1_def sample_row2_def sample_row_def
      sample_journal_env_def js_def unit_of_Char)

text \<open>The same journal without its legacy row.\<close>

definition sample_trimmed :: journal_db where
  "sample_trimmed = sample_journal\<lparr>jd_rows := [sample_row1, sample_row2]\<rparr>"


definition sample_row2_edited :: chain_row where
  "sample_row2_edited = sample_row2\<lparr>cr_record := sample_row ''3'' ''c''\<rparr>"

lemma changed_document_located_witness:
  "cv_break (verifyChain sample_sha
     (sample_journal\<lparr>jd_rows := legacy_part sample_journal @ [sample_row1] @ sample_row2_edited # []\<rparr>)) =
   Some (6, Modified)"
  using changed_document_located[OF sample_intact, of "[sample_row1]" sample_row2 "[]" sample_row2_edited sample_hash1]
  by (simp add: sample_parts sample_docs sample_row2_edited_def sample_row2_def doc_of_def sample_row_def inj_on_def
      sample_simps)

lemma removed_rows_located_witness:
  "cv_break (verifyChain sample_sha (sample_journal\<lparr>jd_rows := legacy_part sample_journal @ [] @ sample_row2 # []\<rparr>)) =
   Some (6, Gap)"
proof -
  have "distinct (resolveChainStartPrevHash sample_journal # map (\<lambda>x. the (cr_hash x)) (chained_part sample_journal))"
    by (simp add: sample_parts sample_start sample_row1_def sample_row2_def sample_simps)
  then show ?thesis
    using removed_rows_located[OF sample_intact, of "[]" "[sample_row1]" sample_row2 "[]"]
    by (simp add: sample_parts sample_row2_def del: verifyChain_parts)
qed

end
