(* ===== verification/Journal_Writer.thy ===== *)
theory Journal_Writer
  imports Journal_Chain_Safety Machine
begin

text \<open>
  The batch writer of the journal (\<open>journal/batch-writer.ts\<close>) and the sink of one session over it
  (\<open>journal/sink.ts\<close>).

  Records are buffered until there are \<open>maxRecords\<close> of them, a timer fires or somebody flushes; a batch then
  joins a chain of promises, which commits one batch after the other and tries a failed one a second time
  after a delay. The state is the closure of \<open>createBatchWriter\<close> together with the database: the buffer,
  whether the timer is armed, the batches that wait in the chain, and the batch whose commit is under way.
  A record is a row and the number of the callback that is to be settled with its outcome.
\<close>

section \<open>The retries of one commit\<close>

text \<open>One run of \<open>op\<close>: its outcome, and whether the deadline has passed when it is looked at.\<close>

datatype 'r attempt = Done 'r | Busy bool | Failed

text \<open>
  \<open>withBusyRetries\<close> on the attempts as they come: the first result, or the throw (\<open>Some None\<close>) of the first
  attempt that fails for another reason or is busy past the deadline; \<^const>\<open>None\<close> while it goes on trying.
\<close>

fun withBusyRetries :: "'r attempt list \<Rightarrow> 'r option option" where
  "withBusyRetries [] = None"
| "withBusyRetries (Done r # _) = Some (Some r)"
| "withBusyRetries (Failed # _) = Some None"
| "withBusyRetries (Busy passed # rest) = (if passed then Some None else withBusyRetries rest)"

lemma withBusyRetries_ends: "Busy True \<in> set as \<Longrightarrow> withBusyRetries as \<noteq> None"
  by (induction as rule: withBusyRetries.induct) auto

lemma withBusyRetries_result:
  "withBusyRetries as = Some (Some r) \<longleftrightarrow>
     (\<exists>n rest. as = replicate n (Busy False) @ Done r # rest)"
proof (induction as rule: withBusyRetries.induct)
  case (2 r' rest)
  then show ?case by (auto simp: Cons_eq_append_conv Cons_replicate_eq)
next
  case (4 passed rest)
  show ?case
  proof (cases passed)
    case False
    have "(\<exists>n rest'. Busy False # rest = replicate n (Busy False) @ Done r # rest') \<longleftrightarrow>
        (\<exists>n rest'. rest = replicate n (Busy False) @ Done r # rest')"
      by (metis append_Cons attempt.distinct(1) list.inject not0_implies_Suc replicate_0 replicate_Suc append_Nil)
    then show ?thesis using 4 False by simp
  qed (auto simp: Cons_eq_append_conv Cons_replicate_eq)
qed (auto simp: Cons_eq_append_conv Cons_replicate_eq)

section \<open>The writer\<close>

record buffered_record =
  br_row :: journal_row
  br_callback :: nat

datatype commit_phase = FirstTry | Waiting | SecondTry

record batch_writer =
  bw_buffered :: "buffered_record list"
  bw_timer :: bool
  bw_chain :: "buffered_record list list"
  bw_running :: "(buffered_record list \<times> commit_phase) option"
  bw_db :: journal_db

datatype writer_event =
    Enqueue buffered_record
  | TimerFires
  | ChainRuns
  | CommitSettles bool
  | DelayOver
  | FlushNow

text \<open>What the rest of the program sees: a callback settled with success or failure.\<close>

datatype settled = Settled (settled_record: buffered_record) (settled_ok: bool)

definition journal_batch_max_records :: nat where
  "journal_batch_max_records = 256"

definition commitBuffered :: "batch_writer \<Rightarrow> batch_writer" where
  "commitBuffered w =
     (let w1 = w\<lparr>bw_timer := False\<rparr>
      in if bw_buffered w1 = [] then w1
         else w1\<lparr>bw_buffered := [], bw_chain := bw_chain w1 @ [bw_buffered w1]\<rparr>)"

definition enqueue_record :: "nat \<Rightarrow> buffered_record \<Rightarrow> batch_writer \<Rightarrow> batch_writer" where
  "enqueue_record maxRecords r w =
     (let w1 = w\<lparr>bw_buffered := bw_buffered w @ [r]\<rparr>
      in if maxRecords \<le> length (bw_buffered w1) then commitBuffered w1 else w1\<lparr>bw_timer := True\<rparr>)"

definition settleAll :: "buffered_record list \<Rightarrow> bool \<Rightarrow> settled list" where
  "settleAll batch ok = map (\<lambda>r. Settled r ok) batch"

text \<open>The promise chain goes on to its next batch once nothing is under way.\<close>

definition chain_runs :: "batch_writer \<Rightarrow> batch_writer" where
  "chain_runs w =
     (case (bw_running w, bw_chain w) of
        (None, batch # rest) \<Rightarrow> w\<lparr>bw_chain := rest, bw_running := Some (batch, FirstTry)\<rparr>
      | _ \<Rightarrow> w)"

text \<open>
  \<open>commitWithRetry\<close>: the first try is settled, or waits and is tried once more, and then settled either way.
  A commit that succeeds has inserted the rows of the batch in one transaction.
\<close>

definition commit_settles :: "(jstr \<Rightarrow> jstr) \<Rightarrow> bool \<Rightarrow> batch_writer \<Rightarrow> batch_writer \<times> settled list" where
  "commit_settles sha ok w =
     (case bw_running w of
        None \<Rightarrow> (w, [])
      | Some (_, Waiting) \<Rightarrow> (w, [])
      | Some (batch, phase) \<Rightarrow>
          if ok then
            (w\<lparr>bw_running := None, bw_db := insertRecordRows sha (map br_row batch) (bw_db w)\<rparr>, settleAll batch True)
          else if phase = FirstTry then (w\<lparr>bw_running := Some (batch, Waiting)\<rparr>, [])
          else (w\<lparr>bw_running := None\<rparr>, settleAll batch False))"

definition delay_over :: "batch_writer \<Rightarrow> batch_writer" where
  "delay_over w =
     (case bw_running w of
        Some (batch, Waiting) \<Rightarrow> w\<lparr>bw_running := Some (batch, SecondTry)\<rparr>
      | _ \<Rightarrow> w)"

fun writer_step :: "(jstr \<Rightarrow> jstr) \<Rightarrow> nat \<Rightarrow> batch_writer \<Rightarrow> writer_event \<Rightarrow> batch_writer \<times> settled list" where
  "writer_step sha maxRecords w (Enqueue r) = (enqueue_record maxRecords r w, [])"
| "writer_step sha maxRecords w TimerFires = (if bw_timer w then commitBuffered w else w, [])"
| "writer_step sha maxRecords w ChainRuns = (chain_runs w, [])"
| "writer_step sha maxRecords w (CommitSettles ok) = commit_settles sha ok w"
| "writer_step sha maxRecords w DelayOver = (delay_over w, [])"
| "writer_step sha maxRecords w FlushNow = (commitBuffered w, [])"

definition createBatchWriter :: "journal_db \<Rightarrow> batch_writer" where
  "createBatchWriter db =
     \<lparr>bw_buffered = [], bw_timer = False, bw_chain = [], bw_running = None, bw_db = db\<rparr>"

section \<open>The sink of a session\<close>

record journal_record =
  rec_id :: jstr
  rec_ts :: jstr
  rec_direction :: jstr
  rec_kind :: jstr
  rec_method :: "jstr option"
  rec_json :: json

text \<open>\<open>rec_json\<close> is the whole record, \<open>stringify\<close> is \<open>JSON.stringify\<close>.\<close>

definition rowOf :: "(json \<Rightarrow> jstr) \<Rightarrow> jstr \<Rightarrow> journal_record \<Rightarrow> journal_row" where
  "rowOf stringify sid r =
     \<lparr>jr_session = sid, jr_id = rec_id r, jr_ts = rec_ts r, jr_direction = rec_direction r,
      jr_kind = rec_kind r, jr_method = rec_method r, jr_doc = stringify (rec_json r)\<rparr>"

record journal_sink =
  sk_session :: jstr
  sk_closed :: bool
  sk_warned :: bool
  sk_outstanding :: "nat list"
  sk_dropped :: nat

datatype sink_effect =
    EnqueueRow buffered_record
  | WarnWriteAfterClose
  | LogWriteError
  | OnWriteError nat

definition createJournalSink :: "jstr \<Rightarrow> journal_sink" where
  "createJournalSink sid =
     \<lparr>sk_session = sid, sk_closed = False, sk_warned = False, sk_outstanding = [], sk_dropped = 0\<rparr>"

text \<open>\<open>write\<close>, with a fresh number for the promise of the record.\<close>

definition sink_write ::
  "(json \<Rightarrow> jstr) \<Rightarrow> nat \<Rightarrow> journal_record \<Rightarrow> journal_sink \<Rightarrow> journal_sink \<times> sink_effect list" where
  "sink_write stringify n r s =
     (if sk_closed s then
        if sk_warned s then (s, []) else (s\<lparr>sk_warned := True\<rparr>, [WarnWriteAfterClose])
      else (s\<lparr>sk_outstanding := sk_outstanding s @ [n]\<rparr>,
            [EnqueueRow \<lparr>br_row = rowOf stringify (sk_session s) r, br_callback = n\<rparr>]))"

definition handleFinalFailure :: "journal_sink \<Rightarrow> journal_sink \<times> sink_effect list" where
  "handleFinalFailure s =
     (let s1 = s\<lparr>sk_dropped := sk_dropped s + 1\<rparr> in (s1, [LogWriteError, OnWriteError (sk_dropped s1)]))"

definition sink_settled :: "nat \<Rightarrow> bool \<Rightarrow> journal_sink \<Rightarrow> journal_sink \<times> sink_effect list" where
  "sink_settled n ok s =
     (let (s1, es) = (if ok then (s, []) else handleFinalFailure s)
      in (s1\<lparr>sk_outstanding := remove1 n (sk_outstanding s1)\<rparr>, es))"

definition sink_close :: "journal_sink \<Rightarrow> journal_sink" where
  "sink_close s = s\<lparr>sk_closed := True\<rparr>"

end
