(* ===== verification/Journal_Writer_Safety.thy ===== *)
theory Journal_Writer_Safety
  imports Journal_Writer
begin

text \<open>
  The batch writer loses and reorders nothing: every record is settled once, in the order it came in, and
  the rows in the database are those of the records settled with success. A flush ends after at most four
  steps of the promise chain per batch, whatever the commits do.
\<close>

section \<open>The records the writer holds\<close>

definition running_records :: "batch_writer \<Rightarrow> buffered_record list" where
  "running_records w = (case bw_running w of None \<Rightarrow> [] | Some (batch, _) \<Rightarrow> batch)"

definition held_records :: "batch_writer \<Rightarrow> buffered_record list" where
  "held_records w = running_records w @ concat (bw_chain w) @ bw_buffered w"

fun taken_records :: "writer_event \<Rightarrow> buffered_record list" where
  "taken_records (Enqueue r) = [r]"
| "taken_records _ = []"

text \<open>
  A full buffer has been committed, so the buffer stays below its limit; the timer is armed exactly while
  something is buffered, so that no record is left behind; and no batch is empty or above the limit.
\<close>

definition batch_ok :: "nat \<Rightarrow> buffered_record list \<Rightarrow> bool" where
  "batch_ok m batch \<longleftrightarrow> batch \<noteq> [] \<and> length batch \<le> m"

definition writer_ok :: "nat \<Rightarrow> batch_writer \<Rightarrow> bool" where
  "writer_ok m w \<longleftrightarrow>
     0 < m \<and> length (bw_buffered w) < m \<and> (bw_timer w \<longleftrightarrow> bw_buffered w \<noteq> []) \<and>
     (\<forall>batch \<in> set (bw_chain w). batch_ok m batch) \<and>
     (\<forall>batch phase. bw_running w = Some (batch, phase) \<longrightarrow> batch_ok m batch)"

lemma writer_ok_create: "0 < m \<Longrightarrow> writer_ok m (createBatchWriter db)"
  by (simp add: writer_ok_def createBatchWriter_def)

lemma commitBuffered_ok:
  "0 < m \<Longrightarrow> length (bw_buffered w) \<le> m \<Longrightarrow> \<forall>batch \<in> set (bw_chain w). batch_ok m batch \<Longrightarrow>
   \<forall>batch phase. bw_running w = Some (batch, phase) \<longrightarrow> batch_ok m batch \<Longrightarrow> writer_ok m (commitBuffered w)"
  by (auto simp: writer_ok_def commitBuffered_def Let_def batch_ok_def)

lemma flush_ok: "writer_ok m w \<Longrightarrow> writer_ok m (commitBuffered w)"
  by (rule commitBuffered_ok) (auto simp: writer_ok_def)

lemma commitBuffered_simps [simp]:
  "bw_running (commitBuffered w) = bw_running w" "bw_buffered (commitBuffered w) = []"
  "bw_db (commitBuffered w) = bw_db w"
  "concat (bw_chain (commitBuffered w)) = concat (bw_chain w) @ bw_buffered w"
  by (simp_all add: commitBuffered_def Let_def)

lemma commitBuffered_held [simp]: "held_records (commitBuffered w) = held_records w"
  by (simp add: held_records_def running_records_def)

lemma enqueue_ok: "writer_ok m w \<Longrightarrow> writer_ok m (enqueue_record m r w)"
  using commitBuffered_ok[of m "w\<lparr>bw_buffered := bw_buffered w @ [r]\<rparr>"]
  by (auto simp: enqueue_record_def Let_def writer_ok_def)

lemma enqueue_held: "held_records (enqueue_record m r w) = held_records w @ [r]"
  by (simp add: enqueue_record_def Let_def) (simp add: held_records_def running_records_def)

lemma chain_runs_ok: "writer_ok m w \<Longrightarrow> writer_ok m (chain_runs w)"
  by (auto simp: chain_runs_def writer_ok_def split: option.split list.split)

lemma chain_runs_held [simp]: "held_records (chain_runs w) = held_records w"
  by (auto simp: chain_runs_def held_records_def running_records_def split: option.split list.split)

lemma delay_over_ok: "writer_ok m w \<Longrightarrow> writer_ok m (delay_over w)"
  by (auto simp: delay_over_def writer_ok_def split: option.split commit_phase.split)

lemma delay_over_held [simp]: "held_records (delay_over w) = held_records w"
  by (auto simp: delay_over_def held_records_def running_records_def split: option.split commit_phase.split)

lemma commit_settles_ok: "writer_ok m w \<Longrightarrow> writer_ok m (fst (commit_settles sha ok w))"
  by (auto simp: commit_settles_def writer_ok_def split: option.split commit_phase.split)

lemma settleAll_records [simp]: "map settled_record (settleAll batch ok) = batch"
  by (simp add: settleAll_def comp_def)

lemma commit_settles_held:
  "map settled_record (snd (commit_settles sha ok w)) @ held_records (fst (commit_settles sha ok w)) = held_records w"
  by (auto simp: commit_settles_def held_records_def running_records_def split: option.split commit_phase.split)

lemma writer_step_ok: "writer_ok m w \<Longrightarrow> writer_ok m (fst (writer_step sha m w e))"
  by (cases e) (simp_all add: enqueue_ok chain_runs_ok delay_over_ok commit_settles_ok flush_ok)

lemma writer_step_held:
  "map settled_record (snd (writer_step sha m w e)) @ held_records (fst (writer_step sha m w e)) =
     held_records w @ taken_records e"
  by (cases e) (simp_all add: enqueue_held commit_settles_held)

lemma concat_singles: "concat (map (\<lambda>x. [f x]) xs) = map f xs"
  by (induction xs) simp_all

interpretation writer: lossless_machine "writer_step sha m" "writer_ok m" taken_records "\<lambda>s. [settled_record s]" held_records
  by unfold_locales (simp_all add: writer_step_ok concat_singles writer_step_held)

section \<open>What is in the database\<close>

definition written :: "settled list \<Rightarrow> journal_row list" where
  "written outs = map (br_row \<circ> settled_record) (filter settled_ok outs)"

lemma written_simps [simp]:
  "written [] = []" "written (xs @ ys) = written xs @ written ys"
  "written (settleAll batch ok) = (if ok then map br_row batch else [])"
  by (simp_all add: written_def settleAll_def filter_map comp_def)

lemma writer_step_db: "bw_db (fst (writer_step sha m w e)) = insertRecordRows sha (written (snd (writer_step sha m w e))) (bw_db w)"
  by (cases e) (auto simp: enqueue_record_def Let_def chain_runs_def delay_over_def commit_settles_def insertRecordRows_def
      split: option.split list.split commit_phase.split)

lemma writer_run_db:
  "journal_reachable env (bw_db w) \<Longrightarrow>
   journal_reachable env (bw_db (fst (run (writer_step (je_sha env) m) w es))) \<and>
   map cr_record (jd_rows (bw_db (fst (run (writer_step (je_sha env) m) w es)))) =
     map cr_record (jd_rows (bw_db w)) @ written (snd (run (writer_step (je_sha env) m) w es))"
proof (induction es arbitrary: w)
  case (Cons e es)
  let ?w = "fst (writer_step (je_sha env) m w e)" and ?outs = "snd (writer_step (je_sha env) m w e)"
  have db: "bw_db ?w = insertRecordRows (je_sha env) (written ?outs) (bw_db w)" by (rule writer_step_db)
  have "journal_reachable env (bw_db ?w)" unfolding db by (rule journal_reachable.append[OF Cons.prems])
  moreover have "map cr_record (jd_rows (bw_db ?w)) = map cr_record (jd_rows (bw_db w)) @ written ?outs"
    unfolding db by (rule insertRecordRows_ok(4)[OF journal_reachable_ok[OF Cons.prems]])
  ultimately show ?case using Cons.IH[of ?w] by (simp add: run_Cons_fst run_Cons_snd del: run.simps)
qed simp

text \<open>
  C32. The writer settles every record it was given exactly once and in the order they came in, apart from
  those it still holds, and the journal has grown by exactly the rows of the records it settled with
  success, in that order, each linked into a chain that verifies.
\<close>

theorem writer_settles_in_order:
  assumes "0 < m" and "journal_reachable env db"
    and "run (writer_step (je_sha env) m) (createBatchWriter db) es = (w, outs)"
  shows "map settled_record outs @ held_records w = concat (map taken_records es) \<and>
    map cr_record (jd_rows (bw_db w)) =
      map cr_record (jd_rows db) @ map (br_row \<circ> settled_record) (filter settled_ok outs) \<and>
    cv_break (verifyChain (je_sha env) (bw_db w)) = None"
proof -
  have "map settled_record outs @ held_records w = concat (map taken_records es)"
    using writer.run_lossless[OF writer_ok_create[OF assms(1)], of "je_sha env" db es] assms(3)
    by (simp add: concat_singles) (simp add: held_records_def running_records_def createBatchWriter_def)
  moreover have "bw_db (createBatchWriter db) = db" by (simp add: createBatchWriter_def)
  ultimately show ?thesis
    using writer_run_db[of env "createBatchWriter db" m es] assms(2,3)
      journal_okD(5)[OF journal_reachable_ok[of env "bw_db w"]]
    by (simp add: verify_iff written_def)
qed

text \<open>
  No record is left behind: a record that is held and not yet in a batch has an armed timer, the buffer
  stays below the limit, and no batch has more rows than that.
\<close>

lemma writer_bounded:
  assumes "0 < m"
  shows "writer_ok m (fst (run (writer_step sha m) (createBatchWriter db) es))"
  by (rule writer.run_ok[OF writer_ok_create[OF assms]])

section \<open>A flush ends\<close>

text \<open>What happens next to the promise chain when the commits succeed and fail as \<open>f\<close> says.\<close>

definition next_event :: "bool \<Rightarrow> batch_writer \<Rightarrow> writer_event option" where
  "next_event ok w =
     (case bw_running w of
        None \<Rightarrow> if bw_chain w = [] then None else Some ChainRuns
      | Some (_, Waiting) \<Rightarrow> Some DelayOver
      | Some _ \<Rightarrow> Some (CommitSettles ok))"

fun drain :: "(jstr \<Rightarrow> jstr) \<Rightarrow> nat \<Rightarrow> (nat \<Rightarrow> bool) \<Rightarrow> nat \<Rightarrow> batch_writer \<Rightarrow> batch_writer \<times> settled list" where
  "drain sha m f 0 w = (w, [])"
| "drain sha m f (Suc n) w =
     (case next_event (f n) w of
        None \<Rightarrow> (w, [])
      | Some e \<Rightarrow>
          (let (w1, outs) = writer_step sha m w e; (w2, more) = drain sha m f n w1 in (w2, outs @ more)))"

text \<open>The steps that are left: four for a batch that waits, and fewer for the one under way.\<close>

definition chain_work :: "batch_writer \<Rightarrow> nat" where
  "chain_work w = 4 * length (bw_chain w) +
     (case bw_running w of None \<Rightarrow> 0 | Some (_, FirstTry) \<Rightarrow> 3 | Some (_, Waiting) \<Rightarrow> 2 | Some (_, SecondTry) \<Rightarrow> 1)"

lemma next_event_works:
  assumes "next_event ok w = Some e"
  shows "chain_work (fst (writer_step sha m w e)) < chain_work w"
    and "bw_buffered (fst (writer_step sha m w e)) = bw_buffered w" and "taken_records e = []"
  using assms
  by (auto simp: next_event_def chain_work_def chain_runs_def delay_over_def commit_settles_def neq_Nil_conv
      split: option.splits if_splits commit_phase.splits)

lemma next_event_None: "next_event ok w = None \<longleftrightarrow> bw_running w = None \<and> bw_chain w = []"
  by (auto simp: next_event_def split: option.split commit_phase.split)

lemma drain_settles:
  assumes "chain_work w \<le> n" and "bw_buffered w = []"
  shows "map settled_record (snd (drain sha m f n w)) = held_records w \<and> held_records (fst (drain sha m f n w)) = []"
  using assms
proof (induction n arbitrary: w)
  case 0
  then have "bw_running w = None" "bw_chain w = []"
    by (auto simp: chain_work_def split: option.splits commit_phase.splits)
  with 0 show ?case by (simp add: held_records_def running_records_def)
next
  case (Suc n)
  show ?case
  proof (cases "next_event (f n) w")
    case None
    then have "bw_running w = None \<and> bw_chain w = []" by (simp add: next_event_None)
    then show ?thesis by (simp add: None Suc.prems(2) held_records_def running_records_def)
  next
    case (Some e)
    note works = next_event_works(1,2)[OF Some, of sha m] next_event_works(3)[OF Some]
    have "chain_work (fst (writer_step sha m w e)) \<le> n" using works(1) Suc.prems(1) by linarith
    with Suc.IH works(2) Suc.prems(2)
    have "map settled_record (snd (drain sha m f n (fst (writer_step sha m w e)))) =
          held_records (fst (writer_step sha m w e)) \<and>
        held_records (fst (drain sha m f n (fst (writer_step sha m w e)))) = []" by simp
    with Some works(3) writer_step_held[of sha m w e] show ?thesis
      by (simp add: split_beta)
  qed
qed

text \<open>
  C33. A flush ends, whatever the commits do: at most four steps of the promise chain for each batch that waits
  and for the one under way settle every record the writer held when it was flushed, in order.
\<close>

theorem flush_ends:
  "map settled_record (snd (drain sha m f (4 * length (bw_chain w) + 7) (commitBuffered w))) = held_records w \<and>
   held_records (fst (drain sha m f (4 * length (bw_chain w) + 7) (commitBuffered w))) = []"
proof -
  have "length (bw_chain (commitBuffered w)) \<le> length (bw_chain w) + 1"
    by (simp add: commitBuffered_def Let_def)
  then have "chain_work (commitBuffered w) \<le> 4 * length (bw_chain w) + 7"
    by (auto simp: chain_work_def split: option.split commit_phase.split)
  from drain_settles[OF this, of sha m f] show ?thesis by simp
qed

section \<open>The sink\<close>

lemma sink_closed_writes_nothing:
  "sk_closed s \<Longrightarrow> EnqueueRow r \<notin> set (snd (sink_write stringify n rec s))"
  by (simp add: sink_write_def)

lemma sink_counts_failures:
  "sk_dropped (fst (sink_settled n ok s)) = sk_dropped s + (if ok then 0 else 1)"
  by (simp add: sink_settled_def handleFinalFailure_def Let_def)

lemma writer_settles_in_order_witness:
  "map settled_record (snd (run (writer_step sample_sha 2) (createBatchWriter sample_legacy)
       [Enqueue \<lparr>br_row = sample_row ''2'' ''a'', br_callback = 0\<rparr>,
        Enqueue \<lparr>br_row = sample_row ''3'' ''b'', br_callback = 1\<rparr>, ChainRuns, CommitSettles False, DelayOver,
        CommitSettles True])) =
     [\<lparr>br_row = sample_row ''2'' ''a'', br_callback = 0\<rparr>, \<lparr>br_row = sample_row ''3'' ''b'', br_callback = 1\<rparr>]"
proof -
  let ?es = "[Enqueue \<lparr>br_row = sample_row ''2'' ''a'', br_callback = 0\<rparr>,
        Enqueue \<lparr>br_row = sample_row ''3'' ''b'', br_callback = 1\<rparr>, ChainRuns, CommitSettles False, DelayOver,
        CommitSettles True]"
  let ?r = "run (writer_step (je_sha sample_journal_env) 2) (createBatchWriter sample_legacy) ?es"
  have "map settled_record (snd ?r) @ held_records (fst ?r) = concat (map taken_records ?es)"
    using writer_settles_in_order[of 2 sample_journal_env sample_legacy ?es "fst ?r" "snd ?r"]
      journal_reachable.legacy[OF sample_legacy_ok] by (simp del: run.simps)
  moreover have "held_records (fst ?r) = []"
    by (simp add: createBatchWriter_def enqueue_record_def Let_def commitBuffered_def chain_runs_def commit_settles_def
        delay_over_def held_records_def running_records_def)
  ultimately show ?thesis by (simp add: sample_journal_env_def del: run.simps)
qed

lemma writer_bounded_witness:
  "writer_ok 2 (fst (run (writer_step sample_sha 2) (createBatchWriter sample_legacy)
     [Enqueue \<lparr>br_row = sample_row ''2'' ''a'', br_callback = 0\<rparr>, TimerFires]))"
  by (rule writer_bounded) simp

end
