(* ===== verification/File_Names.thy ===== *)
theory File_Names
  imports Text
begin

text \<open>
  Names, paths and identities of the file tools (\<open>files/names.ts\<close>, \<open>files/identity.ts\<close>,
  \<open>files/volume.ts\<close>) on a POSIX platform, with the functions of Node's \<open>path.posix\<close> they call.

  Unicode normalization, letter case and the system calls are fields of the environment: \<open>fe_realpath\<close>
  (the canonical path or the code of the error), \<open>fe_lstat\<close> (nothing when it throws) and the volume's type
  as \<open>statfs\<close> or the mount table has it. One check reads one state of the file system.
\<close>

section \<open>Paths\<close>

definition slash :: u16 where
  "slash = 47"

definition backslash :: u16 where
  "backslash = 92"

definition dot :: u16 where
  "dot = 46"

fun split_by :: "('a \<Rightarrow> bool) \<Rightarrow> 'a list \<Rightarrow> 'a list list" where
  "split_by sep [] = [[]]"
| "split_by sep (x # xs) =
     (if sep x then [] # split_by sep xs
      else case split_by sep xs of [] \<Rightarrow> [[x]] | s # ss \<Rightarrow> (x # s) # ss)"

definition isAbsolute :: "jstr \<Rightarrow> bool" where
  "isAbsolute p \<longleftrightarrow> p \<noteq> [] \<and> hd p = slash"

text \<open>The segments that are left when \<open>.\<close> is dropped and \<open>..\<close> takes the one before it away.\<close>

fun clean_segments :: "jstr list \<Rightarrow> jstr list \<Rightarrow> jstr list" where
  "clean_segments done_rev [] = rev done_rev"
| "clean_segments done_rev (s # ss) =
     (if s = [] \<or> s = [dot] then clean_segments done_rev ss
      else if s = [dot, dot] then clean_segments (tl done_rev) ss
      else clean_segments (s # done_rev) ss)"

definition absolute_segments :: "jstr \<Rightarrow> jstr list" where
  "absolute_segments p = clean_segments [] (split_on slash p)"

definition of_segments :: "jstr list \<Rightarrow> jstr" where
  "of_segments ss = slash # join_with [slash] ss"

text \<open>\<open>path.resolve\<close> of one argument, \<open>path.join\<close> on an absolute path, \<open>path.relative\<close>.\<close>

definition path_resolve :: "jstr \<Rightarrow> jstr \<Rightarrow> jstr" where
  "path_resolve cwd p = of_segments (absolute_segments (if isAbsolute p then p else cwd @ [slash] @ p))"

definition path_join :: "jstr \<Rightarrow> jstr list \<Rightarrow> jstr" where
  "path_join p rest = of_segments (absolute_segments (join_with [slash] (p # rest)))"

fun common_prefix :: "'a list \<Rightarrow> 'a list \<Rightarrow> nat" where
  "common_prefix (x # xs) (y # ys) = (if x = y then Suc (common_prefix xs ys) else 0)"
| "common_prefix _ _ = 0"

definition path_relative :: "jstr \<Rightarrow> jstr \<Rightarrow> jstr \<Rightarrow> jstr" where
  "path_relative cwd from to =
     (let f = absolute_segments (path_resolve cwd from); t = absolute_segments (path_resolve cwd to);
          n = common_prefix f t
      in join_with [slash] (replicate (length f - n) [dot, dot] @ drop n t))"

text \<open>
  \<open>path.dirname\<close>: what is in front of the last separator that has a name behind it. The first unit is never
  taken for that separator.
\<close>

definition path_dirname :: "jstr \<Rightarrow> jstr" where
  "path_dirname p =
     (if p = [] then [dot]
      else case dropWhile (\<lambda>c. c \<noteq> slash) (dropWhile (\<lambda>c. c = slash) (rev (tl p))) of
             [] \<Rightarrow> (if isAbsolute p then [slash] else [dot])
           | _ # front \<Rightarrow> (if isAbsolute p \<and> front = [] then [slash, slash] else hd p # rev front))"

definition path_basename :: "jstr \<Rightarrow> jstr" where
  "path_basename p = rev (takeWhile (\<lambda>c. c \<noteq> slash) (dropWhile (\<lambda>c. c = slash) (rev p)))"

text \<open>How far a path is from the fixed point of \<open>dirname\<close>.\<close>

definition dirname_steps :: "jstr \<Rightarrow> nat" where
  "dirname_steps p = (if p = [dot] then 0 else Suc (length p))"

lemma path_dirname_Nil:
  "dropWhile (\<lambda>c. c \<noteq> slash) (dropWhile (\<lambda>c. c = slash) (rev xs)) = [] \<Longrightarrow>
   path_dirname (x # xs) = (if x = slash then [slash] else [dot])"
  by (simp add: path_dirname_def isAbsolute_def del: dropWhile_eq_Nil_conv)

lemma path_dirname_Cons:
  "dropWhile (\<lambda>c. c \<noteq> slash) (dropWhile (\<lambda>c. c = slash) (rev xs)) = c # front \<Longrightarrow>
   path_dirname (x # xs) = (if x = slash \<and> front = [] then [slash, slash] else x # rev front)"
  by (simp add: path_dirname_def isAbsolute_def del: dropWhile_eq_Cons_conv)

lemma path_dirname_shorter:
  assumes "path_dirname p \<noteq> p"
  shows "dirname_steps (path_dirname p) < dirname_steps p"
proof (cases "p = []")
  case False
  then obtain x xs where p: "p = x # xs" by (cases p) auto
  let ?r = "dropWhile (\<lambda>c. c \<noteq> slash) (dropWhile (\<lambda>c. c = slash) (rev xs))"
  have len: "length ?r \<le> length xs"
    using length_dropWhile_le[of "\<lambda>c. c \<noteq> slash" "dropWhile (\<lambda>c. c = slash) (rev xs)"]
      length_dropWhile_le[of "\<lambda>c. c = slash" "rev xs"] by simp
  show ?thesis
  proof (cases ?r)
    case Nil
    show ?thesis
    proof (cases "x = slash")
      case True
      then show ?thesis using assms path_dirname_Nil[OF Nil, of x] by (cases xs) (auto simp: p dirname_steps_def slash_def dot_def)
    next
      case False
      then show ?thesis using assms path_dirname_Nil[OF Nil, of x] by (auto simp: p dirname_steps_def)
    qed
  next
    case (Cons c front)
    have "c = slash" using hd_dropWhile[of "\<lambda>c. c \<noteq> slash" "dropWhile (\<lambda>c. c = slash) (rev xs)"] Cons by simp
    obtain y ys where d: "dropWhile (\<lambda>c. c = slash) (rev xs) = y # ys" using Cons by (cases "dropWhile (\<lambda>c. c = slash) (rev xs)") auto
    then have "y \<noteq> slash" using hd_dropWhile[of "\<lambda>c. c = slash" "rev xs"] by auto
    then have "length (c # front) \<le> length ys" using Cons d length_dropWhile_le[of "\<lambda>c. c \<noteq> slash" ys] by simp
    then have two: "Suc (Suc (length front)) \<le> length xs"
      using d length_dropWhile_le[of "\<lambda>c. c = slash" "rev xs"] by simp
    show ?thesis
      using two path_dirname_Cons[OF Cons, of x] by (auto simp: p dirname_steps_def slash_def dot_def)
  qed
qed (use assms in \<open>simp add: path_dirname_def dirname_steps_def\<close>)

text \<open>A path and the folders above it, up to the fixed point.\<close>

function path_ancestors :: "jstr \<Rightarrow> jstr list" where
  "path_ancestors p = (if path_dirname p = p then [p] else p # path_ancestors (path_dirname p))"
  by pat_completeness auto
termination
  by (relation "measure dirname_steps") (auto intro: path_dirname_shorter)

declare path_ancestors.simps [simp del]

section \<open>Identities\<close>

record file_id =
  fi_dev :: int
  fi_ino :: int

record chain_entry =
  ce_path :: jstr
  ce_id :: file_id

record id_stat =
  st_id :: file_id
  st_directory :: bool
  st_link :: bool

definition isUsableIdentity :: "file_id \<Rightarrow> bool" where
  "isUsableIdentity i \<longleftrightarrow> fi_ino i \<noteq> 0"

definition identitiesCollapse :: "file_id \<Rightarrow> file_id option \<Rightarrow> bool" where
  "identitiesCollapse folder trash \<longleftrightarrow>
     (if \<not> isUsableIdentity folder then True
      else case trash of None \<Rightarrow> False | Some t \<Rightarrow> \<not> isUsableIdentity t \<or> folder = t)"

fun hasDuplicateIdentity :: "chain_entry list \<Rightarrow> bool" where
  "hasDuplicateIdentity [] \<longleftrightarrow> False"
| "hasDuplicateIdentity (e # es) \<longleftrightarrow> (\<exists>x \<in> set es. ce_id x = ce_id e) \<or> hasDuplicateIdentity es"

definition existingChain :: "(jstr \<Rightarrow> id_stat option) \<Rightarrow> jstr \<Rightarrow> chain_entry list" where
  "existingChain stat canonical =
     List.map_filter (\<lambda>p. map_option (\<lambda>s. \<lparr>ce_path = p, ce_id = st_id s\<rparr>) (stat p)) (path_ancestors canonical)"

section \<open>Volumes\<close>

datatype volume_kind = LocalVolume | NetworkVolume jstr

record darwin_mount =
  dm_point :: jstr
  dm_type :: jstr
  dm_local :: bool

datatype volume_source = Statfs "jstr \<Rightarrow> int option" | DarwinMounts "darwin_mount list"

definition network_magics :: "(32 word \<times> jstr) list" where
  "network_magics = [(0x6969, js ''nfs''), (0x517b, js ''smb''), (0xff534d42, js ''cifs''), (0xfe534d42, js ''smb2''),
     (0x65735546, js ''fuse''), (0x01021997, js ''v9fs''), (0x5346414f, js ''afs''), (0x6b414653, js ''afs''),
     (0x73757245, js ''coda''), (0x00c36400, js ''ceph''), (0x47504653, js ''gpfs''), (0x0bd00bd0, js ''lustre'')]"

definition unknown_volume :: volume_kind where
  "unknown_volume = NetworkVolume (js ''unknown'')"

definition mount_holds :: "jstr \<Rightarrow> jstr \<Rightarrow> bool" where
  "mount_holds point target \<longleftrightarrow> point = [slash] \<or> target = point \<or> prefix (point @ [slash]) target"

definition longer_mount :: "darwin_mount option \<Rightarrow> darwin_mount \<Rightarrow> darwin_mount option" where
  "longer_mount best m =
     (case best of None \<Rightarrow> Some m
      | Some b \<Rightarrow> Some (if length (dm_point b) < length (dm_point m) then m else b))"

definition darwinVolumeOf :: "jstr \<Rightarrow> darwin_mount list \<Rightarrow> volume_kind" where
  "darwinVolumeOf target mounts =
     (case foldl longer_mount None (filter (\<lambda>m. mount_holds (dm_point m) target) mounts) of
        None \<Rightarrow> unknown_volume
      | Some m \<Rightarrow> if dm_local m then LocalVolume
                  else NetworkVolume (if dm_type m = [] then js ''unknown'' else dm_type m))"

text \<open>\<open>type >>> 0\<close> is the unsigned value of the 32-bit number.\<close>

definition volumeKindOf :: "volume_source \<Rightarrow> jstr \<Rightarrow> volume_kind" where
  "volumeKindOf src canonical =
     (case src of
        DarwinMounts mounts \<Rightarrow> darwinVolumeOf canonical mounts
      | Statfs statfsType \<Rightarrow>
          (case statfsType canonical of
             None \<Rightarrow> unknown_volume
           | Some t \<Rightarrow>
               (case map_of network_magics (word_of_int t) of
                  Some name \<Rightarrow> NetworkVolume name
                | None \<Rightarrow> LocalVolume)))"

section \<open>Names\<close>

record files_env =
  fe_realpath :: "jstr \<Rightarrow> jstr + jstr"
  fe_lstat :: "jstr \<Rightarrow> id_stat option"
  fe_volume :: volume_source
  fe_cwd :: jstr
  fe_folds :: bool
  fe_nfc :: "jstr \<Rightarrow> jstr"
  fe_nfkc :: "jstr \<Rightarrow> jstr"
  fe_upper :: "jstr \<Rightarrow> jstr"
  fe_lower :: "jstr \<Rightarrow> jstr"
  fe_redact :: "jstr \<Rightarrow> jstr"

definition trash_dir_name :: jstr where
  "trash_dir_name = js ''.mcpcut-trash''"

definition project_policy_subdir :: jstr where
  "project_policy_subdir = js ''.mcpcut-project''"

definition is_separator :: "u16 \<Rightarrow> bool" where
  "is_separator c \<longleftrightarrow> c = slash \<or> c = backslash"

definition dot_or_space :: "u16 \<Rightarrow> bool" where
  "dot_or_space c \<longleftrightarrow> c = dot \<or> c = 32"

definition foldName :: "files_env \<Rightarrow> jstr \<Rightarrow> jstr" where
  "foldName env segment =
     rev (dropWhile dot_or_space (rev (fe_lower env (fe_upper env (fe_nfkc env segment)))))"

definition hasSegmentFolded :: "files_env \<Rightarrow> jstr \<Rightarrow> jstr \<Rightarrow> bool" where
  "hasSegmentFolded env value name \<longleftrightarrow>
     (\<exists>s \<in> set (split_by is_separator value). s \<noteq> [] \<and> foldName env s = name)"

definition hasTrashSegment :: "files_env \<Rightarrow> jstr \<Rightarrow> bool" where
  "hasTrashSegment env relative \<longleftrightarrow> hasSegmentFolded env relative trash_dir_name"

definition lexicalKey :: "files_env \<Rightarrow> jstr \<Rightarrow> jstr" where
  "lexicalKey env value = (if fe_folds env then fe_lower env (fe_nfc env value) else value)"

definition isWithinOn :: "files_env \<Rightarrow> jstr \<Rightarrow> jstr \<Rightarrow> bool" where
  "isWithinOn env root target =
     (let relative = path_relative (fe_cwd env) root target
      in if relative = [] then True
         else relative \<noteq> [dot, dot] \<and> \<not> prefix [dot, dot, slash] relative \<and> \<not> isAbsolute relative)"

definition isLexicallyUnder :: "files_env \<Rightarrow> jstr \<Rightarrow> jstr list \<Rightarrow> bool" where
  "isLexicallyUnder env target rootSpellings =
     (let key = lexicalKey env target
      in list_ex (\<lambda>root. isWithinOn env (lexicalKey env root) key) rootSpellings)"

definition segmentCount :: "jstr \<Rightarrow> nat" where
  "segmentCount value = length (filter (\<lambda>s. s \<noteq> []) (split_by is_separator value))"

text \<open>\<open>checkName\<close> looks at names on Windows only.\<close>

definition hasDotSegment :: "jstr \<Rightarrow> bool" where
  "hasDotSegment raw \<longleftrightarrow> (\<exists>s \<in> set (split_by is_separator raw). s = [dot] \<or> s = [dot, dot])"

section \<open>What a path is within\<close>

definition clean :: "jstr list \<Rightarrow> bool" where
  "clean ss \<longleftrightarrow> (\<forall>s \<in> set ss. s \<noteq> [] \<and> s \<noteq> [dot] \<and> s \<noteq> [dot, dot] \<and> slash \<notin> set s)"

lemma clean_segments_clean:
  "clean done_rev \<Longrightarrow> \<forall>s \<in> set ss. slash \<notin> set s \<Longrightarrow> clean (clean_segments done_rev ss)"
proof (induction done_rev ss rule: clean_segments.induct)
  case (2 done_rev s ss)
  have rest: "\<forall>x \<in> set ss. slash \<notin> set x" and s: "slash \<notin> set s" using "2.prems"(2) by auto
  have popped: "clean (tl done_rev)" using "2.prems"(1) by (cases done_rev) (auto simp: clean_def)
  consider "s = [] \<or> s = [dot]" | "\<not> (s = [] \<or> s = [dot])" "s = [dot, dot]"
    | "\<not> (s = [] \<or> s = [dot])" "s \<noteq> [dot, dot]" by blast
  then show ?case
  proof cases
    case 1
    from "2.IH"(1)[OF 1 "2.prems"(1) rest] 1 show ?thesis by simp
  next
    case 2
    from "2.IH"(2)[OF 2 popped rest] 2 show ?thesis by simp
  next
    case 3
    have "clean (s # done_rev)" using "2.prems"(1) 3 s by (simp add: clean_def)
    from "2.IH"(3)[OF 3 this rest] 3 show ?thesis by simp
  qed
qed (simp add: clean_def)

lemma absolute_segments_clean: "clean (absolute_segments p)"
  unfolding absolute_segments_def by (rule clean_segments_clean) (auto simp: clean_def dest: split_on_no_sep)

lemma clean_segments_id: "clean ss \<Longrightarrow> clean_segments done_rev ss = rev done_rev @ ss"
  by (induction ss arbitrary: done_rev) (auto simp: clean_def)

lemma split_of_segments:
  assumes "clean ss" and "ss \<noteq> []"
  shows "split_on slash (join_with [slash] ss) = ss"
  using assms by (intro split_join) (auto simp: clean_def)

lemma absolute_segments_of: "clean ss \<Longrightarrow> absolute_segments (of_segments ss) = ss"
  by (cases "ss = []") (simp_all add: absolute_segments_def of_segments_def split_of_segments clean_segments_id)

lemma absolute_segments_resolve:
  "isAbsolute p \<Longrightarrow> absolute_segments (path_resolve cwd p) = absolute_segments p"
  by (simp add: path_resolve_def absolute_segments_of absolute_segments_clean)

lemma common_prefix_take: "take (common_prefix f t) t = take (common_prefix f t) f"
  by (induction f t rule: common_prefix.induct) auto

lemma common_prefix_le: "common_prefix f t \<le> length f" "common_prefix f t \<le> length t"
  by (induction f t rule: common_prefix.induct) auto

lemma common_prefix_prefix: "length f = common_prefix f t \<longleftrightarrow> prefix f t"
  by (induction f t rule: common_prefix.induct) auto

text \<open>Within means that the segments of the root come first.\<close>

lemma isWithinOn_iff:
  assumes "isAbsolute root" and "isAbsolute target"
  shows "isWithinOn env root target \<longleftrightarrow> prefix (absolute_segments root) (absolute_segments target)"
proof -
  let ?f = "absolute_segments root" and ?t = "absolute_segments target"
  let ?n = "common_prefix ?f ?t"
  define rel where "rel = path_relative (fe_cwd env) root target"
  have rel: "rel = join_with [slash] (replicate (length ?f - ?n) [dot, dot] @ drop ?n ?t)"
    by (simp add: rel_def path_relative_def Let_def assms absolute_segments_resolve)
  have cl: "clean (drop ?n ?t)" using absolute_segments_clean[of target] by (auto simp: clean_def dest: in_set_dropD)
  have abs: "\<not> isAbsolute (join_with [slash] ss)" if "\<forall>s \<in> set ss. s \<noteq> [] \<and> hd s \<noteq> slash" for ss
    using that by (cases "([slash], ss)" rule: join_with.cases) (auto simp: isAbsolute_def)
  show ?thesis
  proof (cases "length ?f = ?n")
    case True
    then have r: "rel = join_with [slash] (drop ?n ?t)" by (simp add: rel)
    have "\<forall>s \<in> set (drop ?n ?t). s \<noteq> [] \<and> hd s \<noteq> slash"
      using cl by (metis clean_def list.set_sel(1))
    then have "\<not> isAbsolute rel" unfolding r by (rule abs)
    moreover have "rel \<noteq> [dot, dot] \<and> \<not> prefix [dot, dot, slash] rel"
    proof (cases "drop ?n ?t")
      case (Cons s ss)
      have s: "s \<noteq> [dot, dot]" "slash \<notin> set s" using cl Cons by (auto simp: clean_def)
      have ne: "dot \<noteq> slash" by (simp add: dot_def slash_def)
      have split: "split_on slash rel = s # ss" unfolding r using split_of_segments[OF cl] Cons by simp
      show ?thesis
      proof (intro conjI notI)
        assume "rel = [dot, dot]"
        with split ne s(1) show False by simp
      next
        assume "prefix [dot, dot, slash] rel"
        then obtain rest where "rel = [dot, dot, slash] @ rest" by (auto simp: prefix_def)
        with split ne s(1) show False by (simp split: list.splits)
      qed
    qed (simp add: r)
    ultimately have "isWithinOn env root target" unfolding isWithinOn_def rel_def[symmetric] Let_def by simp
    then show ?thesis using common_prefix_prefix True by metis
  next
    case False
    then obtain k where k: "length ?f - ?n = Suc k"
      using common_prefix_le(1)[of ?f ?t] by (cases "length ?f - ?n") auto
    have "rel = [dot, dot] \<or> prefix [dot, dot, slash] rel"
      by (cases "replicate k [dot, dot] @ drop ?n ?t") (simp_all add: rel k)
    moreover have "rel \<noteq> []"
      by (cases "replicate k [dot, dot] @ drop ?n ?t") (simp_all add: rel k)
    ultimately have "\<not> isWithinOn env root target" unfolding isWithinOn_def rel_def[symmetric] Let_def by auto
    then show ?thesis using common_prefix_prefix False by metis
  qed
qed

end
