(* ===== verification/File_Paths.thy ===== *)
theory File_Paths
  imports File_Names
begin

text \<open>
  The resolution of a path an agent names against the roots of the file module (\<open>files/paths.ts\<close>): what is
  refused, and what an accepted path is known to be.
\<close>

section \<open>Refusals\<close>

datatype path_refusal =
    EmptyPath | NulByte | TooLong | NotAbsolute | ReservedName | DevicePath | OutsideRoots | DanglingSymlink
  | InTrash | Unresolvable | DotSegment | McpcutSettings | NonCanonical | SecretLikeName

fun refusal_str :: "path_refusal \<Rightarrow> jstr" where
  "refusal_str EmptyPath = js ''empty''"
| "refusal_str NulByte = js ''nul-byte''"
| "refusal_str TooLong = js ''too-long''"
| "refusal_str NotAbsolute = js ''not-absolute''"
| "refusal_str ReservedName = js ''reserved-name''"
| "refusal_str DevicePath = js ''device-path''"
| "refusal_str OutsideRoots = js ''outside-roots''"
| "refusal_str DanglingSymlink = js ''dangling-symlink''"
| "refusal_str InTrash = js ''trash''"
| "refusal_str Unresolvable = js ''unresolvable''"
| "refusal_str DotSegment = js ''dot-segment''"
| "refusal_str McpcutSettings = js ''mcpcut-settings''"
| "refusal_str NonCanonical = js ''non-canonical''"
| "refusal_str SecretLikeName = js ''secret-like-name''"

definition max_path_length :: nat where
  "max_path_length = 4096"

definition list_roots_hint :: jstr where
  "list_roots_hint = js ''call list_roots to see your folders''"

text \<open>The dash, ellipsis and backslashes of the messages.\<close>

definition dash :: jstr where
  "dash = [0x20, 0x2014, 0x20]"

definition ellipsis :: jstr where
  "ellipsis = [0x2026]"

fun refusal_message :: "path_refusal \<Rightarrow> jstr" where
  "refusal_message EmptyPath = js ''The path is empty'' @ dash @ list_roots_hint @ js ''.''"
| "refusal_message NulByte = js ''The path contains a NUL byte and was refused.''"
| "refusal_message TooLong = js ''The path is longer than 4096 characters and was refused.''"
| "refusal_message NotAbsolute = js ''Use an absolute path inside one of your folders'' @ dash @ list_roots_hint @ js ''.''"
| "refusal_message ReservedName =
     js ''The path has a name Windows reserves (CON, NUL, COM1'' @ ellipsis @
     js '', a stream after '' @ [34, 58, 34] @ js '', or a trailing dot or space).''"
| "refusal_message DevicePath =
     js ''Device and extended paths ('' @ [92, 92, 46, 92] @ js '', '' @ [92, 92, 63, 92] @ js '') are refused'' @
     dash @ list_roots_hint @ js ''.''"
| "refusal_message OutsideRoots = js ''The path is outside your folders'' @ dash @ list_roots_hint @ js ''.''"
| "refusal_message DanglingSymlink =
     js ''The path is a symbolic link to something that does not exist and was refused.''"
| "refusal_message InTrash =
     js ''The trash is not reachable through file tools; an administrator restores files from it.''"
| "refusal_message Unresolvable =
     js ''The path could not be resolved (a link loop or a folder that cannot be read).''"
| "refusal_message DotSegment =
     js ''The path has a '' @ [34, 46, 34] @ js '' or '' @ [34, 46, 46, 34] @ js '' segment: send the full path without them'' @
     dash @ list_roots_hint @ js ''.''"
| "refusal_message McpcutSettings =
     js ''The path is inside '' @ project_policy_subdir @
     js '', mcpcut'' @ [39] @ js ''s own project settings, which file tools never touch'' @ dash @ list_roots_hint @ js ''.''"
| "refusal_message NonCanonical =
     js ''The path reaches the file through a link or under another spelling of a name: use the names list_directory shows, folder by folder from list_roots.''"
| "refusal_message SecretLikeName =
     js ''The path has a name that looks like a secret (an API key or token), which the journal would hide: choose another name'' @
     dash @ list_roots_hint @ js ''.''"

record refused =
  rf_kind :: path_refusal
  rf_text :: jstr

definition refuse :: "path_refusal \<Rightarrow> refused" where
  "refuse k = \<lparr>rf_kind = k, rf_text = refusal_message k\<rparr>"

definition networkVolumeRefusal :: "jstr \<Rightarrow> refused" where
  "networkVolumeRefusal fsType =
     \<lparr>rf_kind = Unresolvable,
      rf_text = js ''The path is on a network or FUSE drive ('' @ fsType @
        js ''), where folders cannot be told apart reliably, so it is not reachable through file tools; ask an administrator.''\<rparr>"

definition unreliable_identities :: refused where
  "unreliable_identities =
     \<lparr>rf_kind = Unresolvable,
      rf_text = js ''The path could not be resolved safely: file identities are not reliable on this file system, so folders cannot be told apart; ask an administrator.''\<rparr>"

definition send_exactly :: "jstr \<Rightarrow> refused" where
  "send_exactly p =
     \<lparr>rf_kind = NonCanonical, rf_text = js ''Send the path exactly as list_directory shows it: '' @ p\<rparr>"

section \<open>Resolving\<close>

record resolved_path =
  rp_root :: jstr
  rp_absolute :: jstr
  rp_relative :: jstr
  rp_exists :: bool
  rp_chain :: "chain_entry list"

record root_info =
  ri_declared :: jstr
  ri_canonical :: jstr
  ri_identity :: file_id
  ri_trash :: "file_id option"

definition checkSyntax :: "jstr \<Rightarrow> path_refusal option" where
  "checkSyntax raw =
     (if raw = [] then Some EmptyPath
      else if 0 \<in> set raw then Some NulByte
      else if max_path_length < length raw then Some TooLong
      else if isAbsolute raw then None else Some NotAbsolute)"

datatype real_outcome = RealFound jstr | RealMissing | RealError

definition realpathOf :: "files_env \<Rightarrow> jstr \<Rightarrow> real_outcome" where
  "realpathOf env target =
     (case fe_realpath env target of
        Inr real \<Rightarrow> RealFound real
      | Inl code \<Rightarrow> if code = js ''ENOENT'' \<or> code = js ''ENOTDIR'' then RealMissing else RealError)"

function canonicalTarget :: "files_env \<Rightarrow> jstr list \<Rightarrow> jstr \<Rightarrow> refused + jstr \<times> bool" where
  "canonicalTarget env missing current =
     (case realpathOf env current of
        RealFound real \<Rightarrow> Inr (path_join real missing, missing = [])
      | RealError \<Rightarrow> Inl (refuse Unresolvable)
      | RealMissing \<Rightarrow>
          if (case fe_lstat env current of Some s \<Rightarrow> st_link s | None \<Rightarrow> False) then Inl (refuse DanglingSymlink)
          else if path_dirname current = current then Inl (refuse Unresolvable)
          else canonicalTarget env (path_basename current # missing) (path_dirname current))"
  by pat_completeness auto
termination
  by (relation "measure (\<lambda>(env, missing, current). dirname_steps current)") (auto intro: path_dirname_shorter)

declare canonicalTarget.simps [simp del]

definition canonicalPath :: "files_env \<Rightarrow> jstr \<Rightarrow> jstr option" where
  "canonicalPath env raw =
     (case canonicalTarget env [] (path_resolve (fe_cwd env) raw) of Inr (real, _) \<Rightarrow> Some real | Inl _ \<Rightarrow> None)"

definition describeRoot :: "files_env \<Rightarrow> jstr \<Rightarrow> root_info option" where
  "describeRoot env declared =
     (case realpathOf env declared of
        RealFound real \<Rightarrow>
          (case fe_lstat env real of
             None \<Rightarrow> None
           | Some s \<Rightarrow>
               (let trash = (case fe_lstat env (path_join real [trash_dir_name]) of
                               Some t \<Rightarrow> if st_directory t \<and> \<not> st_link t then Some (st_id t) else None
                             | None \<Rightarrow> None)
                in if identitiesCollapse (st_id s) trash then None
                   else Some \<lparr>ri_declared = path_resolve (fe_cwd env) declared, ri_canonical = real,
                              ri_identity = st_id s, ri_trash = trash\<rparr>))
      | _ \<Rightarrow> None)"

definition is_root :: "root_info list \<Rightarrow> chain_entry \<Rightarrow> bool" where
  "is_root roots entry \<longleftrightarrow> (\<exists>root \<in> set roots. ri_identity root = ce_id entry)"

definition deepestRoot :: "chain_entry list \<Rightarrow> root_info list \<Rightarrow> chain_entry option" where
  "deepestRoot chain roots = find (is_root roots) chain"

definition touchesTrash :: "chain_entry list \<Rightarrow> root_info list \<Rightarrow> bool" where
  "touchesTrash chain roots \<longleftrightarrow>
     (\<exists>entry \<in> set chain. \<exists>root \<in> set roots. ri_trash root = Some (ce_id entry))"

text \<open>The entries up to the root the chain was searched for.\<close>

definition isChainReliable :: "chain_entry list \<Rightarrow> root_info list \<Rightarrow> bool" where
  "isChainReliable chain roots \<longleftrightarrow>
     list_all (\<lambda>e. isUsableIdentity (ce_id e))
       (take (Suc (length (takeWhile (\<lambda>e. \<not> is_root roots e) chain))) chain) \<and>
     \<not> hasDuplicateIdentity chain"

definition relativeBelow :: "jstr \<Rightarrow> jstr \<Rightarrow> jstr" where
  "relativeBelow ancestor target =
     (if target = ancestor then []
      else drop (if ancestor \<noteq> [] \<and> last ancestor = slash then length ancestor else length ancestor + 1) target)"

definition resolveWithinRoots :: "files_env \<Rightarrow> jstr \<Rightarrow> jstr list \<Rightarrow> refused + resolved_path" where
  "resolveWithinRoots env raw roots =
     (case checkSyntax raw of
        Some k \<Rightarrow> Inl (refuse k)
      | None \<Rightarrow>
          (let lexical = path_resolve (fe_cwd env) raw;
               infos = List.map_filter (describeRoot env) roots
           in if \<not> isLexicallyUnder env lexical (concat (map (\<lambda>i. [ri_declared i, ri_canonical i]) infos))
              then Inl (refuse OutsideRoots)
              else case canonicalTarget env [] lexical of
                Inl r \<Rightarrow> Inl r
              | Inr (real, found) \<Rightarrow>
                  (case volumeKindOf (fe_volume env) real of
                     NetworkVolume t \<Rightarrow> Inl (networkVolumeRefusal t)
                   | LocalVolume \<Rightarrow>
                       (let chain = existingChain (fe_lstat env) real
                        in case deepestRoot chain infos of
                             None \<Rightarrow> Inl (refuse OutsideRoots)
                           | Some root \<Rightarrow>
                               if \<not> isWithinOn env (ce_path root) real then Inl (refuse OutsideRoots)
                               else if \<not> isChainReliable chain infos then Inl unreliable_identities
                               else
                                 (let relative = relativeBelow (ce_path root) real
                                  in if hasTrashSegment env relative \<or> touchesTrash chain infos then Inl (refuse InTrash)
                                     else Inr \<lparr>rp_root = ce_path root, rp_absolute = real, rp_relative = relative,
                                               rp_exists = found, rp_chain = chain\<rparr>)))))"

definition resolveAgentPath :: "files_env \<Rightarrow> jstr \<Rightarrow> jstr list \<Rightarrow> refused + resolved_path" where
  "resolveAgentPath env raw roots =
     (case checkSyntax raw of
        Some k \<Rightarrow> Inl (refuse k)
      | None \<Rightarrow>
          if hasDotSegment raw then Inl (refuse DotSegment)
          else if fe_redact env raw \<noteq> raw then Inl (refuse SecretLikeName)
          else if path_resolve (fe_cwd env) raw \<noteq> raw then Inl (send_exactly (path_resolve (fe_cwd env) raw))
          else case resolveWithinRoots env raw roots of
                 Inl r \<Rightarrow> Inl r
               | Inr p \<Rightarrow>
                   if rp_absolute p \<noteq> raw then
                     Inl (if lexicalKey env (rp_absolute p) = lexicalKey env raw then send_exactly (rp_absolute p)
                          else refuse NonCanonical)
                   else if hasSegmentFolded env (rp_relative p) project_policy_subdir then Inl (refuse McpcutSettings)
                   else Inr p)"

section \<open>What an accepted path is\<close>

text \<open>A path that lies in a root: its chain reaches the root's folder and no trash, on a local volume.\<close>

definition inside_roots :: "files_env \<Rightarrow> jstr list \<Rightarrow> resolved_path \<Rightarrow> bool" where
  "inside_roots env roots p \<longleftrightarrow>
     rp_chain p = existingChain (fe_lstat env) (rp_absolute p) \<and>
     volumeKindOf (fe_volume env) (rp_absolute p) = LocalVolume \<and>
     isWithinOn env (rp_root p) (rp_absolute p) \<and>
     (\<exists>root \<in> set roots. \<exists>info entry. describeRoot env root = Some info \<and> entry \<in> set (rp_chain p) \<and>
        ce_path entry = rp_root p \<and> ce_id entry = ri_identity info \<and> isUsableIdentity (ce_id entry)) \<and>
     (\<forall>root \<in> set roots. \<forall>info entry. describeRoot env root = Some info \<longrightarrow> entry \<in> set (rp_chain p) \<longrightarrow>
        ri_trash info \<noteq> Some (ce_id entry)) \<and>
     \<not> hasTrashSegment env (rp_relative p)"

lemma find_takeWhile: "find P xs = Some x \<Longrightarrow> takeWhile (\<lambda>y. \<not> P y) xs @ [x] = take (Suc (length (takeWhile (\<lambda>y. \<not> P y) xs))) xs"
  by (induction xs) (auto split: if_splits)

lemma resolveWithinRoots_inside:
  assumes "resolveWithinRoots env raw roots = Inr p"
  shows "inside_roots env roots p"
proof -
  define infos where "infos = List.map_filter (describeRoot env) roots"
  obtain root where chain: "rp_chain p = existingChain (fe_lstat env) (rp_absolute p)"
    and vol: "volumeKindOf (fe_volume env) (rp_absolute p) = LocalVolume"
    and root: "deepestRoot (rp_chain p) infos = Some root" "rp_root p = ce_path root"
    and within: "isWithinOn env (rp_root p) (rp_absolute p)"
    and reliable: "isChainReliable (rp_chain p) infos"
    and trash: "\<not> hasTrashSegment env (rp_relative p)" "\<not> touchesTrash (rp_chain p) infos"
    using assms by (auto simp: resolveWithinRoots_def Let_def infos_def
        split: option.splits if_splits sum.splits prod.splits volume_kind.splits)
  have in_infos: "info \<in> set infos \<longleftrightarrow> (\<exists>r \<in> set roots. describeRoot env r = Some info)" for info
    by (force simp: infos_def List.map_filter_def image_iff)
  have found: "root \<in> set (rp_chain p)" "is_root infos root"
    using root(1) unfolding deepestRoot_def by (auto simp: find_Some_iff)
  have "root \<in> set (take (Suc (length (takeWhile (\<lambda>e. \<not> is_root infos e) (rp_chain p)))) (rp_chain p))"
    using find_takeWhile[OF root(1)[unfolded deepestRoot_def]] by (metis in_set_conv_decomp)
  then have usable: "isUsableIdentity (ce_id root)" using reliable by (auto simp: isChainReliable_def list_all_iff)
  from found(2) obtain info where info: "info \<in> set infos" "ri_identity info = ce_id root" by (auto simp: is_root_def)
  show ?thesis
    unfolding inside_roots_def
    using chain vol within trash found(1) usable info in_infos root(2) by (fastforce simp: touchesTrash_def)
qed


text \<open>A root with one file.\<close>

definition sample_files :: files_env where
  "sample_files = \<lparr>fe_realpath = (\<lambda>p. if p \<in> set (map js [''/'', ''/r'', ''/r/f'']) then Inr p else Inl (js ''ENOENT'')),
     fe_lstat = (\<lambda>p. map_option (\<lambda>n. \<lparr>st_id = \<lparr>fi_dev = 1, fi_ino = n\<rparr>, st_directory = (n < 4), st_link = False\<rparr>)
       (map_of [(js ''/'', 2), (js ''/r'', 3), (js ''/r/f'', 4)] p)),
     fe_volume = Statfs (\<lambda>_. Some 0xef53), fe_cwd = js ''/'', fe_folds = False, fe_nfc = (\<lambda>s. s), fe_nfkc = (\<lambda>s. s),
     fe_upper = (\<lambda>s. s), fe_lower = (\<lambda>s. s), fe_redact = (\<lambda>s. s)\<rparr>"

definition sample_file :: resolved_path where
  "sample_file = \<lparr>rp_root = js ''/r'', rp_absolute = js ''/r/f'', rp_relative = js ''f'', rp_exists = True,
     rp_chain = [\<lparr>ce_path = js ''/r/f'', ce_id = \<lparr>fi_dev = 1, fi_ino = 4\<rparr>\<rparr>,
       \<lparr>ce_path = js ''/r'', ce_id = \<lparr>fi_dev = 1, fi_ino = 3\<rparr>\<rparr>, \<lparr>ce_path = js ''/'', ce_id = \<lparr>fi_dev = 1, fi_ino = 2\<rparr>\<rparr>]\<rparr>"

lemma sample_file_resolved: "resolveAgentPath sample_files (js ''/r/f'') [js ''/r''] = Inr sample_file"
  by code_simp


end
