(* ===== verification/File_Rights.thy ===== *)
theory File_Rights
  imports File_Paths Agent_Scope
begin

text \<open>
  What an agent may do with a file (\<open>files/rights.ts\<close>, \<open>tool-access.ts\<close>, \<open>tool-context.ts\<close>,
  \<open>access-checks.ts\<close>), the check of a call's arguments at the gate (\<open>args-check.ts\<close>) and the checks of the
  handlers in front of the operation on the file (\<open>tool-handlers.ts\<close>). The validation of a call's arguments
  (zod) is the argument \<open>parse_args\<close>.
\<close>

section \<open>Rules\<close>

datatype prepared_rule =
    IdentityRule file_id "file_op list"
  | MissingRule jstr "file_op list"

datatype rules_problem = RuleChanged | RuleUnresolvable | CutOutMoved

fun problem_str :: "rules_problem \<Rightarrow> jstr" where
  "problem_str RuleChanged = js ''rule-changed''"
| "problem_str RuleUnresolvable = js ''rule-unresolvable''"
| "problem_str CutOutMoved = js ''cut-out-moved''"

text \<open>\<open>String(ino)\<close> of a bigint.\<close>

definition int_text :: "int \<Rightarrow> jstr" where
  "int_text i = (if i < 0 then js ''-'' @ decimal (nat (- i)) else decimal (nat i))"

definition isCutOutMoved :: "file_rule \<Rightarrow> file_id option \<Rightarrow> bool" where
  "isCutOutMoved rule found =
     (case fl_identity rule of
        None \<Rightarrow> False
      | Some (_, ino) \<Rightarrow> (case found of None \<Rightarrow> True | Some i \<Rightarrow> int_text (fi_ino i) \<noteq> ino))"

definition prepareRule :: "files_env \<Rightarrow> file_rule \<Rightarrow> rules_problem + prepared_rule" where
  "prepareRule env rule =
     (case realpathOf env (fl_path rule) of
        RealMissing \<Rightarrow>
          if isCutOutMoved rule None then Inl CutOutMoved
          else Inr (MissingRule (path_resolve (fe_cwd env) (fl_path rule)) (fl_ops rule))
      | RealError \<Rightarrow> Inl RuleUnresolvable
      | RealFound real \<Rightarrow>
          if real \<noteq> path_resolve (fe_cwd env) (fl_path rule) then Inl RuleChanged
          else case fe_lstat env real of
                 None \<Rightarrow> Inl RuleUnresolvable
               | Some s \<Rightarrow>
                   if isCutOutMoved rule (Some (st_id s)) then Inl CutOutMoved
                   else Inr (IdentityRule (st_id s) (fl_ops rule)))"

definition problemMessage :: "rules_problem \<Rightarrow> jstr \<Rightarrow> jstr" where
  "problemMessage problem rulePath =
     (case problem of
        CutOutMoved \<Rightarrow>
          js ''File access is closed: the cut-out folder '' @ rulePath @
          js '' was moved, deleted or replaced. An administrator cuts it out again where it is now, '' @ [0x60] @
          js ''mcpcut files grant <agent> <its new path> --ops none'' @ [0x60] @ js '', then drops the old rule, '' @ [0x60] @
          js ''mcpcut files revoke <agent> '' @ rulePath @ [0x60] @ js ''.''
      | _ \<Rightarrow>
          js ''File access is closed: the granted folder '' @ rulePath @ js '' '' @
          (if problem = RuleChanged then js ''now resolves to a different place'' else js ''cannot be resolved'') @
          js ''. An administrator re-grants it with '' @ [0x60] @ js ''mcpcut files grant'' @ [0x60] @ js ''.'')"

text \<open>All rules, or the first problem with the path of its rule.\<close>

fun prepareRules :: "files_env \<Rightarrow> file_rule list \<Rightarrow> (rules_problem \<times> jstr) + prepared_rule list" where
  "prepareRules env [] = Inr []"
| "prepareRules env (rule # rules) =
     (case prepareRule env rule of
        Inl problem \<Rightarrow> Inl (problem, fl_path rule)
      | Inr r \<Rightarrow> map_sum id ((#) r) (prepareRules env rules))"

fun rule_ops :: "prepared_rule \<Rightarrow> file_op list" where
  "rule_ops (IdentityRule _ ops) = ops"
| "rule_ops (MissingRule _ ops) = ops"

fun depthOf :: "files_env \<Rightarrow> prepared_rule \<Rightarrow> resolved_path \<Rightarrow> nat option" where
  "depthOf env (MissingRule p _) target =
     (if isWithinOn env (lexicalKey env p) (lexicalKey env (rp_absolute target)) then Some (segmentCount p) else None)"
| "depthOf env (IdentityRule i _) target =
     map_option (\<lambda>e. segmentCount (ce_path e)) (find (\<lambda>e. ce_id e = i) (rp_chain target))"

definition rule_matches :: "files_env \<Rightarrow> resolved_path \<Rightarrow> prepared_rule list \<Rightarrow> (nat \<times> file_op list) list" where
  "rule_matches env target rules =
     List.map_filter (\<lambda>r. map_option (\<lambda>d. (d, rule_ops r)) (depthOf env r target)) rules"

definition opsAt :: "files_env \<Rightarrow> resolved_path \<Rightarrow> prepared_rule list \<Rightarrow> file_op list" where
  "opsAt env target rules =
     (let matches = rule_matches env target rules
      in if matches = [] then []
         else
           (let deepest = Max (set (map fst matches)); tied = filter (\<lambda>m. fst m = deepest) matches
            in if list_ex (\<lambda>m. snd m = []) tied then []
               else filter (\<lambda>op. op \<in> set (concat (map snd tied))) file_ops))"

section \<open>What a tool needs\<close>

definition path_tool_ops :: "(jstr \<times> file_op list) list" where
  "path_tool_ops =
     [(js ''list_directory'', [FileRead]), (js ''get_file_info'', [FileRead]), (js ''read_file'', [FileRead]),
      (js ''create_directory'', [FileWrite]), (js ''edit_file'', [FileRead, FileEdit]), (js ''delete_file'', [FileDelete])]"

definition writeFileOps :: "bool \<Rightarrow> bool \<Rightarrow> file_op list" where
  "writeFileOps found isGuarded =
     (if \<not> found then [FileWrite] else if isGuarded then [FileRead, FileEdit] else [FileEdit])"

definition move_carried_ops :: "file_op list" where
  "move_carried_ops = [FileRead, FileEdit]"

datatype path_need =
    FixedNeed (need_path: jstr) "file_op list" bool
  | WriteNeed (need_path: jstr) bool

fun opsOfNeed :: "path_need \<Rightarrow> bool \<Rightarrow> file_op list" where
  "opsOfNeed (FixedNeed _ ops _) found = ops"
| "opsOfNeed (WriteNeed _ isGuarded) found = writeFileOps found isGuarded"

fun isRemoved :: "path_need \<Rightarrow> bool" where
  "isRemoved (FixedNeed _ _ removed) = removed"
| "isRemoved (WriteNeed _ _) = False"

text \<open>
  The arguments of a call after validation: the text of a named argument, which the schemas of the tools make
  a string.
\<close>

type_synonym tool_args = "jstr \<Rightarrow> jstr option"

definition arg :: "tool_args \<Rightarrow> jstr \<Rightarrow> jstr" where
  "arg args k = (case args k of Some v \<Rightarrow> v | None \<Rightarrow> js ''undefined'')"

definition needsOfParsed :: "jstr \<Rightarrow> tool_args \<Rightarrow> path_need list" where
  "needsOfParsed name args =
     (case map_of path_tool_ops name of
        Some ops \<Rightarrow> [FixedNeed (arg args (js ''path'')) ops (name = js ''delete_file'')]
      | None \<Rightarrow>
          if name = js ''write_file'' then
            [WriteNeed (arg args (js ''path'')) (args (js ''expectedSha256'') \<noteq> None)]
          else if name = js ''search_files'' then
            (case args (js ''path'') of Some p \<Rightarrow> [FixedNeed p [FileRead] False] | None \<Rightarrow> [])
          else if name = js ''move_file'' then
            [FixedNeed (arg args (js ''source'')) [FileDelete] True,
             FixedNeed (arg args (js ''destination'')) [FileWrite] False]
          else [])"

definition tool_names :: "jstr list" where
  "tool_names = map js [''list_roots'', ''list_directory'', ''get_file_info'', ''read_file'', ''write_file'',
     ''create_directory'', ''edit_file'', ''move_file'', ''delete_file'', ''search_files'']"

definition needsOf :: "(jstr \<Rightarrow> 'a \<Rightarrow> tool_args option) \<Rightarrow> jstr \<Rightarrow> 'a \<Rightarrow> path_need list option" where
  "needsOf parse_args name rawArgs =
     (if name \<notin> set tool_names then None
      else map_option (needsOfParsed name) (parse_args name rawArgs))"

section \<open>The context of a call\<close>

record tool_context =
  tc_roots :: "jstr list"
  tc_rules :: "file_rule list"
  tc_prepared :: "(rules_problem \<times> jstr) + prepared_rule list"

definition contextFor :: "files_env \<Rightarrow> jstr list \<Rightarrow> file_rule list \<Rightarrow> tool_context" where
  "contextFor env roots rules =
     \<lparr>tc_roots = roots, tc_rules = rules, tc_prepared = prepareRules env rules\<rparr>"

text \<open>The operations held instead when \<open>op\<close> is lacking.\<close>

definition rightsLacking :: "files_env \<Rightarrow> tool_context \<Rightarrow> resolved_path \<Rightarrow> file_op \<Rightarrow> file_op list option" where
  "rightsLacking env ctx target op =
     (case tc_prepared ctx of
        Inl _ \<Rightarrow> None
      | Inr rules \<Rightarrow>
          (let have = opsAt env target rules
           in if op \<in> set have then None else Some (filter (\<lambda>item. item \<in> set have) file_ops)))"

fun firstMissing ::
  "files_env \<Rightarrow> tool_context \<Rightarrow> resolved_path \<Rightarrow> file_op list \<Rightarrow> (file_op \<times> file_op list) option" where
  "firstMissing env ctx target [] = None"
| "firstMissing env ctx target (op # ops) =
     (case rightsLacking env ctx target op of
        Some held \<Rightarrow> Some (op, held)
      | None \<Rightarrow> firstMissing env ctx target ops)"

definition heldText :: "file_op list \<Rightarrow> jstr" where
  "heldText held = (if held = [] then js ''none'' else join_with (js '', '') (map file_op_str held))"

definition noRightMessage :: "file_op \<times> file_op list \<Rightarrow> jstr \<Rightarrow> jstr" where
  "noRightMessage missing raw =
     js ''No right to '' @ file_op_str (fst missing) @ js '' '' @ raw @ js '': your rights there are '' @
     heldText (snd missing) @ js ''. Call list_roots to see your folders.''"

text \<open>What a move would carry along: a right at the destination that the source does not give.\<close>

fun carried_loop ::
  "files_env \<Rightarrow> tool_context \<Rightarrow> resolved_path \<Rightarrow> resolved_path \<Rightarrow> file_op list \<Rightarrow> (file_op \<times> file_op list) option" where
  "carried_loop env ctx source destination [] = None"
| "carried_loop env ctx source destination (op # ops) =
     (if rightsLacking env ctx destination op \<noteq> None then carried_loop env ctx source destination ops
      else case rightsLacking env ctx source op of
             Some held \<Rightarrow> Some (op, held)
           | None \<Rightarrow> carried_loop env ctx source destination ops)"

definition carriedShortfall ::
  "files_env \<Rightarrow> tool_context \<Rightarrow> resolved_path \<Rightarrow> resolved_path \<Rightarrow> (file_op \<times> file_op list) option" where
  "carriedShortfall env ctx source destination = carried_loop env ctx source destination move_carried_ops"

definition grantSpellings :: "files_env \<Rightarrow> tool_context \<Rightarrow> jstr list" where
  "grantSpellings env ctx =
     map fl_path (tc_rules ctx) @ tc_roots ctx @
     List.map_filter (\<lambda>root. case realpathOf env root of RealFound real \<Rightarrow> Some real | _ \<Rightarrow> None) (tc_roots ctx)"

definition innerGrantOf :: "files_env \<Rightarrow> tool_context \<Rightarrow> resolved_path \<Rightarrow> jstr option" where
  "innerGrantOf env ctx target =
     (if \<not> rp_exists target then None
      else case fe_lstat env (rp_absolute target) of
             None \<Rightarrow> None
           | Some s \<Rightarrow>
               if \<not> st_directory s then None
               else
                 (let outer = lexicalKey env (rp_absolute target)
                  in find (\<lambda>candidate. lexicalKey env candidate \<noteq> outer \<and> isWithinOn env outer (lexicalKey env candidate))
                       (grantSpellings env ctx)))"

definition innerGrantMessage :: "jstr \<Rightarrow> jstr \<Rightarrow> jstr" where
  "innerGrantMessage raw inner =
     raw @ js '' contains a separately granted folder '' @ inner @
     js ''; move or delete what is inside instead, or ask an administrator''"

definition carriedMessage :: "file_op \<times> file_op list \<Rightarrow> jstr \<Rightarrow> jstr \<Rightarrow> jstr" where
  "carriedMessage shortfall rawSource rawDestination =
     (let op = file_op_str (fst shortfall)
      in js ''No right to '' @ op @ js '' '' @ rawSource @ js '': moving it to '' @ rawDestination @
         js '' would give you '' @ op @ js '' there, which you lack at the source ('' @ heldText (snd shortfall) @ js '').'')"

end
