(* ===== verification/File_Access.thy ===== *)
theory File_Access
  imports File_Rights Gate_Base
begin

text \<open>
  The two checks of a file tool call: the one the gate asks for in front of the policy's decision
  (\<open>files/args-check.ts\<close>), and the one of the handlers in front of the operation on the file
  (\<open>files/tool-handlers.ts\<close>, \<open>tool-context.ts\<close>).
\<close>

section \<open>At the gate\<close>

definition max_shown_path_chars :: nat where
  "max_shown_path_chars = 200"

definition hidden_unit :: "u16 \<Rightarrow> bool" where
  "hidden_unit c \<longleftrightarrow> c \<le> 0x1f \<or> (0x7f \<le> c \<and> c \<le> 0x9f) \<or> c = 0x2028 \<or> c = 0x2029"

definition shown :: "jstr \<Rightarrow> jstr" where
  "shown raw =
     (let oneLine = map (\<lambda>c. if hidden_unit c then 63 else c) raw
      in if max_shown_path_chars < length oneLine then take max_shown_path_chars oneLine @ ellipsis else oneLine)"

fun resolve_needs ::
  "files_env \<Rightarrow> jstr list \<Rightarrow> path_need list \<Rightarrow> refused + (path_need \<times> resolved_path) list" where
  "resolve_needs env roots [] = Inr []"
| "resolve_needs env roots (need # needs) =
     (case resolveAgentPath env (need_path need) roots of
        Inl r \<Rightarrow> Inl r
      | Inr p \<Rightarrow> map_sum id ((#) (need, p)) (resolve_needs env roots needs))"

fun lackingRight :: "files_env \<Rightarrow> tool_context \<Rightarrow> (path_need \<times> resolved_path) list \<Rightarrow> args_refusal option" where
  "lackingRight env ctx [] = None"
| "lackingRight env ctx ((need, target) # rest) =
     (case firstMissing env ctx target (opsOfNeed need (rp_exists target)) of
        Some missing \<Rightarrow>
          Some \<lparr>rf_rule = js ''files: no right '' @ file_op_str (fst missing) @ js '' on '' @ shown (need_path need),
            rf_reason = js ''no right to '' @ file_op_str (fst missing) @ js '' '' @ shown (need_path need) @
              js '': the agent'' @ [39] @ js ''s rights there are '' @ heldText (snd missing),
            rf_message = noRightMessage missing (need_path need)\<rparr>
      | None \<Rightarrow> lackingRight env ctx rest)"

definition inner_grant_rule :: jstr where
  "inner_grant_rule = js ''files: separately granted folder inside''"

fun innerGrants :: "files_env \<Rightarrow> tool_context \<Rightarrow> (path_need \<times> resolved_path) list \<Rightarrow> args_refusal option" where
  "innerGrants env ctx [] = None"
| "innerGrants env ctx ((need, target) # rest) =
     (if \<not> isRemoved need then innerGrants env ctx rest
      else case innerGrantOf env ctx target of
             None \<Rightarrow> innerGrants env ctx rest
           | Some inner \<Rightarrow>
               (let message = innerGrantMessage (need_path need) inner
                in Some \<lparr>rf_rule = inner_grant_rule, rf_reason = shown message, rf_message = message\<rparr>))"

definition carriedRefusal :: "files_env \<Rightarrow> tool_context \<Rightarrow> (path_need \<times> resolved_path) list \<Rightarrow> args_refusal option" where
  "carriedRefusal env ctx resolved =
     (case resolved of
        (sneed, source) # (dneed, destination) # _ \<Rightarrow>
          map_option (\<lambda>carried.
              (let message = carriedMessage carried (need_path sneed) (need_path dneed)
               in \<lparr>rf_rule = js ''files: no right '' @ file_op_str (fst carried) @ js '' on '' @ shown (need_path sneed),
                   rf_reason = shown message, rf_message = message\<rparr>))
            (carriedShortfall env ctx source destination)
      | _ \<Rightarrow> None)"

definition beyondOnePath :: "files_env \<Rightarrow> tool_context \<Rightarrow> (path_need \<times> resolved_path) list \<Rightarrow> args_refusal option" where
  "beyondOnePath env ctx resolved =
     (case carriedRefusal env ctx resolved of Some r \<Rightarrow> Some r | None \<Rightarrow> innerGrants env ctx resolved)"

definition refusalFor_files :: "files_env \<Rightarrow> tool_context \<Rightarrow> path_need list \<Rightarrow> args_refusal option" where
  "refusalFor_files env ctx needs =
     (case tc_prepared ctx of
        Inl (problem, rulePath) \<Rightarrow>
          Some \<lparr>rf_rule = js ''files: '' @ problem_str problem, rf_reason = problemMessage problem rulePath,
            rf_message = problemMessage problem rulePath\<rparr>
      | Inr _ \<Rightarrow>
          (case resolve_needs env (tc_roots ctx) needs of
             Inl r \<Rightarrow> Some \<lparr>rf_rule = js ''files: '' @ refusal_str (rf_kind r), rf_reason = rf_text r, rf_message = rf_text r\<rparr>
           | Inr resolved \<Rightarrow>
               (case lackingRight env ctx resolved of
                  Some r \<Rightarrow> Some r
                | None \<Rightarrow> beyondOnePath env ctx resolved)))"

definition check_failed :: args_refusal where
  "check_failed =
     \<lparr>rf_rule = js ''files: check-failed'',
      rf_reason = js ''the file access check failed unexpectedly: try again, and if it keeps failing ask an administrator to check the mcpcut log'',
      rf_message = js ''The file access check failed unexpectedly: try again, and if it keeps failing ask an administrator to check the mcpcut log.''\<rparr>"

text \<open>The roots and rules are read for every call; reading them may throw (\<^const>\<open>None\<close>).\<close>

definition createFilesArgsCheck ::
  "files_env \<Rightarrow> (jstr \<Rightarrow> 'a \<Rightarrow> tool_args option) \<Rightarrow> (jstr list \<times> file_rule list) option \<Rightarrow> jstr \<Rightarrow> 'a \<Rightarrow> args_refusal option" where
  "createFilesArgsCheck env parse_args source name rawArgs =
     (case needsOf parse_args name rawArgs of
        None \<Rightarrow> None
      | Some [] \<Rightarrow> None
      | Some needs \<Rightarrow>
          (case source of
             None \<Rightarrow> Some check_failed
           | Some (roots, rules) \<Rightarrow> refusalFor_files env (contextFor env roots rules) needs))"

section \<open>In the handlers\<close>

text \<open>What a handler goes on to do once its checks have passed; \<^const>\<open>Inl\<close> is the error output instead.\<close>

datatype file_action =
    ListFolder resolved_path
  | DescribeFile resolved_path
  | ReadText resolved_path
  | MakeFolder resolved_path
  | EditText resolved_path
  | MoveToTrash resolved_path
  | ReplaceFile resolved_path
  | WriteNewFile resolved_path
  | MoveEntry resolved_path resolved_path
  | SearchText "resolved_path option"
  | ListGranted

definition resolveFor :: "files_env \<Rightarrow> tool_context \<Rightarrow> jstr \<Rightarrow> jstr + resolved_path" where
  "resolveFor env ctx raw =
     (case tc_prepared ctx of
        Inl (problem, rulePath) \<Rightarrow> Inl (problemMessage problem rulePath)
      | Inr _ \<Rightarrow> map_sum rf_text id (resolveAgentPath env raw (tc_roots ctx)))"

definition requireOps :: "files_env \<Rightarrow> tool_context \<Rightarrow> resolved_path \<Rightarrow> jstr \<Rightarrow> file_op list \<Rightarrow> jstr option" where
  "requireOps env ctx target raw ops =
     (case tc_prepared ctx of
        Inl (problem, rulePath) \<Rightarrow> Some (problemMessage problem rulePath)
      | Inr _ \<Rightarrow> map_option (\<lambda>missing. noRightMessage missing raw) (firstMissing env ctx target ops))"

definition authorize :: "files_env \<Rightarrow> tool_context \<Rightarrow> jstr \<Rightarrow> file_op list \<Rightarrow> jstr + resolved_path" where
  "authorize env ctx raw ops =
     (case resolveFor env ctx raw of
        Inl e \<Rightarrow> Inl e
      | Inr target \<Rightarrow> (case requireOps env ctx target raw ops of None \<Rightarrow> Inr target | Some e \<Rightarrow> Inl e))"

definition onPath :: "files_env \<Rightarrow> tool_context \<Rightarrow> jstr \<Rightarrow> file_op list \<Rightarrow> (resolved_path \<Rightarrow> file_action) \<Rightarrow> jstr + file_action" where
  "onPath env ctx raw ops perform = map_sum id perform (authorize env ctx raw ops)"

definition writeFileTool :: "files_env \<Rightarrow> tool_context \<Rightarrow> tool_args \<Rightarrow> jstr + file_action" where
  "writeFileTool env ctx args =
     (let raw = arg args (js ''path'')
      in case resolveFor env ctx raw of
           Inl e \<Rightarrow> Inl e
         | Inr target \<Rightarrow>
             (case requireOps env ctx target raw (writeFileOps (rp_exists target) (args (js ''expectedSha256'') \<noteq> None)) of
                Some e \<Rightarrow> Inl e
              | None \<Rightarrow> Inr (if rp_exists target then ReplaceFile target else WriteNewFile target)))"

definition moveFileTool :: "files_env \<Rightarrow> tool_context \<Rightarrow> tool_args \<Rightarrow> jstr + file_action" where
  "moveFileTool env ctx args =
     (let rawS = arg args (js ''source''); rawD = arg args (js ''destination'')
      in case resolveFor env ctx rawS of
           Inl e \<Rightarrow> Inl e
         | Inr source \<Rightarrow>
             (case resolveFor env ctx rawD of
                Inl e \<Rightarrow> Inl e
              | Inr destination \<Rightarrow>
                  (case requireOps env ctx source rawS [FileDelete] of
                     Some e \<Rightarrow> Inl e
                   | None \<Rightarrow>
                       (case requireOps env ctx destination rawD [FileWrite] of
                          Some e \<Rightarrow> Inl e
                        | None \<Rightarrow>
                            (case carriedShortfall env ctx source destination of
                               Some c \<Rightarrow> Inl (carriedMessage c rawS rawD)
                             | None \<Rightarrow>
                                 (case innerGrantOf env ctx source of
                                    Some inner \<Rightarrow> Inl (innerGrantMessage rawS inner)
                                  | None \<Rightarrow> Inr (MoveEntry source destination)))))))"

definition deleteFileTool :: "files_env \<Rightarrow> tool_context \<Rightarrow> tool_args \<Rightarrow> jstr + file_action" where
  "deleteFileTool env ctx args =
     (let raw = arg args (js ''path'')
      in case authorize env ctx raw [FileDelete] of
           Inl e \<Rightarrow> Inl e
         | Inr target \<Rightarrow>
             (case innerGrantOf env ctx target of
                Some inner \<Rightarrow> Inl (innerGrantMessage raw inner)
              | None \<Rightarrow> Inr (MoveToTrash target)))"

definition searchFilesTool :: "files_env \<Rightarrow> tool_context \<Rightarrow> tool_args \<Rightarrow> jstr + file_action" where
  "searchFilesTool env ctx args =
     (case tc_prepared ctx of
        Inl (problem, rulePath) \<Rightarrow> Inl (problemMessage problem rulePath)
      | Inr _ \<Rightarrow>
          (case args (js ''path'') of
             None \<Rightarrow> Inr (SearchText None)
           | Some raw \<Rightarrow> map_sum id (SearchText \<circ> Some) (authorize env ctx raw [FileRead])))"

definition listRoots :: "files_env \<Rightarrow> tool_context \<Rightarrow> jstr + file_action" where
  "listRoots env ctx =
     (case tc_prepared ctx of
        Inl (problem, rulePath) \<Rightarrow> Inl (problemMessage problem rulePath)
      | Inr _ \<Rightarrow> Inr ListGranted)"

definition handler_of :: "files_env \<Rightarrow> tool_context \<Rightarrow> jstr \<Rightarrow> tool_args \<Rightarrow> jstr + file_action" where
  "handler_of env ctx name args =
     (let raw = arg args (js ''path'')
      in if name = js ''list_roots'' then listRoots env ctx
         else if name = js ''list_directory'' then onPath env ctx raw [FileRead] ListFolder
         else if name = js ''get_file_info'' then onPath env ctx raw [FileRead] DescribeFile
         else if name = js ''read_file'' then onPath env ctx raw [FileRead] ReadText
         else if name = js ''write_file'' then writeFileTool env ctx args
         else if name = js ''create_directory'' then onPath env ctx raw [FileWrite] MakeFolder
         else if name = js ''edit_file'' then onPath env ctx raw [FileRead, FileEdit] EditText
         else if name = js ''move_file'' then moveFileTool env ctx args
         else if name = js ''delete_file'' then deleteFileTool env ctx args
         else searchFilesTool env ctx args)"

text \<open>
  The first problems of arguments that did not pass the validation: where and what, each run of white space
  a single blank.
\<close>

fun collapse_space :: "jstr \<Rightarrow> jstr" where
  "collapse_space [] = []"
| "collapse_space (c # cs) =
     (if \<not> js_space c then c # collapse_space cs
      else case cs of
             [] \<Rightarrow> [32]
           | d # _ \<Rightarrow> if js_space d then collapse_space cs else 32 # collapse_space cs)"

definition summarizeIssues :: "jstr \<Rightarrow> (jstr list \<times> jstr) list \<Rightarrow> jstr" where
  "summarizeIssues toolName issues =
     js ''Invalid arguments for '' @ toolName @ dash @
     join_with (js ''; '')
       (map (\<lambda>(path, message).
            (if path = [] then js ''arguments'' else join_with (js ''.'') path) @ js '': '' @ collapse_space message)
          (take 3 issues)) @
     js ''. Fix them and call again.''"

definition runTool ::
  "files_env \<Rightarrow> (jstr \<Rightarrow> 'a \<Rightarrow> tool_args option) \<Rightarrow> (jstr \<Rightarrow> 'a \<Rightarrow> (jstr list \<times> jstr) list) \<Rightarrow> tool_context \<Rightarrow>
   jstr \<Rightarrow> 'a \<Rightarrow> jstr + file_action" where
  "runTool env parse_args issues ctx name rawArgs =
     (if name \<notin> set tool_names then
        Inl (js ''Unknown tool '' @ name @ js '': call tools/list to see the available tools.'')
      else case parse_args name rawArgs of
             None \<Rightarrow> Inl (summarizeIssues name (issues name rawArgs))
           | Some args \<Rightarrow> handler_of env ctx name args)"

text \<open>The granted folders \<open>list_roots\<close> shows: each path once, sorted, with the operations of all its rules.\<close>

definition granted_folders :: "files_env \<Rightarrow> tool_context \<Rightarrow> (jstr \<times> file_op list) list" where
  "granted_folders env ctx =
     (let inside = filter (\<lambda>rule. fl_ops rule \<noteq> [] \<and> (\<exists>p. resolveWithinRoots env (fl_path rule) (tc_roots ctx) = Inr p))
                     (tc_rules ctx)
      in map (\<lambda>path. (path, filter (\<lambda>op. \<exists>rule \<in> set inside. fl_path rule = path \<and> op \<in> set (fl_ops rule)) file_ops))
           (sort_unique (map fl_path inside)))"

end
