(* ===== verification/File_Access_Safety.thy ===== *)
theory File_Access_Safety
  imports File_Access
begin

text \<open>
  What the two checks guarantee. The deepest rule above a file decides, and an empty rule wins a tie. A call
  the gate lets through reaches only files inside the roots and with the rights it needs; a move carries no
  right along. The gate and the handlers agree.
\<close>

lemma case_None_iff:
  "(case x of None \<Rightarrow> a | Some y \<Rightarrow> Some (f y)) = None \<longleftrightarrow> x = None \<and> a = None"
  by (cases x) simp_all

section \<open>The rights at a path\<close>

lemma in_rule_matches:
  "(d, ops) \<in> set (rule_matches env target rules) \<longleftrightarrow>
     (\<exists>r \<in> set rules. depthOf env r target = Some d \<and> ops = rule_ops r)"
  by (force simp: rule_matches_def List.map_filter_def image_iff)

lemma set_file_ops [simp]: "op \<in> set file_ops"
  by (cases op) (simp_all add: file_ops_def)

text \<open>
  C23. The deepest rules decide: an operation is allowed on a path exactly when some rule that contains the path grants it,
  no other rule that contains the path is deeper, and no rule of that depth is a cut-out.
\<close>

theorem ops_at_iff:
  "op \<in> set (opsAt env target rules) \<longleftrightarrow>
     (\<exists>d. (\<exists>r \<in> set rules. depthOf env r target = Some d \<and> op \<in> set (rule_ops r)) \<and>
          (\<forall>r \<in> set rules. \<forall>e. depthOf env r target = Some e \<longrightarrow> e \<le> d \<and> (e = d \<longrightarrow> rule_ops r \<noteq> [])))"
proof (cases "rule_matches env target rules = []")
  case True
  then have "\<forall>r \<in> set rules. depthOf env r target = None"
    using in_rule_matches[of _ _ env target rules] by (metis list.set_intros(1) not_Some_eq empty_iff list.set(1))
  then show ?thesis by (auto simp: opsAt_def True)
next
  case False
  let ?m = "rule_matches env target rules" and ?deepest = "Max (set (map fst (rule_matches env target rules)))"
  have deepest: "?deepest \<in> fst ` set ?m" using Max_in[of "set (map fst ?m)"] False by simp
  have le: "e \<le> ?deepest" if "(e, ops) \<in> set ?m" for e ops
    using that by (auto intro!: Max_ge simp: rev_image_eqI)
  have opsAt: "op \<in> set (opsAt env target rules) \<longleftrightarrow>
      (\<forall>ops. (?deepest, ops) \<in> set ?m \<longrightarrow> ops \<noteq> []) \<and> (\<exists>ops. (?deepest, ops) \<in> set ?m \<and> op \<in> set ops)"
    using False by (force simp: opsAt_def Let_def list_ex_iff)
  show ?thesis
  proof
    assume "op \<in> set (opsAt env target rules)"
    then show "\<exists>d. (\<exists>r \<in> set rules. depthOf env r target = Some d \<and> op \<in> set (rule_ops r)) \<and>
          (\<forall>r \<in> set rules. \<forall>e. depthOf env r target = Some e \<longrightarrow> e \<le> d \<and> (e = d \<longrightarrow> rule_ops r \<noteq> []))"
      using le unfolding opsAt in_rule_matches by (intro exI[of _ ?deepest]) blast
  next
    assume "\<exists>d. (\<exists>r \<in> set rules. depthOf env r target = Some d \<and> op \<in> set (rule_ops r)) \<and>
          (\<forall>r \<in> set rules. \<forall>e. depthOf env r target = Some e \<longrightarrow> e \<le> d \<and> (e = d \<longrightarrow> rule_ops r \<noteq> []))"
    then obtain d where d: "\<exists>r \<in> set rules. depthOf env r target = Some d \<and> op \<in> set (rule_ops r)"
      "\<forall>r \<in> set rules. \<forall>e. depthOf env r target = Some e \<longrightarrow> e \<le> d \<and> (e = d \<longrightarrow> rule_ops r \<noteq> [])" by blast
    have "?deepest \<le> d" using deepest d(2) in_rule_matches[of _ _ env target rules] by force
    moreover have "d \<le> ?deepest" using d(1) le in_rule_matches[of d _ env target rules] by blast
    ultimately have "?deepest = d" by simp
    then show "op \<in> set (opsAt env target rules)" unfolding opsAt in_rule_matches using d by auto
  qed
qed

lemma rightsLacking_None:
  "tc_prepared ctx = Inr rules \<Longrightarrow> rightsLacking env ctx target op = None \<longleftrightarrow> op \<in> set (opsAt env target rules)"
  by (simp add: rightsLacking_def Let_def)

lemma firstMissing_None:
  "tc_prepared ctx = Inr rules \<Longrightarrow>
   firstMissing env ctx target ops = None \<longleftrightarrow> set ops \<subseteq> set (opsAt env target rules)"
  by (induction ops) (simp_all add: case_None_iff rightsLacking_None)

lemma carriedShortfall_None:
  assumes "tc_prepared ctx = Inr rules"
  shows "carriedShortfall env ctx source destination = None \<longleftrightarrow>
    set move_carried_ops \<inter> set (opsAt env destination rules) \<subseteq> set (opsAt env source rules)"
proof -
  have "carried_loop env ctx source destination ops = None \<longleftrightarrow>
      set ops \<inter> set (opsAt env destination rules) \<subseteq> set (opsAt env source rules)" for ops
    by (induction ops) (auto simp: case_None_iff rightsLacking_None[OF assms])
  then show ?thesis by (simp add: carriedShortfall_def)
qed

section \<open>The check at the gate\<close>

lemma resolve_needs_Inr:
  "resolve_needs env roots needs = Inr resolved \<longleftrightarrow>
     map fst resolved = needs \<and> (\<forall>(need, p) \<in> set resolved. resolveAgentPath env (need_path need) roots = Inr p)"
proof (induction needs arbitrary: resolved)
  case (Cons need needs)
  show ?case
  proof (cases "resolveAgentPath env (need_path need) roots")
    case (Inr p)
    have "resolve_needs env roots (need # needs) = Inr resolved \<longleftrightarrow>
        (\<exists>rest. resolve_needs env roots needs = Inr rest \<and> resolved = (need, p) # rest)"
      by (cases "resolve_needs env roots needs") (auto simp: Inr)
    with Cons.IH show ?thesis by (cases resolved) (auto simp: Inr)
  qed (cases resolved; auto)
qed auto

lemma lackingRight_None:
  assumes "tc_prepared ctx = Inr rules"
  shows "lackingRight env ctx resolved = None \<longleftrightarrow>
    (\<forall>(need, p) \<in> set resolved. set (opsOfNeed need (rp_exists p)) \<subseteq> set (opsAt env p rules))"
  using assms
  by (induction env ctx resolved rule: lackingRight.induct) (auto simp: case_None_iff firstMissing_None)

lemma innerGrants_None:
  "innerGrants env ctx resolved = None \<longleftrightarrow>
    (\<forall>(need, p) \<in> set resolved. isRemoved need \<longrightarrow> innerGrantOf env ctx p = None)"
proof (induction env ctx resolved rule: innerGrants.induct)
  case (2 env ctx need target rest)
  then show ?case by (cases "innerGrantOf env ctx target") (simp_all add: Let_def)
qed simp

lemma carriedRefusal_None:
  "carriedRefusal env ctx resolved = None \<longleftrightarrow>
    (\<forall>s source d destination rest. resolved = (s, source) # (d, destination) # rest \<longrightarrow>
       carriedShortfall env ctx source destination = None)"
  by (auto simp: carriedRefusal_def split: list.split)

text \<open>What a call may do once its needs are resolved.\<close>

definition access_ok ::
  "files_env \<Rightarrow> tool_context \<Rightarrow> prepared_rule list \<Rightarrow> (path_need \<times> resolved_path) list \<Rightarrow> bool" where
  "access_ok env ctx rules resolved \<longleftrightarrow>
     (\<forall>(need, p) \<in> set resolved.
        resolveAgentPath env (need_path need) (tc_roots ctx) = Inr p \<and>
        set (opsOfNeed need (rp_exists p)) \<subseteq> set (opsAt env p rules) \<and>
        (isRemoved need \<longrightarrow> innerGrantOf env ctx p = None)) \<and>
     (\<forall>s source d destination rest. resolved = (s, source) # (d, destination) # rest \<longrightarrow>
        set move_carried_ops \<inter> set (opsAt env destination rules) \<subseteq> set (opsAt env source rules))"

lemma refusalFor_None:
  "refusalFor_files env ctx needs = None \<longleftrightarrow>
    (\<exists>rules resolved. tc_prepared ctx = Inr rules \<and> map fst resolved = needs \<and> access_ok env ctx rules resolved)"
proof (cases "tc_prepared ctx")
  case (Inr rules)
  show ?thesis
  proof (cases "resolve_needs env (tc_roots ctx) needs")
    case (Inl r)
    then have "\<not> (\<exists>resolved. map fst resolved = needs \<and>
        (\<forall>(need, p) \<in> set resolved. resolveAgentPath env (need_path need) (tc_roots ctx) = Inr p))"
      using resolve_needs_Inr by (metis Inl_Inr_False)
    then have "\<not> (\<exists>resolved. map fst resolved = needs \<and> access_ok env ctx rules resolved)"
      unfolding access_ok_def by fastforce
    then show ?thesis by (simp add: refusalFor_files_def Inr Inl)
  next
    case (Inr resolved)
    note r = this[unfolded resolve_needs_Inr]
    have unique: "resolved' = resolved" if "map fst resolved' = needs" "access_ok env ctx rules resolved'" for resolved'
      using that Inr resolve_needs_Inr[of env "tc_roots ctx" needs resolved'] unfolding access_ok_def
      by (metis (mono_tags, lifting) case_prodD case_prodI2 sum.inject(2))
    have "refusalFor_files env ctx needs = None \<longleftrightarrow>
        lackingRight env ctx resolved = None \<and> carriedRefusal env ctx resolved = None \<and> innerGrants env ctx resolved = None"
      using \<open>tc_prepared ctx = Inr rules\<close> Inr by (auto simp: refusalFor_files_def beyondOnePath_def split: option.splits)
    also have "\<dots> \<longleftrightarrow> access_ok env ctx rules resolved"
      unfolding access_ok_def lackingRight_None[OF \<open>tc_prepared ctx = Inr rules\<close>] carriedRefusal_None innerGrants_None
        carriedShortfall_None[OF \<open>tc_prepared ctx = Inr rules\<close>]
      using r by fast
    finally show ?thesis using \<open>tc_prepared ctx = Inr rules\<close> r unique by auto
  qed
qed (auto simp: refusalFor_files_def split: prod.splits)

lemma files_check_iff:
  assumes "needsOf parse_args name rawArgs = Some needs" and "needs \<noteq> []"
  shows "createFilesArgsCheck env parse_args (Some (roots, rules)) name rawArgs = None \<longleftrightarrow>
    (\<exists>prepared resolved. prepareRules env rules = Inr prepared \<and> map fst resolved = needs \<and>
       access_ok env (contextFor env roots rules) prepared resolved)"
proof -
  have "createFilesArgsCheck env parse_args (Some (roots, rules)) name rawArgs =
      refusalFor_files env (contextFor env roots rules) needs"
    using assms by (cases needs) (simp_all add: createFilesArgsCheck_def)
  then show ?thesis by (simp add: refusalFor_None contextFor_def)
qed

text \<open>
  C24. A call of a file tool that names paths passes the gate's check exactly when its rules could be prepared,
  every path is accepted and resolved, each with all the operations the call needs there, a move gives no
  right to read or edit at the destination that the source does not have, and nothing that is moved or
  deleted holds a separately granted folder.
\<close>

theorem files_check_passes_iff:
  assumes "needsOf parse_args name rawArgs = Some needs" and "needs \<noteq> []"
  shows "createFilesArgsCheck env parse_args (Some (roots, rules)) name rawArgs = None \<longleftrightarrow>
    (\<exists>prepared resolved. prepareRules env rules = Inr prepared \<and> map fst resolved = needs \<and>
       access_ok env (contextFor env roots rules) prepared resolved)"
  by (rule files_check_iff[OF assms])

section \<open>The handlers\<close>

lemma requireOps_None:
  "tc_prepared ctx = Inr rules \<Longrightarrow> requireOps env ctx p raw ops = None \<longleftrightarrow> set ops \<subseteq> set (opsAt env p rules)"
  by (simp add: requireOps_def firstMissing_None)

lemma resolveFor_Inr:
  "resolveFor env ctx raw = Inr p \<longleftrightarrow>
    (\<exists>rules. tc_prepared ctx = Inr rules) \<and> resolveAgentPath env raw (tc_roots ctx) = Inr p"
  by (cases "tc_prepared ctx"; cases "resolveAgentPath env raw (tc_roots ctx)") (auto simp: resolveFor_def)

lemma authorize_Inr:
  "authorize env ctx raw ops = Inr p \<longleftrightarrow>
    (\<exists>rules. tc_prepared ctx = Inr rules \<and> resolveAgentPath env raw (tc_roots ctx) = Inr p \<and>
       set ops \<subseteq> set (opsAt env p rules))"
proof -
  have "authorize env ctx raw ops = Inr p \<longleftrightarrow> resolveFor env ctx raw = Inr p \<and> requireOps env ctx p raw ops = None"
    by (auto simp: authorize_def split: sum.split option.split)
  then show ?thesis
    by (cases "tc_prepared ctx") (auto simp: resolveFor_Inr requireOps_None simp del: not_None_eq not_Some_eq)
qed

text \<open>The path names one file, and the context allows what the call needs of it.\<close>

lemma access_ok_single:
  "access_ok env ctx rules [(need, p)] \<longleftrightarrow>
     resolveAgentPath env (need_path need) (tc_roots ctx) = Inr p \<and>
     set (opsOfNeed need (rp_exists p)) \<subseteq> set (opsAt env p rules) \<and>
     (isRemoved need \<longrightarrow> innerGrantOf env ctx p = None)"
  by (simp add: access_ok_def)

lemma map_fst_single: "map fst xs = [a] \<longleftrightarrow> (\<exists>b. xs = [(a, b)])"
  and map_fst_pair: "map fst xs = [a, a'] \<longleftrightarrow> (\<exists>b b'. xs = [(a, b), (a', b')])"
  by (cases xs; auto simp: Cons_eq_map_conv)+

lemma refusal_single:
  "refusalFor_files env ctx [need] = None \<longleftrightarrow>
     (\<exists>rules p. tc_prepared ctx = Inr rules \<and> access_ok env ctx rules [(need, p)])"
  by (auto simp: refusalFor_None map_fst_single)

lemma refusal_pair:
  "refusalFor_files env ctx [need, need'] = None \<longleftrightarrow>
     (\<exists>rules p q. tc_prepared ctx = Inr rules \<and> access_ok env ctx rules [(need, p), (need', q)])"
  by (auto simp: refusalFor_None map_fst_pair)

lemma access_ok_pair:
  "access_ok env ctx rules [(need, p), (need', q)] \<longleftrightarrow>
     access_ok env ctx rules [(need, p)] \<and> access_ok env ctx rules [(need', q)] \<and>
     set move_carried_ops \<inter> set (opsAt env q rules) \<subseteq> set (opsAt env p rules)"
  by (auto simp: access_ok_def)

lemma onPath_agrees:
  "(\<exists>act. onPath env ctx raw ops perform = Inr act) \<longleftrightarrow> refusalFor_files env ctx [FixedNeed raw ops False] = None"
proof -
  have "(\<exists>act. onPath env ctx raw ops perform = Inr act) \<longleftrightarrow> (\<exists>p. authorize env ctx raw ops = Inr p)"
    by (cases "authorize env ctx raw ops") (auto simp: onPath_def)
  then show ?thesis by (auto simp: authorize_Inr refusal_single access_ok_single)
qed

lemma write_agrees:
  "(\<exists>act. writeFileTool env ctx args = Inr act) \<longleftrightarrow>
     refusalFor_files env ctx [WriteNeed (arg args (js ''path'')) (args (js ''expectedSha256'') \<noteq> None)] = None"
proof -
  let ?raw = "arg args (js ''path'')" and ?g = "args (js ''expectedSha256'') \<noteq> None"
  have "(\<exists>act. writeFileTool env ctx args = Inr act) \<longleftrightarrow>
      (\<exists>p. resolveFor env ctx ?raw = Inr p \<and> requireOps env ctx p ?raw (writeFileOps (rp_exists p) ?g) = None)"
    by (auto simp: writeFileTool_def Let_def split: sum.split option.split)
  then show ?thesis by (auto simp: resolveFor_Inr requireOps_None refusal_single access_ok_single)
qed

lemma delete_agrees:
  "(\<exists>act. deleteFileTool env ctx args = Inr act) \<longleftrightarrow>
     refusalFor_files env ctx [FixedNeed (arg args (js ''path'')) [FileDelete] True] = None"
proof -
  have "(\<exists>act. deleteFileTool env ctx args = Inr act) \<longleftrightarrow>
      (\<exists>p. authorize env ctx (arg args (js ''path'')) [FileDelete] = Inr p \<and> innerGrantOf env ctx p = None)"
    by (auto simp: deleteFileTool_def Let_def split: sum.split option.split)
  then show ?thesis by (auto simp: authorize_Inr refusal_single access_ok_single)
qed

lemma search_agrees:
  "args (js ''path'') = Some raw \<Longrightarrow>
   (\<exists>act. searchFilesTool env ctx args = Inr act) \<longleftrightarrow> refusalFor_files env ctx [FixedNeed raw [FileRead] False] = None"
proof -
  assume raw: "args (js ''path'') = Some raw"
  have "(\<exists>act. searchFilesTool env ctx args = Inr act) \<longleftrightarrow> (\<exists>p. authorize env ctx raw [FileRead] = Inr p)"
  proof (cases "tc_prepared ctx")
    case (Inl a)
    then show ?thesis by (auto simp: searchFilesTool_def authorize_Inr split: prod.split)
  next
    case (Inr b)
    then show ?thesis by (cases "authorize env ctx raw [FileRead]") (auto simp: searchFilesTool_def raw)
  qed
  then show ?thesis by (auto simp: authorize_Inr refusal_single access_ok_single)
qed

lemma move_agrees:
  "(\<exists>act. moveFileTool env ctx args = Inr act) \<longleftrightarrow>
     refusalFor_files env ctx [FixedNeed (arg args (js ''source'')) [FileDelete] True,
       FixedNeed (arg args (js ''destination'')) [FileWrite] False] = None"
proof -
  let ?s = "arg args (js ''source'')" and ?d = "arg args (js ''destination'')"
  have "(\<exists>act. moveFileTool env ctx args = Inr act) \<longleftrightarrow>
      (\<exists>p q. resolveFor env ctx ?s = Inr p \<and> resolveFor env ctx ?d = Inr q \<and>
         requireOps env ctx p ?s [FileDelete] = None \<and> requireOps env ctx q ?d [FileWrite] = None \<and>
         carriedShortfall env ctx p q = None \<and> innerGrantOf env ctx p = None)"
    by (auto simp: moveFileTool_def Let_def split: sum.split option.split)
  also have "\<dots> \<longleftrightarrow> refusalFor_files env ctx [FixedNeed ?s [FileDelete] True, FixedNeed ?d [FileWrite] False] = None"
    by (auto simp: resolveFor_Inr requireOps_None refusal_pair access_ok_pair access_ok_single carriedShortfall_None)
  finally show ?thesis .
qed

lemma tool_cases:
  assumes "name \<in> set tool_names"
  obtains "name = js ''list_roots''" | "name = js ''list_directory''" | "name = js ''get_file_info''"
    | "name = js ''read_file''" | "name = js ''write_file''" | "name = js ''create_directory''"
    | "name = js ''edit_file''" | "name = js ''move_file''" | "name = js ''delete_file''" | "name = js ''search_files''"
  using assms by (auto simp: tool_names_def)

text \<open>
  C25. The gate and the handlers agree: for a call with paths and valid arguments, on one state of the file system,
  the handler goes on to the operation exactly when the gate's check lets the call through.
\<close>

theorem gate_and_handler_agree:
  assumes "parse_args name rawArgs = Some args" and "needsOf parse_args name rawArgs = Some needs" and "needs \<noteq> []"
  shows "createFilesArgsCheck env parse_args (Some (roots, rules)) name rawArgs = None \<longleftrightarrow>
    (\<exists>act. runTool env parse_args issues (contextFor env roots rules) name rawArgs = Inr act)"
proof -
  let ?ctx = "contextFor env roots rules"
  have name: "name \<in> set tool_names" and needs: "needs = needsOfParsed name args"
    using assms(1,2) by (auto simp: needsOf_def split: if_splits)
  have "createFilesArgsCheck env parse_args (Some (roots, rules)) name rawArgs = refusalFor_files env ?ctx needs"
    using assms(2,3) by (cases needs) (simp_all add: createFilesArgsCheck_def)
  moreover have "runTool env parse_args issues ?ctx name rawArgs = handler_of env ?ctx name args"
    using name assms(1) by (simp add: runTool_def)
  moreover have "(\<exists>act. handler_of env ?ctx name args = Inr act) \<longleftrightarrow> refusalFor_files env ?ctx needs = None"
    using name
  proof (cases rule: tool_cases)
    case 1
    with needs assms(3) show ?thesis by (simp add: needsOfParsed_def path_tool_ops_def)
  next
    case 10
    with needs assms(3) obtain raw where "args (js ''path'') = Some raw"
      by (auto simp: needsOfParsed_def path_tool_ops_def split: option.splits)
    with 10 needs show ?thesis by (simp add: handler_of_def Let_def needsOfParsed_def path_tool_ops_def search_agrees)
  qed (simp_all add: needs handler_of_def Let_def needsOfParsed_def path_tool_ops_def onPath_agrees write_agrees
      delete_agrees move_agrees)
  ultimately show ?thesis by simp
qed

section \<open>A call to try them on\<close>

definition sample_file_rule :: file_rule where
  "sample_file_rule = \<lparr>fl_path = js ''/r'', fl_ops = [FileRead], fl_identity = None\<rparr>"

definition sample_args :: "jstr \<Rightarrow> json \<Rightarrow> tool_args option" where
  "sample_args name v = Some (\<lambda>k. if k = js ''path'' then Some (js ''/r/f'') else None)"

lemma sample_check: "createFilesArgsCheck sample_files sample_args (Some ([js ''/r''], [sample_file_rule])) (js ''read_file'') JNull = None"
  by code_simp

lemma sample_needs: "needsOf sample_args (js ''read_file'') JNull = Some [FixedNeed (js ''/r/f'') [FileRead] False]"
  by code_simp

theorem ops_at_iff_witness:
  "FileRead \<in> set (opsAt sample_files sample_file [IdentityRule \<lparr>fi_dev = 1, fi_ino = 3\<rparr> [FileRead]])"
proof -
  have "depthOf sample_files (IdentityRule \<lparr>fi_dev = 1, fi_ino = 3\<rparr> [FileRead]) sample_file = Some 1" by code_simp
  then show ?thesis by (subst ops_at_iff) (simp del: depthOf.simps)
qed

theorem files_check_passes_iff_witness:
  "\<exists>prepared resolved. prepareRules sample_files [sample_file_rule] = Inr prepared \<and>
     map fst resolved = [FixedNeed (js ''/r/f'') [FileRead] False] \<and>
     access_ok sample_files (contextFor sample_files [js ''/r''] [sample_file_rule]) prepared resolved"
  using files_check_passes_iff[OF sample_needs, of sample_files "[js ''/r'']" "[sample_file_rule]"] sample_check by simp

theorem gate_and_handler_agree_witness:
  "\<exists>act. runTool sample_files sample_args (\<lambda>_ _. []) (contextFor sample_files [js ''/r''] [sample_file_rule]) (js ''read_file'') JNull = Inr act"
  using gate_and_handler_agree[OF _ sample_needs, of _ sample_files "[js ''/r'']" "[sample_file_rule]"] sample_check
  by (simp add: sample_args_def)

end
