(* ===== verification/Net_Address.thy ===== *)
theory Net_Address
  imports Text
begin

text \<open>
  The address classifier behind the guard of outgoing connections (\<open>net/address-class.ts\<close>), with the parts of
  Node's \<open>net\<close> it calls: \<open>isIPv4\<close> and \<open>isIPv6\<close> read the text of an address, a \<open>BlockList\<close> compares the leading
  bits.
\<close>

unbundle bit_operations_syntax

section \<open>Reading an address\<close>

abbreviation colon :: u16 where "colon \<equiv> unit_of (CHR '':'')"
abbreviation point :: u16 where "point \<equiv> unit_of (CHR ''.'')"
abbreviation percent :: u16 where "percent \<equiv> unit_of (CHR ''%'')"

definition is_digit :: "u16 \<Rightarrow> bool" where
  "is_digit c \<longleftrightarrow> in_range (CHR ''0'') (CHR ''9'') c"

definition is_hex :: "u16 \<Rightarrow> bool" where
  "is_hex c \<longleftrightarrow> is_digit c \<or> in_range (CHR ''a'') (CHR ''f'') c \<or> in_range (CHR ''A'') (CHR ''F'') c"

definition hex_digit :: "u16 \<Rightarrow> nat" where
  "hex_digit c = (if is_digit c then unat c - 48 else if in_range (CHR ''a'') (CHR ''f'') c then unat c - 87 else unat c - 55)"

definition hex_value :: "jstr \<Rightarrow> nat" where
  "hex_value s = foldl (\<lambda>a c. 16 * a + hex_digit c) 0 s"

text \<open>Four decimal numbers below 256 without leading zeros; the 32 bits they stand for.\<close>

definition v4_segment :: "jstr \<Rightarrow> bool" where
  "v4_segment s \<longleftrightarrow> s \<noteq> [] \<and> length s \<le> 3 \<and> list_all is_digit s \<and> (hd s = unit_of (CHR ''0'') \<longrightarrow> length s = 1) \<and>
     decimal_value s < 256"

definition v4_word :: "nat list \<Rightarrow> 32 word" where
  "v4_word bs = word_of_nat (foldl (\<lambda>a b. 256 * a + b) 0 bs)"

definition v4_parse :: "jstr \<Rightarrow> nat list option" where
  "v4_parse t =
     (let ss = split_on point t in if length ss = 4 \<and> list_all v4_segment ss then Some (map decimal_value ss) else None)"

text \<open>Groups of one to four hexadecimal digits; the last 32 bits may be written as an IPv4 address.\<close>

definition v6_group :: "jstr \<Rightarrow> u16 option" where
  "v6_group s = (if s \<noteq> [] \<and> length s \<le> 4 \<and> list_all is_hex s then Some (word_of_nat (hex_value s)) else None)"

definition v6_quad :: "jstr \<Rightarrow> u16 list option" where
  "v6_quad s =
     (case v4_parse s of
        Some [a, b, c, d] \<Rightarrow> Some [word_of_nat (256 * a + b), word_of_nat (256 * c + d)]
      | _ \<Rightarrow> None)"

fun v6_tail :: "jstr list \<Rightarrow> u16 list option" where
  "v6_tail [] = None"
| "v6_tail [s] = (case v6_group s of Some g \<Rightarrow> Some [g] | None \<Rightarrow> v6_quad s)"
| "v6_tail (s # ss) = (case v6_group s of None \<Rightarrow> None | Some g \<Rightarrow> map_option ((#) g) (v6_tail ss))"

text \<open>The groups in front of the gap and, where there is one, those behind it.\<close>

fun v6_head :: "jstr list \<Rightarrow> (u16 list \<times> u16 list option) option" where
  "v6_head [] = None"
| "v6_head (s # ss) =
     (if s = [] then (if ss = [[]] then Some ([], Some []) else map_option (\<lambda>r. ([], Some r)) (v6_tail ss))
      else case v6_group s of
             Some g \<Rightarrow> if ss = [] then Some ([g], None) else map_option (map_prod ((#) g) id) (v6_head ss)
           | None \<Rightarrow> if ss = [] then map_option (\<lambda>q. (q, None)) (v6_quad s) else None)"

definition v6_groups :: "jstr list \<Rightarrow> u16 list option" where
  "v6_groups ps =
     (case v6_head ps of
        None \<Rightarrow> None
      | Some (l, None) \<Rightarrow> if length l = 8 then Some l else None
      | Some (l, Some r) \<Rightarrow> if length l + length r < 8 then Some (l @ replicate (8 - length l - length r) 0 @ r) else None)"

definition v6_parse :: "jstr \<Rightarrow> u16 list option" where
  "v6_parse t =
     (case split_on colon t of
        [] # ss \<Rightarrow> (case ss of [] # rest \<Rightarrow> if rest = [] then None else v6_groups ss | _ \<Rightarrow> None)
      | ss \<Rightarrow> v6_groups ss)"

definition v6_word :: "u16 list \<Rightarrow> 128 word" where
  "v6_word gs = word_of_nat (foldl (\<lambda>a g. 65536 * a + unat g) 0 gs)"

definition isIPv4 :: "jstr \<Rightarrow> bool" where
  "isIPv4 t \<longleftrightarrow> v4_parse t \<noteq> None"

text \<open>An IPv6 address may carry a zone.\<close>

definition isIPv6 :: "jstr \<Rightarrow> bool" where
  "isIPv6 t \<longleftrightarrow> v6_parse (takeWhile (\<lambda>c. c \<noteq> percent) t) \<noteq> None \<and>
     (case dropWhile (\<lambda>c. c \<noteq> percent) t of
        [] \<Rightarrow> True
      | _ # zone \<Rightarrow> zone \<noteq> [] \<and> list_all (\<lambda>c. lower_or_digit c \<or> upper c \<or> c = point \<or> c = colon \<or> c = unit_of (CHR ''-'')) zone)"

text \<open>A rule of a \<open>BlockList\<close>: the leading bits of the address are those of the subnet.\<close>

definition check_v4 :: "jstr \<Rightarrow> nat \<Rightarrow> jstr \<Rightarrow> bool" where
  "check_v4 subnet bits address =
     (case (v4_parse subnet, v4_parse address) of
        (Some s, Some a) \<Rightarrow> drop_bit (32 - bits) (v4_word a) = drop_bit (32 - bits) (v4_word s)
      | _ \<Rightarrow> False)"

definition check_v6 :: "jstr \<Rightarrow> nat \<Rightarrow> jstr \<Rightarrow> bool" where
  "check_v6 subnet bits address =
     (case (v6_parse subnet, v6_parse address) of
        (Some s, Some a) \<Rightarrow> drop_bit (128 - bits) (v6_word a) = drop_bit (128 - bits) (v6_word s)
      | _ \<Rightarrow> False)"

section \<open>The classifier\<close>

datatype address_refusal =
    Loopback | PrivateNet | LinkLocal | SharedNet | Unspecified | MulticastNet | ReservedNet | Documentation

datatype address_class = PublicAddress | RefusedAddress address_refusal

record range_rule =
  rr_subnet :: jstr
  rr_prefix :: nat
  rr_reason :: address_refusal

definition rule :: "string \<Rightarrow> nat \<Rightarrow> address_refusal \<Rightarrow> range_rule" where
  "rule subnet bits reason = \<lparr>rr_subnet = js subnet, rr_prefix = bits, rr_reason = reason\<rparr>"

definition ipv4_rules :: "range_rule list" where
  "ipv4_rules =
     [rule ''0.0.0.0'' 8 Unspecified, rule ''10.0.0.0'' 8 PrivateNet, rule ''100.64.0.0'' 10 SharedNet,
      rule ''127.0.0.0'' 8 Loopback, rule ''169.254.0.0'' 16 LinkLocal, rule ''172.16.0.0'' 12 PrivateNet,
      rule ''192.0.0.0'' 24 ReservedNet, rule ''192.0.2.0'' 24 Documentation, rule ''192.88.99.0'' 24 ReservedNet,
      rule ''192.168.0.0'' 16 PrivateNet, rule ''198.18.0.0'' 15 ReservedNet, rule ''198.51.100.0'' 24 Documentation,
      rule ''203.0.113.0'' 24 Documentation, rule ''224.0.0.0'' 4 MulticastNet, rule ''240.0.0.0'' 4 ReservedNet]"

definition ipv6_rules :: "range_rule list" where
  "ipv6_rules =
     [rule ''::'' 128 Unspecified, rule ''::1'' 128 Loopback, rule ''64:ff9b:1::'' 48 ReservedNet,
      rule ''100::'' 64 ReservedNet, rule ''2001::'' 32 ReservedNet, rule ''2001::'' 23 ReservedNet,
      rule ''2001:db8::'' 32 Documentation, rule ''3fff::'' 20 Documentation, rule ''fc00::'' 7 PrivateNet,
      rule ''fe80::'' 10 LinkLocal, rule ''fec0::'' 10 PrivateNet, rule ''ff00::'' 8 MulticastNet]"

definition ipv6_global_unicast :: range_rule where
  "ipv6_global_unicast = rule ''2000::'' 3 ReservedNet"

record embedding =
  em_lead :: "u16 list"
  em_at :: nat

definition embeddings :: "embedding list" where
  "embeddings =
     [\<lparr>em_lead = [0, 0, 0, 0, 0, 0xffff], em_at = 6\<rparr>, \<lparr>em_lead = [0, 0, 0, 0, 0xffff, 0], em_at = 6\<rparr>,
      \<lparr>em_lead = [0, 0, 0, 0, 0, 0], em_at = 6\<rparr>, \<lparr>em_lead = [0x64, 0xff9b, 0, 0, 0, 0], em_at = 6\<rparr>,
      \<lparr>em_lead = [0x2002], em_at = 1\<rparr>]"

definition firstMatch :: "range_rule list \<Rightarrow> (jstr \<Rightarrow> nat \<Rightarrow> jstr \<Rightarrow> bool) \<Rightarrow> jstr \<Rightarrow> address_refusal option" where
  "firstMatch rules check address =
     map_option rr_reason (find (\<lambda>r. check (rr_subnet r) (rr_prefix r) address) rules)"

definition classifyIPv4 :: "jstr \<Rightarrow> address_class" where
  "classifyIPv4 address =
     (case firstMatch ipv4_rules check_v4 address of None \<Rightarrow> PublicAddress | Some reason \<Rightarrow> RefusedAddress reason)"

text \<open>\<open>address.split('::')\<close> gives the part in front of the first \<open>::\<close> and the one up to the next.\<close>

definition double_colon :: jstr where
  "double_colon = [colon, colon]"

definition cut_gap :: "jstr \<Rightarrow> jstr \<times> jstr option" where
  "cut_gap t =
     (case index_of double_colon t of
        None \<Rightarrow> (t, None)
      | Some i \<Rightarrow>
          (let rest = drop (i + 2) t
           in (take i t, Some (case index_of double_colon rest of None \<Rightarrow> rest | Some j \<Rightarrow> take j rest))))"

definition dottedToGroups :: "jstr \<Rightarrow> u16 list" where
  "dottedToGroups dotted =
     (case map decimal_value (split_on point dotted) of
        a # b # c # d # _ \<Rightarrow> [push_bit 8 (word_of_nat a) OR word_of_nat b, push_bit 8 (word_of_nat c) OR word_of_nat d]
      | _ \<Rightarrow> [])"

definition hexGroups :: "jstr \<Rightarrow> u16 list" where
  "hexGroups part =
     (if part = [] then []
      else concat (map (\<lambda>g. if isIPv4 g then dottedToGroups g else [word_of_nat (hex_value g)]) (split_on colon part)))"

definition ipv6Groups :: "jstr \<Rightarrow> u16 list" where
  "ipv6Groups address =
     (case cut_gap address of (head, tail) \<Rightarrow>
       (let l = hexGroups head; r = (case tail of None \<Rightarrow> [] | Some t \<Rightarrow> hexGroups t)
        in l @ replicate (8 - length l - length r) 0 @ r))"

definition group_at :: "u16 list \<Rightarrow> nat \<Rightarrow> u16" where
  "group_at gs i = (if i < length gs then gs ! i else 0)"

definition dotted_text :: "u16 \<Rightarrow> u16 \<Rightarrow> jstr" where
  "dotted_text high low =
     join_with [point] (map (\<lambda>g. decimal (unat g)) [drop_bit 8 high, high AND 0xff, drop_bit 8 low, low AND 0xff])"

definition embeddedIPv4 :: "u16 list \<Rightarrow> jstr option" where
  "embeddedIPv4 gs =
     map_option (\<lambda>form. dotted_text (group_at gs (em_at form)) (group_at gs (em_at form + 1)))
       (find (\<lambda>form. list_all (\<lambda>(i, v). i < length gs \<and> gs ! i = v) (enumerate 0 (em_lead form))) embeddings)"

definition classifyIPv6 :: "jstr \<Rightarrow> address_class" where
  "classifyIPv6 address =
     (case firstMatch ipv6_rules check_v6 address of
        Some reason \<Rightarrow> RefusedAddress reason
      | None \<Rightarrow>
          (case embeddedIPv4 (ipv6Groups address) of
             Some inner \<Rightarrow> classifyIPv4 inner
           | None \<Rightarrow>
               if check_v6 (rr_subnet ipv6_global_unicast) (rr_prefix ipv6_global_unicast) address then PublicAddress
               else RefusedAddress ReservedNet))"

definition withoutZone :: "jstr \<Rightarrow> jstr" where
  "withoutZone ip =
     (case index_of [percent] ip of
        None \<Rightarrow> ip
      | Some i \<Rightarrow> if isIPv6 (take i ip) then take i ip else ip)"

text \<open>\<^const>\<open>None\<close> is the \<open>TypeError\<close> for what is not an address.\<close>

definition classifyAddress :: "unicode \<Rightarrow> jstr \<Rightarrow> address_class option" where
  "classifyAddress u ip =
     (let address = to_lower u (withoutZone ip)
      in if isIPv4 address then Some (classifyIPv4 address)
         else if isIPv6 address then Some (classifyIPv6 address)
         else None)"

end
