(* ===== verification/Net_Address_Exact.thy ===== *)
theory Net_Address_Exact
  imports Net_Address
begin

text \<open>
  What the classifier decides, over the numbers the addresses stand for: the special-purpose ranges by their
  first and last address, and the IPv4 address inside an IPv6 one. The hand-written reader of IPv6 text
  agrees with the platform's.
\<close>

unbundle bit_operations_syntax

section \<open>The ranges\<close>

text \<open>The special-purpose ranges of the registries, by their first and last address.\<close>

definition ranges4 :: "(32 word \<times> 32 word \<times> address_refusal) list" where
  "ranges4 =
     [(0x00000000, 0x00ffffff, Unspecified), (0x0a000000, 0x0affffff, PrivateNet), (0x64400000, 0x647fffff, SharedNet),
      (0x7f000000, 0x7fffffff, Loopback), (0xa9fe0000, 0xa9feffff, LinkLocal), (0xac100000, 0xac1fffff, PrivateNet),
      (0xc0000000, 0xc00000ff, ReservedNet), (0xc0000200, 0xc00002ff, Documentation),
      (0xc0586300, 0xc05863ff, ReservedNet), (0xc0a80000, 0xc0a8ffff, PrivateNet),
      (0xc6120000, 0xc613ffff, ReservedNet), (0xc6336400, 0xc63364ff, Documentation),
      (0xcb007100, 0xcb0071ff, Documentation), (0xe0000000, 0xefffffff, MulticastNet),
      (0xf0000000, 0xffffffff, ReservedNet)]"

definition ranges6 :: "(128 word \<times> 128 word \<times> address_refusal) list" where
  "ranges6 =
     [(0, 0, Unspecified), (1, 1, Loopback),
      (0x0064ff9b000100000000000000000000, 0x0064ff9b0001ffffffffffffffffffff, ReservedNet),
      (0x01000000000000000000000000000000, 0x0100000000000000ffffffffffffffff, ReservedNet),
      (0x20010000000000000000000000000000, 0x20010000ffffffffffffffffffffffff, ReservedNet),
      (0x20010000000000000000000000000000, 0x200101ffffffffffffffffffffffffff, ReservedNet),
      (0x20010db8000000000000000000000000, 0x20010db8ffffffffffffffffffffffff, Documentation),
      (0x3fff0000000000000000000000000000, 0x3fff0fffffffffffffffffffffffffff, Documentation),
      (0xfc000000000000000000000000000000, 0xfdffffffffffffffffffffffffffffff, PrivateNet),
      (0xfe800000000000000000000000000000, 0xfebfffffffffffffffffffffffffffff, LinkLocal),
      (0xfec00000000000000000000000000000, 0xfeffffffffffffffffffffffffffffff, PrivateNet),
      (0xff000000000000000000000000000000, 0xffffffffffffffffffffffffffffffff, MulticastNet)]"

definition in_ranges :: "('a::linorder \<times> 'a \<times> 'r) list \<Rightarrow> 'a \<Rightarrow> 'r option" where
  "in_ranges rs a = map_option (snd \<circ> snd) (find (\<lambda>(lo, hi, r). lo \<le> a \<and> a \<le> hi) rs)"

definition class4 :: "32 word \<Rightarrow> address_class" where
  "class4 a = (case in_ranges ranges4 a of None \<Rightarrow> PublicAddress | Some r \<Rightarrow> RefusedAddress r)"

text \<open>The IPv4 address inside an IPv6 address: mapped, translated, compatible, NAT64 and 6to4.\<close>

definition inner_v4 :: "128 word \<Rightarrow> 32 word option" where
  "inner_v4 a =
     (if drop_bit 32 a \<in> {0xffff, 0xffff0000, 0, 0x0064ff9b0000000000000000} then Some (ucast a)
      else if drop_bit 112 a = 0x2002 then Some (ucast (drop_bit 80 a))
      else None)"

definition class6 :: "128 word \<Rightarrow> address_class" where
  "class6 a =
     (case in_ranges ranges6 a of
        Some r \<Rightarrow> RefusedAddress r
      | None \<Rightarrow>
          (case inner_v4 a of
             Some b \<Rightarrow> class4 b
           | None \<Rightarrow>
               if 0x20000000000000000000000000000000 \<le> a \<and> a \<le> 0x3fffffffffffffffffffffffffffffff then PublicAddress
               else RefusedAddress ReservedNet))"

lemma same_prefix_iff:
  fixes a b :: "'a::len word"
  assumes k: "k \<le> LENGTH('a)" and b: "b AND mask k = 0"
  shows "drop_bit k a = drop_bit k b \<longleftrightarrow> b \<le> a \<and> a \<le> b OR mask k"
proof -
  have mk: "unat (mask k :: 'a word) = mask k" using min_absorb2[OF k] by (simp add: unat_eq_nat_uint uint_mask_eq nat_mask_eq)
  then have m: "unat (mask k :: 'a word) = 2 ^ k - 1" by (simp add: mask_eq_exp_minus_1)
  have "unat b AND mask k = unat (b AND mask k)" by (simp only: unsigned_and_eq mk)
  then have "unat b AND mask k = 0" using b by simp
  then have "unat b mod 2 ^ k = 0" by (simp flip: take_bit_eq_mask take_bit_eq_mod)
  then obtain q where q: "unat b = 2 ^ k * q" by auto
  have "b OR mask k = b + mask k" using b by (metis word_plus_and_or add_0)
  moreover have "unat b + (2 ^ k - 1) < 2 ^ LENGTH('a)"
  proof -
    have "unat b < 2 ^ LENGTH('a)" by (rule unsigned_less)
    then have "2 ^ k * q < 2 ^ k * 2 ^ (LENGTH('a) - k)" using k by (simp add: q flip: power_add)
    then have "Suc q \<le> 2 ^ (LENGTH('a) - k)" by simp
    then have "2 ^ k * Suc q \<le> 2 ^ k * 2 ^ (LENGTH('a) - k)" by (rule mult_le_mono2)
    then have "2 ^ k * q + 2 ^ k \<le> 2 ^ LENGTH('a)" using k by (simp flip: power_add)
    moreover have "(0::nat) < 2 ^ k" by simp
    ultimately show ?thesis unfolding q by linarith
  qed
  ultimately have hi: "unat (b OR mask k) = unat b + (2 ^ k - 1)" using m by (simp add: unat_word_ariths)
  have "drop_bit k a = drop_bit k b \<longleftrightarrow> unat a div 2 ^ k = unat b div 2 ^ k"
    unfolding word_unat_eq_iff unsigned_drop_bit_eq by (simp add: drop_bit_eq_div take_bit_nat_eq_self[OF unsigned_less])
  also have "\<dots> \<longleftrightarrow> 2 ^ k * q \<le> unat a \<and> unat a < 2 ^ k * q + 2 ^ k"
  proof -
    have "unat a div 2 ^ k = q \<longleftrightarrow> 2 ^ k * q \<le> unat a \<and> unat a < 2 ^ k * q + 2 ^ k"
      by (metis (no_types, lifting) add.commute div_nat_eqI mult.commute mult_Suc mult_Suc_right times_div_less_eq_dividend dividend_less_times_div zero_less_numeral zero_less_power)
    then show ?thesis by (simp add: q)
  qed
  also have "\<dots> \<longleftrightarrow> b \<le> a \<and> a \<le> b OR mask k"
  proof -
    have "(0::nat) < 2 ^ k" by simp
    then show ?thesis unfolding word_le_nat_alt hi q by linarith
  qed
  finally show ?thesis .
qed

section \<open>Rules and ranges\<close>

lemma firstMatch_ranges:
  assumes "list_all2 (\<lambda>r (lo, hi, x). rr_reason r = x \<and> (check (rr_subnet r) (rr_prefix r) t \<longleftrightarrow> lo \<le> a \<and> a \<le> hi)) rules ranges"
  shows "firstMatch rules check t = in_ranges ranges a"
  using assms by (induction rule: list_all2_induct) (auto simp: firstMatch_def in_ranges_def)

definition rule_is :: "(jstr \<Rightarrow> 'a::len word option) \<Rightarrow> range_rule \<Rightarrow> 'a word \<times> 'a word \<times> address_refusal \<Rightarrow> bool" where
  "rule_is parse r rg \<longleftrightarrow>
     (case rg of (lo, hi, x) \<Rightarrow> parse (rr_subnet r) = Some lo \<and> rr_prefix r \<le> LENGTH('a) \<and>
        lo AND mask (LENGTH('a) - rr_prefix r) = 0 \<and> lo OR mask (LENGTH('a) - rr_prefix r) = hi \<and> rr_reason r = x)"

definition v4_address :: "jstr \<Rightarrow> 32 word option" where
  "v4_address t = map_option v4_word (v4_parse t)"

definition v6_address :: "jstr \<Rightarrow> 128 word option" where
  "v6_address t = map_option v6_word (v6_parse t)"

lemma check_v4_range:
  assumes "rule_is v4_address r (lo, hi, x)" and "v4_address t = Some a"
  shows "check_v4 (rr_subnet r) (rr_prefix r) t \<longleftrightarrow> lo \<le> a \<and> a \<le> hi"
  using assms same_prefix_iff[of "32 - rr_prefix r" lo a]
  by (auto simp: rule_is_def v4_address_def check_v4_def)

lemma check_v6_range:
  assumes "rule_is v6_address r (lo, hi, x)" and "v6_address t = Some a"
  shows "check_v6 (rr_subnet r) (rr_prefix r) t \<longleftrightarrow> lo \<le> a \<and> a \<le> hi"
  using assms same_prefix_iff[of "128 - rr_prefix r" lo a]
  by (auto simp: rule_is_def v6_address_def check_v6_def)

lemmas read_v4 = v4_parse_def v4_segment_def is_digit_def in_range_def decimal_value_def js_unfold unit_of_Char

lemma replicate_eval: "replicate (numeral k) x = x # replicate (pred_numeral k) x"
  by (simp add: numeral_eq_Suc)

lemma ipv4_rules_ranges: "list_all2 (rule_is v4_address) ipv4_rules ranges4"
  by (simp add: ipv4_rules_def ranges4_def rule_def rule_is_def v4_address_def v4_word_def read_v4 mask_eq_exp_minus_1)

lemma subnets_v6: "map (\<lambda>r. v6_parse (rr_subnet r)) (ipv6_global_unicast # ipv6_rules) = map Some
   [[0x2000, 0, 0, 0, 0, 0, 0, 0], [0, 0, 0, 0, 0, 0, 0, 0], [0, 0, 0, 0, 0, 0, 0, 1], [0x64, 0xff9b, 1, 0, 0, 0, 0, 0],
    [0x100, 0, 0, 0, 0, 0, 0, 0], [0x2001, 0, 0, 0, 0, 0, 0, 0], [0x2001, 0, 0, 0, 0, 0, 0, 0],
    [0x2001, 0xdb8, 0, 0, 0, 0, 0, 0], [0x3fff, 0, 0, 0, 0, 0, 0, 0], [0xfc00, 0, 0, 0, 0, 0, 0, 0],
    [0xfe80, 0, 0, 0, 0, 0, 0, 0], [0xfec0, 0, 0, 0, 0, 0, 0, 0], [0xff00, 0, 0, 0, 0, 0, 0, 0]]"
  by (simp add: ipv6_rules_def ipv6_global_unicast_def rule_def v6_parse_def v6_groups_def v6_group_def is_hex_def
      hex_value_def hex_digit_def read_v4 replicate_eval)

lemma ipv6_rules_ranges: "list_all2 (rule_is v6_address) ipv6_rules ranges6"
  using subnets_v6
  by (simp add: ipv6_rules_def ipv6_global_unicast_def ranges6_def rule_def rule_is_def v6_address_def v6_word_def mask_eq_exp_minus_1)

lemma global_unicast_range:
  "rule_is v6_address ipv6_global_unicast (0x20000000000000000000000000000000, 0x3fffffffffffffffffffffffffffffff, ReservedNet)"
  using subnets_v6
  by (simp add: ipv6_rules_def ipv6_global_unicast_def rule_def rule_is_def v6_address_def v6_word_def mask_eq_exp_minus_1)

lemma classifyIPv4_exact:
  assumes "v4_address t = Some a"
  shows "classifyIPv4 t = class4 a"
proof -
  have "firstMatch ipv4_rules check_v4 t = in_ranges ranges4 a"
    by (rule firstMatch_ranges, rule list_all2_mono[OF ipv4_rules_ranges])
      (auto simp: check_v4_range[OF _ assms] rule_is_def)
  then show ?thesis by (simp add: classifyIPv4_def class4_def)
qed

lemma ipv6_first_exact:
  assumes "v6_address t = Some a"
  shows "firstMatch ipv6_rules check_v6 t = in_ranges ranges6 a"
  by (rule firstMatch_ranges, rule list_all2_mono[OF ipv6_rules_ranges])
    (auto simp: check_v6_range[OF _ assms] rule_is_def)

section \<open>The groups the code reads\<close>

definition groups_of_piece :: "jstr \<Rightarrow> u16 list" where
  "groups_of_piece g = (if isIPv4 g then dottedToGroups g else [word_of_nat (hex_value g)])"

lemma hexGroups_join:
  assumes "ps \<noteq> []" and "\<forall>p \<in> set ps. colon \<notin> set p \<and> p \<noteq> []"
  shows "hexGroups (join_with [colon] ps) = concat (map groups_of_piece ps)"
proof -
  have "join_with [colon] ps \<noteq> []" using assms by (cases ps; cases "tl ps") auto
  then show ?thesis using assms by (simp add: hexGroups_def split_join groups_of_piece_def[abs_def])
qed

lemma point_not_hex: "\<not> is_hex point" "\<not> is_digit colon" "\<not> is_hex colon"
  by (simp_all add: is_hex_def is_digit_def in_range_def js_unfold)

lemma group_of_piece:
  assumes "v6_group s = Some g"
  shows "groups_of_piece s = [g]"
proof -
  have "list_all is_hex s" and g: "g = word_of_nat (hex_value s)" using assms by (auto simp: v6_group_def split: if_splits)
  then have "point \<notin> set s" using point_not_hex by (auto simp: list_all_iff)
  then have "\<not> isIPv4 s" by (simp add: isIPv4_def v4_parse_def split_on_single)
  then show ?thesis by (simp add: groups_of_piece_def g)
qed

lemma v4_parse_bytes: "v4_parse s = Some bs \<Longrightarrow> length bs = 4 \<and> (\<forall>b \<in> set bs. b < 256)"
  by (auto simp: v4_parse_def Let_def v4_segment_def list_all_iff split: if_splits)

lemma byte_pair:
  assumes "a < 256" and "b < 256"
  shows "push_bit 8 (word_of_nat a :: u16) OR word_of_nat b = word_of_nat (256 * a + b)"
proof -
  have "n < 8" if "bit b n" for n
    using that assms(2) bit_take_bit_iff[of 8 b n] by (simp add: take_bit_nat_eq_self)
  moreover have "8 \<le> n" if "bit (push_bit 8 a) n" for n
    using that by (simp add: bit_push_bit_iff)
  ultimately have "push_bit 8 a + b = push_bit 8 a OR b"
    by (intro disjunctive_add) (meson not_le)
  then have "256 * a + b = push_bit 8 a OR b" by (simp add: push_bit_eq_mult mult.commute)
  then show ?thesis by (simp add: of_nat_or_eq of_nat_push_bit)
qed

lemma quad_of_piece:
  assumes "v6_quad s = Some q"
  shows "groups_of_piece s = q"
proof -
  obtain a b c d where abcd: "v4_parse s = Some [a, b, c, d]"
    and q: "q = [word_of_nat (256 * a + b), word_of_nat (256 * c + d)]"
    using assms by (auto simp: v6_quad_def split: option.splits list.splits)
  have "map decimal_value (split_on point s) = [a, b, c, d]"
    using abcd by (auto simp: v4_parse_def Let_def split: if_splits)
  then show ?thesis
    using v4_parse_bytes[OF abcd] by (simp add: groups_of_piece_def isIPv4_def abcd dottedToGroups_def byte_pair q)
qed

lemma v6_quad_nonempty: "v6_quad s \<noteq> None \<Longrightarrow> s \<noteq> []"
  by (auto simp: v6_quad_def v4_parse_def)

lemma v6_group_nonempty: "v6_group s \<noteq> None \<Longrightarrow> s \<noteq> []"
  by (auto simp: v6_group_def)

lemma v6_tail_groups:
  "v6_tail ps = Some r \<Longrightarrow> ps \<noteq> [] \<and> (\<forall>p \<in> set ps. p \<noteq> []) \<and> concat (map groups_of_piece ps) = r"
proof (induction ps arbitrary: r rule: v6_tail.induct)
  case (2 s)
  then show ?case
    using v6_quad_nonempty[of s] v6_group_nonempty[of s] by (auto simp: group_of_piece quad_of_piece split: option.splits)
next
  case (3 s p ps)
  then show ?case using v6_group_nonempty[of s] by (auto simp: group_of_piece split: option.splits)
qed simp

lemma v6_head_groups:
  "v6_head ps = Some (l, tail) \<Longrightarrow>
     (case tail of
        None \<Rightarrow> (\<forall>p \<in> set ps. p \<noteq> []) \<and> concat (map groups_of_piece ps) = l
      | Some r \<Rightarrow> \<exists>L R. ps = L @ [] # R \<and> (\<forall>p \<in> set L. p \<noteq> []) \<and> concat (map groups_of_piece L) = l \<and>
          (R = [[]] \<and> r = [] \<or> v6_tail R = Some r))"
proof (induction ps arbitrary: l tail)
  case (Cons s ss)
  show ?case
  proof (cases "s = []")
    case True
    then obtain r where "tail = Some r" "l = []" "ss = [[]] \<and> r = [] \<or> v6_tail ss = Some r"
      using Cons.prems by (auto split: if_splits)
    then have "s # ss = [] @ [] # ss \<and> (\<forall>p \<in> set []. p \<noteq> []) \<and> concat (map groups_of_piece []) = l \<and>
        (ss = [[]] \<and> r = [] \<or> v6_tail ss = Some r)" using True by simp
    with \<open>tail = Some r\<close> show ?thesis by (simp only: option.case) blast
  next
    case False
    show ?thesis
    proof (cases "v6_group s")
      case None
      with False Cons.prems show ?thesis by (auto simp: quad_of_piece split: if_splits)
    next
      case (Some g)
      show ?thesis
      proof (cases "ss = []")
        case True
        with False Some Cons.prems show ?thesis by (auto simp: group_of_piece)
      next
        case ss: False
        then obtain l' where rest: "v6_head ss = Some (l', tail)" and l: "l = g # l'"
          using False Some Cons.prems by (auto simp: map_prod_def)
        show ?thesis
        proof (cases tail)
          case None
          with Cons.IH[OF rest] show ?thesis by (simp add: False l group_of_piece[OF Some])
        next
          case (Some r)
          with Cons.IH[OF rest] obtain L R where "ss = L @ [] # R" "\<forall>p \<in> set L. p \<noteq> []" "concat (map groups_of_piece L) = l'"
            "R = [[]] \<and> r = [] \<or> v6_tail R = Some r" by auto
          then have "s # ss = (s # L) @ [] # R \<and> (\<forall>p \<in> set (s # L). p \<noteq> []) \<and> concat (map groups_of_piece (s # L)) = l \<and>
              (R = [[]] \<and> r = [] \<or> v6_tail R = Some r)"
            using False by (simp add: l group_of_piece[OF \<open>v6_group s = Some g\<close>])
          then show ?thesis unfolding Some option.case by blast
        qed
      qed
    qed
  qed
qed simp

text \<open>The first gap of a joined list of pieces is the one behind it.\<close>

lemma index_of_no_colon:
  "colon \<notin> set s \<Longrightarrow> index_of double_colon (s @ ys) = map_option ((+) (length s)) (index_of double_colon ys)"
proof (induction s)
  case (Cons c s)
  then have "\<not> prefix double_colon (c # s @ ys)" by (auto simp: double_colon_def)
  then show ?case using Cons by (cases "index_of double_colon ys") simp_all
qed (cases "index_of double_colon ys"; simp)

lemma index_of_colon_once:
  "y \<noteq> colon \<Longrightarrow> index_of double_colon (colon # y # ys) = map_option Suc (index_of double_colon (y # ys))"
  by (simp add: double_colon_def)

lemma index_of_join:
  assumes "ps \<noteq> []" and "\<forall>p \<in> set ps. colon \<notin> set p \<and> p \<noteq> []"
  shows "index_of double_colon (join_with [colon] ps @ ys) =
    map_option ((+) (length (join_with [colon] ps))) (index_of double_colon ys)"
  using assms
proof (induction "[colon]" ps rule: join_with.induct)
  case (3 p q qs)
  obtain y z where yz: "join_with [colon] (q # qs) = y # z" "y \<noteq> colon"
    using 3(3) by (cases q; cases qs) auto
  have "index_of double_colon (join_with [colon] (p # q # qs) @ ys) =
      map_option ((+) (length p)) (map_option Suc (index_of double_colon (join_with [colon] (q # qs) @ ys)))"
    using 3(3) yz by (simp add: index_of_no_colon index_of_colon_once del: index_of.simps)
  then show ?case using 3 by (cases "index_of double_colon ys") (simp_all del: index_of.simps)
qed (simp_all add: index_of_no_colon del: index_of.simps)

lemma join_gap: "join_with [c] (ps @ [] # qs) = (if ps = [] then [] else join_with [c] ps @ [c]) @ (if qs = [] then [] else c # join_with [c] qs)"
  by (induction "[c]" ps rule: join_with.induct; cases qs) auto

lemma cut_gap_none: "ps \<noteq> [] \<Longrightarrow> \<forall>p \<in> set ps. colon \<notin> set p \<and> p \<noteq> [] \<Longrightarrow>
    cut_gap (join_with [colon] ps) = (join_with [colon] ps, None)"
  using index_of_join[of ps "[]"] by (simp add: cut_gap_def double_colon_def)

text \<open>Behind the gap there is no other one.\<close>

lemma cut_gap_some:
  assumes front: "\<forall>p \<in> set ps. colon \<notin> set p \<and> p \<noteq> []" and behind: "qs = [] \<or> (\<forall>p \<in> set qs. colon \<notin> set p \<and> p \<noteq> [])"
  shows "cut_gap (join_with [colon] ps @ double_colon @ join_with [colon] qs) =
    (join_with [colon] ps, Some (join_with [colon] qs))"
proof -
  have "index_of double_colon (double_colon @ ys) = Some 0" for ys by (simp add: double_colon_def)
  then have "index_of double_colon (join_with [colon] ps @ double_colon @ join_with [colon] qs) = Some (length (join_with [colon] ps))"
    using index_of_join[OF _ front] by (cases "ps = []") (simp_all del: index_of.simps)
  moreover have "index_of double_colon (join_with [colon] qs) = None"
    using index_of_join[of qs "[]"] behind by (cases "qs = []") (simp_all add: double_colon_def)
  ultimately show ?thesis by (simp add: cut_gap_def double_colon_def)
qed

lemma hexGroups_pieces:
  "\<forall>p \<in> set ps. colon \<notin> set p \<and> p \<noteq> [] \<Longrightarrow> hexGroups (join_with [colon] ps) = concat (map groups_of_piece ps)"
  by (cases "ps = []") (simp_all add: hexGroups_join, simp add: hexGroups_def)

lemma v6_groups_read:
  assumes gs: "v6_groups ps = Some gs" and no_colon: "\<forall>p \<in> set ps. colon \<notin> set p"
    and t: "t = (if hd ps = [] then colon # join_with [colon] ps else join_with [colon] ps)"
  shows "ipv6Groups t = gs \<and> length gs = 8"
proof -
  obtain l tail where head: "v6_head ps = Some (l, tail)" using gs by (auto simp: v6_groups_def split: option.splits)
  note pieces = v6_head_groups[OF head]
  have "ps \<noteq> []" using head by auto
  show ?thesis
  proof (cases tail)
    case None
    then have full: "\<forall>p \<in> set ps. colon \<notin> set p \<and> p \<noteq> []" "concat (map groups_of_piece ps) = l" using pieces no_colon by auto
    then have "t = join_with [colon] ps" using \<open>ps \<noteq> []\<close> by (simp add: t)
    then show ?thesis
      using gs head None full cut_gap_none[OF \<open>ps \<noteq> []\<close> full(1)] hexGroups_pieces[OF full(1)]
      by (auto simp: v6_groups_def ipv6Groups_def split: if_splits)
  next
    case (Some r)
    then obtain L R where ps: "ps = L @ [] # R" and L: "\<forall>p \<in> set L. p \<noteq> []" "concat (map groups_of_piece L) = l"
      and R: "R = [[]] \<and> r = [] \<or> v6_tail R = Some r" using pieces by auto
    define Q where "Q = (if R = [[]] then [] else R)"
    have "R \<noteq> []" using R by auto
    have v6_tail_Nil: "v6_tail [[]] = None" by (simp add: v6_group_def v6_quad_def v4_parse_def)
    have Q: "\<forall>p \<in> set Q. colon \<notin> set p \<and> p \<noteq> []" "concat (map groups_of_piece Q) = r" "join_with [colon] R = join_with [colon] Q"
      using R v6_tail_groups[of R r] no_colon v6_tail_Nil by (auto simp: Q_def ps)
    have L': "\<forall>p \<in> set L. colon \<notin> set p \<and> p \<noteq> []" using L no_colon by (simp add: ps)
    have "hd ps = [] \<longleftrightarrow> L = []" using L by (cases L) (auto simp: ps)
    then have "t = join_with [colon] L @ double_colon @ join_with [colon] Q"
      using \<open>R \<noteq> []\<close> join_gap[of colon "[]" R] by (simp add: t ps join_gap Q(3) double_colon_def)
    then have "cut_gap t = (join_with [colon] L, Some (join_with [colon] Q))"
      using cut_gap_some[OF L', of Q] Q(1) by auto
    then have "ipv6Groups t = l @ replicate (8 - length l - length r) 0 @ r"
      by (simp add: ipv6Groups_def hexGroups_pieces[OF L'] hexGroups_pieces[OF Q(1)] L(2) Q(2))
    moreover have "gs = l @ replicate (8 - length l - length r) 0 @ r \<and> length gs = 8"
      using gs head Some by (auto simp: v6_groups_def split: if_splits)
    ultimately show ?thesis by metis
  qed
qed

text \<open>The two readings agree on the text of an address.\<close>

lemma ipv6Groups_exact:
  assumes "v6_parse t = Some gs"
  shows "ipv6Groups t = gs \<and> length gs = 8"
proof -
  have t: "t = join_with [colon] (split_on colon t)" and nc: "\<forall>p \<in> set (split_on colon t). colon \<notin> set p"
    by (auto dest: split_on_no_sep)
  obtain p ps where ps: "split_on colon t = p # ps" by (cases "split_on colon t") auto
  show ?thesis
  proof (cases "p = []")
    case True
    then obtain rest where rest: "ps = [] # rest" "rest \<noteq> []" "v6_groups ps = Some gs"
      using assms by (auto simp: v6_parse_def ps split: list.splits if_splits)
    then have "t = colon # join_with [colon] ps" using t True by (simp add: ps)
    moreover have "\<forall>q \<in> set ps. colon \<notin> set q" using nc by (simp add: ps)
    ultimately show ?thesis using v6_groups_read[OF rest(3), of t] rest(1) by simp
  next
    case False
    then have "v6_groups (split_on colon t) = Some gs" using assms by (cases p) (simp_all add: v6_parse_def ps)
    from v6_groups_read[OF this nc] t False show ?thesis by (simp add: ps)
  qed
qed

section \<open>Groups and numbers\<close>

definition base65536 :: "nat \<Rightarrow> u16 list \<Rightarrow> nat" where
  "base65536 n gs = foldl (\<lambda>a g. 65536 * a + unat g) n gs"

lemma unat_u16: "unat (g :: u16) < 65536"
proof -
  have "unat g < 2 ^ LENGTH(16)" by (rule unsigned_less)
  then show ?thesis by simp
qed

lemma unat_shifted: "unat (drop_bit k w) = unat w div 2 ^ k"
  unfolding unsigned_drop_bit_eq by (simp add: drop_bit_eq_div take_bit_nat_eq_self[OF unsigned_less])

lemma unat_number: "n < 2 ^ LENGTH('a) \<Longrightarrow> unat (word_of_nat n :: 'a::len word) = n"
  by (simp add: unat_of_nat take_bit_nat_eq_self)

lemma base65536_append: "base65536 n (xs @ ys) = base65536 (base65536 n xs) ys"
  by (simp add: base65536_def)

lemma base65536_shift: "base65536 n gs = n * 65536 ^ length gs + base65536 0 gs"
proof (induction gs arbitrary: n)
  case (Cons g gs)
  show ?case using Cons[of "65536 * n + unat g"] Cons[of "unat g"] by (simp add: base65536_def algebra_simps)
qed (simp add: base65536_def)

lemma base65536_less: "base65536 0 gs < 65536 ^ length gs"
proof (induction gs)
  case (Cons g gs)
  have "base65536 0 (g # gs) = unat g * 65536 ^ length gs + base65536 0 gs"
    using base65536_shift[of "unat g" gs] by (simp add: base65536_def)
  also have "\<dots> < unat g * 65536 ^ length gs + 65536 ^ length gs" using Cons by simp
  also have "\<dots> = Suc (unat g) * 65536 ^ length gs" by simp
  also have "\<dots> \<le> 65536 * 65536 ^ length gs" using unat_u16[of g] by (intro mult_le_mono1) simp
  finally show ?case by simp
qed (simp add: base65536_def)

lemma base65536_div_mod:
  "base65536 n gs div 65536 ^ length gs = n" "base65536 n gs mod 65536 ^ length gs = base65536 0 gs"
  using base65536_less[of gs] base65536_shift[of n gs] by simp_all

lemma base65536_inj: "base65536 0 xs = base65536 0 ys \<Longrightarrow> length xs = length ys \<Longrightarrow> xs = ys"
proof (induction xs arbitrary: ys rule: rev_induct)
  case (snoc x xs)
  then obtain y zs where ys: "ys = zs @ [y]" by (cases ys rule: rev_cases) auto
  have eq: "base65536 (base65536 0 xs) [x] = base65536 (base65536 0 zs) [y]" using snoc.prems(1) by (simp only: ys base65536_append)
  have "base65536 0 xs = base65536 0 zs" using base65536_div_mod(1)[of _ "[x]"] base65536_div_mod(1)[of _ "[y]"] eq
    by (metis length_Cons list.size(3))
  moreover have "base65536 0 [x] = base65536 0 [y]" using base65536_div_mod(2)[of _ "[x]"] base65536_div_mod(2)[of _ "[y]"] eq
    by (metis length_Cons list.size(3))
  then have "unat x = unat y" by (simp add: base65536_def)
  ultimately show ?case using snoc.IH[of zs] snoc.prems(2) by (simp add: ys word_unat_eq_iff)
qed simp

lemma unat_v6_word:
  assumes "length gs \<le> 8"
  shows "unat (v6_word gs) = base65536 0 gs"
proof -
  have "base65536 0 gs < 65536 ^ 8"
    using base65536_less[of gs] power_increasing[OF assms, of "65536 :: nat"] by simp
  then show ?thesis by (simp add: v6_word_def base65536_def unat_of_nat take_bit_nat_eq_self)
qed

lemma v6_word_inj: "v6_word xs = v6_word ys \<longleftrightarrow> xs = ys" if "length xs = length ys" "length ys \<le> 8"
  using that base65536_inj[of xs ys] by (auto simp: word_unat_eq_iff unat_v6_word)

definition pair_word :: "u16 \<Rightarrow> u16 \<Rightarrow> 32 word" where
  "pair_word high low = word_of_nat (65536 * unat high + unat low)"

lemma drop_v6_word:
  assumes "length xs + length ys \<le> 8"
  shows "drop_bit (16 * length ys) (v6_word (xs @ ys)) = v6_word xs"
proof -
  have "unat (drop_bit (16 * length ys) (v6_word (xs @ ys))) = base65536 0 (xs @ ys) div 65536 ^ length ys"
    using assms power_mult[of "2 :: nat" 16 "length ys"] by (simp add: unat_shifted unat_v6_word)
  also have "\<dots> = base65536 0 xs" by (simp only: base65536_append base65536_div_mod)
  finally show ?thesis using assms by (simp add: word_unat_eq_iff unat_v6_word)
qed

lemma ucast_v6_word:
  assumes "length xs \<le> 6"
  shows "ucast (v6_word (xs @ [h, l])) = pair_word h l"
proof -
  have "unat (ucast (v6_word (xs @ [h, l])) :: 32 word) = base65536 0 (xs @ [h, l]) mod 65536 ^ length [h, l]"
    using assms by (simp add: unsigned_ucast_eq unat_v6_word take_bit_eq_mod)
  also have "\<dots> = base65536 0 [h, l]" by (simp only: base65536_append base65536_div_mod)
  also have "\<dots> = unat (pair_word h l)"
    using unat_u16[of h] unat_u16[of l] unat_number[of "65536 * unat h + unat l", where 'a = 32]
    by (simp add: base65536_def pair_word_def del: of_nat_add of_nat_mult)
  finally show ?thesis by (simp add: word_unat_eq_iff)
qed

section \<open>The IPv4 address inside\<close>

lemma decimal_digits: "list_all is_digit (decimal n)"
proof (induction n rule: decimal.induct)
  case (1 n)
  have "is_digit (digit d)" if "d < 10" for d
    using unat_digit[OF that] that by (simp add: is_digit_def in_range_def word_le_nat_alt js_unfold)
  then show ?case using 1 by (subst decimal.simps) simp
qed

lemma decimal_small:
  assumes "n < 256"
  shows "v4_segment (decimal n)"
proof -
  have zero: "d < 10 \<Longrightarrow> digit d = unit_of (CHR ''0'') \<longleftrightarrow> d = 0" for d
    using unat_digit[of d] unat_digit[of 0] by (auto simp: word_unat_eq_iff js_unfold)
  have "decimal n = (if n < 10 then [digit n] else if n < 100 then [digit (n div 10), digit (n mod 10)]
      else [digit (n div 100), digit (n div 10 mod 10), digit (n mod 10)])"
    using assms by (simp add: decimal.simps[of n] decimal.simps[of "n div 10"] decimal.simps[of "n div 100"] div_mult2_eq[symmetric])
      arith
  then have "decimal n \<noteq> [] \<and> length (decimal n) \<le> 3 \<and> (hd (decimal n) = unit_of (CHR ''0'') \<longrightarrow> length (decimal n) = 1)"
    using assms by (auto simp: zero)
  then show ?thesis using assms decimal_digits by (simp add: v4_segment_def)
qed

lemma decimal_no_point: "point \<notin> set (decimal n)"
  using decimal_digits[of n] point_not_hex by (auto simp: list_all_iff is_hex_def)

lemma v4_parse_decimals:
  assumes "length bs = 4" and "\<forall>b \<in> set bs. b < 256"
  shows "v4_parse (join_with [point] (map decimal bs)) = Some bs"
proof -
  have "split_on point (join_with [point] (map decimal bs)) = map decimal bs"
    using assms by (intro split_join) (auto simp: decimal_no_point)
  then show ?thesis using assms by (simp add: v4_parse_def list_all_iff decimal_small o_def)
qed

lemma dotted_address: "v4_address (dotted_text high low) = Some (pair_word high low)"
proof -
  let ?bs = "map unat [drop_bit 8 high, high AND 0xff, drop_bit 8 low, low AND 0xff]"
  have hi: "unat (drop_bit 8 g :: u16) = unat g div 256" for g
    by (simp add: unat_shifted)
  have mask: "(0xff :: u16) = mask 8" by (simp add: mask_eq_exp_minus_1)
  have lo: "unat (g AND 0xff :: u16) = unat g mod 256" for g
    unfolding mask take_bit_eq_mask[symmetric] unsigned_take_bit_eq by (simp add: take_bit_eq_mod)
  have "v4_parse (join_with [point] (map decimal ?bs)) = Some ?bs"
    using unat_u16[of high] unat_u16[of low] by (intro v4_parse_decimals) (auto simp: hi lo)
  moreover have "foldl (\<lambda>a b. 256 * a + b) 0 ?bs = 65536 * unat high + unat low"
    unfolding list.map hi lo by simp
  ultimately show ?thesis
    by (simp add: v4_address_def dotted_text_def v4_word_def pair_word_def o_def)
qed


lemma length_lead: "length gs = 8 \<Longrightarrow> \<exists>a b c d e f g h. gs = [a, b, c, d, e, f, g, h]"
  by (auto simp: length_Suc_conv numeral_eq_Suc)

lemma embedded_exact:
  assumes "length gs = 8"
  shows "Option.bind (embeddedIPv4 gs) v4_address = inner_v4 (v6_word gs) \<and>
    (embeddedIPv4 gs = None \<longleftrightarrow> inner_v4 (v6_word gs) = None)"
proof -
  obtain a b c d e f h l where gs: "gs = [a, b, c, d, e, f, h, l]" using length_lead[OF assms] by blast
  have lead: "drop_bit 32 (v6_word gs) = v6_word [a, b, c, d, e, f]"
    using drop_v6_word[of "[a, b, c, d, e, f]" "[h, l]"] by (simp add: gs)
  have first: "drop_bit 112 (v6_word gs) = v6_word [a]"
    using drop_v6_word[of "[a]" "[b, c, d, e, f, h, l]"] by (simp add: gs)
  have mid: "drop_bit 80 (v6_word gs) = v6_word ([a] @ [b, c])"
    using drop_v6_word[of "[a, b, c]" "[d, e, f, h, l]"] by (simp add: gs)
  have inner: "ucast (v6_word gs) = pair_word h l" using ucast_v6_word[of "[a, b, c, d, e, f]" h l] by (simp add: gs)
  have six: "ucast (v6_word [x, b, c]) = pair_word b c" for x using ucast_v6_word[of "[x]" b c] by simp
  have forms: "(0xffff :: 128 word) = v6_word [0, 0, 0, 0, 0, 0xffff]" "(0xffff0000 :: 128 word) = v6_word [0, 0, 0, 0, 0xffff, 0]"
    "(0 :: 128 word) = v6_word [0, 0, 0, 0, 0, 0]" "(0x0064ff9b0000000000000000 :: 128 word) = v6_word [0x64, 0xff9b, 0, 0, 0, 0]"
    "(0x2002 :: 128 word) = v6_word [0x2002]"
    by (simp_all add: v6_word_def)
  have "inner_v4 (v6_word gs) =
      (if [a, b, c, d, e, f] \<in> {[0, 0, 0, 0, 0, 0xffff], [0, 0, 0, 0, 0xffff, 0], [0, 0, 0, 0, 0, 0], [0x64, 0xff9b, 0, 0, 0, 0]}
       then Some (pair_word h l) else if a = 0x2002 then Some (pair_word b c) else None)"
    unfolding inner_v4_def lead first mid inner forms by (simp add: v6_word_inj six)
  then show ?thesis
    by (auto simp: embeddedIPv4_def embeddings_def gs group_at_def dotted_address)
qed

section \<open>The classifier is exact\<close>

lemma classifyIPv6_exact:
  assumes "v6_address t = Some a"
  shows "classifyIPv6 t = class6 a"
proof -
  obtain gs where gs: "v6_parse t = Some gs" "a = v6_word gs" using assms by (auto simp: v6_address_def)
  have read: "ipv6Groups t = gs" "length gs = 8" using ipv6Groups_exact[OF gs(1)] by simp_all
  have unicast: "check_v6 (rr_subnet ipv6_global_unicast) (rr_prefix ipv6_global_unicast) t \<longleftrightarrow>
      0x20000000000000000000000000000000 \<le> a \<and> a \<le> 0x3fffffffffffffffffffffffffffffff"
    by (rule check_v6_range[OF global_unicast_range assms])
  show ?thesis
  proof (cases "embeddedIPv4 gs")
    case None
    then have "inner_v4 a = None" using embedded_exact[OF read(2)] by (simp add: gs(2))
    with None show ?thesis
      unfolding classifyIPv6_def class6_def ipv6_first_exact[OF assms] read(1) unicast
      by (simp cong: option.case_cong)
  next
    case (Some inner)
    then obtain b where b: "v4_address inner = Some b" "inner_v4 a = Some b"
      using embedded_exact[OF read(2)] by (cases "inner_v4 a") (auto simp: gs(2))
    then show ?thesis
      unfolding classifyIPv6_def class6_def ipv6_first_exact[OF assms] read(1) Some
      by (simp add: b(2) classifyIPv4_exact[OF b(1)] cong: option.case_cong)
  qed
qed

text \<open>The address a text stands for when it is dialed. A zone picks the interface and is no part of it.\<close>

datatype ip_address = V4 "32 word" | V6 "128 word"

definition address_of :: "jstr \<Rightarrow> ip_address option" where
  "address_of ip =
     (case v4_address ip of
        Some a \<Rightarrow> Some (V4 a)
      | None \<Rightarrow> map_option V6 (v6_address (takeWhile (\<lambda>c. c \<noteq> percent) ip)))"

fun class_of_address :: "ip_address \<Rightarrow> address_class" where
  "class_of_address (V4 a) = class4 a"
| "class_of_address (V6 a) = class6 a"

lemma unat_lower: "unat (ascii_lower c) = (if 65 \<le> unat c \<and> unat c \<le> 90 then unat c + 32 else unat c)"
  by (auto simp: ascii_lower_def upper_def in_range_def js_unfold word_le_nat_alt unat_word_ariths)

lemma lower_kept: "is_digit c \<Longrightarrow> ascii_lower c = c" "ascii_lower c = point \<longleftrightarrow> c = point"
    "ascii_lower c = colon \<longleftrightarrow> c = colon" "ascii_lower c = percent \<longleftrightarrow> c = percent"
    "is_digit (ascii_lower c) = is_digit c" "is_hex (ascii_lower c) = is_hex c"
    "is_hex c \<Longrightarrow> hex_digit (ascii_lower c) = hex_digit c"
  by (auto simp: is_digit_def is_hex_def hex_digit_def in_range_def js_unfold word_le_nat_alt word_unat_eq_iff unat_lower)

lemma split_lower: "ascii_lower k = k \<Longrightarrow> (\<And>c. ascii_lower c = k \<longleftrightarrow> c = k) \<Longrightarrow>
    split_on k (map ascii_lower t) = map (map ascii_lower) (split_on k t)"
  by (induction t) (auto split: list.splits)

lemma v4_segment_lower: "v4_segment (map ascii_lower s) = v4_segment s" "v4_segment s \<Longrightarrow> map ascii_lower s = s"
proof -
  have same: "list_all is_digit s \<Longrightarrow> map ascii_lower s = s"
    by (induction s) (simp_all add: lower_kept)
  then show "v4_segment s \<Longrightarrow> map ascii_lower s = s" by (simp add: v4_segment_def)
  show "v4_segment (map ascii_lower s) = v4_segment s"
  proof (cases "list_all is_digit s")
    case False
    then have "\<not> list_all is_digit (map ascii_lower s)" by (simp add: list_all_iff lower_kept)
    with False show ?thesis by (simp add: v4_segment_def)
  qed (simp add: same)
qed

lemma v4_parse_lower: "v4_parse (map ascii_lower t) = v4_parse t"
proof -
  have split: "split_on point (map ascii_lower t) = map (map ascii_lower) (split_on point t)"
    by (rule split_lower) (simp_all add: lower_kept)
  show ?thesis
  proof (cases "list_all v4_segment (split_on point t)")
    case True
    then have "map (map ascii_lower) (split_on point t) = split_on point t"
      by (simp add: list_all_iff v4_segment_lower(2) map_idI)
    then show ?thesis by (simp add: v4_parse_def split)
  next
    case False
    then have "\<not> list_all v4_segment (map (map ascii_lower) (split_on point t))"
      by (simp add: list_all_iff v4_segment_lower(1))
    with False show ?thesis by (simp add: v4_parse_def split Let_def)
  qed
qed

lemma v6_group_lower: "v6_group (map ascii_lower s) = v6_group s"
proof -
  have "list_all is_hex s \<Longrightarrow> foldl (\<lambda>a c. 16 * a + hex_digit c) n (map ascii_lower s) = foldl (\<lambda>a c. 16 * a + hex_digit c) n s" for n
    by (induction s arbitrary: n) (simp_all add: lower_kept)
  then have "list_all is_hex s \<Longrightarrow> hex_value (map ascii_lower s) = hex_value s" by (simp add: hex_value_def)
  moreover have "list_all is_hex (map ascii_lower s) = list_all is_hex s" by (simp add: list_all_iff lower_kept)
  ultimately show ?thesis by (auto simp: v6_group_def)
qed

lemma v6_quad_lower: "v6_quad (map ascii_lower s) = v6_quad s"
  by (simp add: v6_quad_def v4_parse_lower)

lemma v6_tail_lower: "v6_tail (map (map ascii_lower) ps) = v6_tail ps"
  by (induction ps rule: v6_tail.induct) (simp_all add: v6_group_lower v6_quad_lower cong: option.case_cong)

lemma v6_head_lower: "v6_head (map (map ascii_lower) ps) = v6_head ps"
proof (induction ps)
  case (Cons p ps)
  have "map (map ascii_lower) ps = [[]] \<longleftrightarrow> ps = [[]]" by (auto simp: map_eq_Cons_conv)
  with Cons show ?case by (simp add: v6_group_lower v6_quad_lower v6_tail_lower cong: option.case_cong)
qed simp

lemma v6_parse_lower: "v6_parse (map ascii_lower t) = v6_parse t"
proof -
  have split: "split_on colon (map ascii_lower t) = map (map ascii_lower) (split_on colon t)"
    by (rule split_lower) (simp_all add: lower_kept)
  have groups: "v6_groups (map (map ascii_lower) ps) = v6_groups ps" for ps by (simp add: v6_groups_def v6_head_lower)
  obtain p ps where ps: "split_on colon t = p # ps" by (cases "split_on colon t") auto
  show ?thesis
  proof (cases "p = []")
    case True
    then show ?thesis
      using groups[of ps] by (cases ps; cases "hd ps") (simp_all add: v6_parse_def split ps)
  next
    case False
    then show ?thesis using groups[of "p # ps"] by (cases p) (simp_all add: v6_parse_def split ps)
  qed
qed

lemma split_on_chars: "c \<in> set t \<Longrightarrow> c = k \<or> (\<exists>s \<in> set (split_on k t). c \<in> set s)"
  by (induction t) (auto split: list.splits if_splits)

lemma v4_chars:
  assumes "v4_parse t = Some bs"
  shows "t \<noteq> [] \<and> (\<forall>c \<in> set t. c = point \<or> is_digit c)" and "\<forall>c \<in> set t. c \<noteq> percent \<and> c \<noteq> colon"
proof -
  have segs: "\<forall>s \<in> set (split_on point t). v4_segment s" "length (split_on point t) = 4"
    using assms by (auto simp: v4_parse_def Let_def list_all_iff split: if_splits)
  then show chars: "t \<noteq> [] \<and> (\<forall>c \<in> set t. c = point \<or> is_digit c)"
    using split_on_chars[of _ t point] by (fastforce simp: v4_segment_def list_all_iff)
  have "\<not> is_digit percent" by (simp add: is_digit_def in_range_def js_unfold)
  with chars show "\<forall>c \<in> set t. c \<noteq> percent \<and> c \<noteq> colon" using point_not_hex by auto
qed

lemma v4_not_v6: "v4_parse t = Some bs \<Longrightarrow> v6_parse t = None"
proof -
  assume v4: "v4_parse t = Some bs"
  then have "split_on colon t = [t]" and "t \<noteq> []" using v4_chars[OF v4] by (auto intro: split_on_single)
  then have "v6_parse t = v6_groups [t]" by (cases t) (simp_all add: v6_parse_def)
  also have "\<dots> = None"
    using \<open>t \<noteq> []\<close> by (auto simp: v6_groups_def v6_quad_def split: option.splits list.splits)
  finally show ?thesis .
qed

lemma withoutZone_bare:
  "withoutZone ip = (if v6_parse (takeWhile (\<lambda>c. c \<noteq> percent) ip) \<noteq> None then takeWhile (\<lambda>c. c \<noteq> percent) ip else ip)"
proof -
  have bare: "takeWhile (\<lambda>c. c \<noteq> percent) (takeWhile (\<lambda>c. c \<noteq> percent) ip) = takeWhile (\<lambda>c. c \<noteq> percent) ip"
    "dropWhile (\<lambda>c. c \<noteq> percent) (takeWhile (\<lambda>c. c \<noteq> percent) ip) = []"
    by (auto simp: takeWhile_eq_all_conv dropWhile_eq_Nil_conv dest: set_takeWhileD)
  have v6: "isIPv6 (takeWhile (\<lambda>c. c \<noteq> percent) ip) \<longleftrightarrow> v6_parse (takeWhile (\<lambda>c. c \<noteq> percent) ip) \<noteq> None"
    by (simp add: isIPv6_def bare)
  have "index_of [percent] ip = (if percent \<in> set ip then Some (length (takeWhile (\<lambda>c. c \<noteq> percent) ip)) else None)"
    by (induction ip) auto
  moreover have "take (length (takeWhile (\<lambda>c. c \<noteq> percent) ip)) ip = takeWhile (\<lambda>c. c \<noteq> percent) ip"
    by (metis takeWhile_eq_take)
  moreover have "takeWhile (\<lambda>c. c \<noteq> percent) ip = ip" if "percent \<notin> set ip" using that by (induction ip) auto
  ultimately show ?thesis using v6 by (cases "percent \<in> set ip") (simp_all add: withoutZone_def del: takeWhile_eq_all_conv)
qed

lemma classify_reads:
  assumes "to_lower u (withoutZone ip) = map ascii_lower (withoutZone ip)"
  shows "classifyAddress u ip = map_option class_of_address (address_of ip)"
proof -
  let ?bare = "takeWhile (\<lambda>c. c \<noteq> percent) ip"
  have cut: "takeWhile (\<lambda>c. c \<noteq> percent) (map ascii_lower s) = map ascii_lower (takeWhile (\<lambda>c. c \<noteq> percent) s)" for s
    by (induction s) (simp_all add: lower_kept)
  have v4: "v4_address (map ascii_lower s) = v4_address s" and v6: "v6_address (map ascii_lower s) = v6_address s" for s
    by (simp_all add: v4_address_def v6_address_def v4_parse_lower v6_parse_lower)
  show ?thesis
  proof (cases "v4_parse ip")
    case (Some bs)
    have "?bare = ip" using v4_chars[OF Some] by (simp add: takeWhile_eq_all_conv)
    then have "withoutZone ip = ip" by (simp add: withoutZone_bare del: takeWhile_eq_all_conv)
    then have "to_lower u (withoutZone ip) = map ascii_lower ip" using assms by simp
    then have "classifyAddress u ip = Some (classifyIPv4 (map ascii_lower ip))"
      using Some by (simp add: classifyAddress_def isIPv4_def v4_parse_lower)
    moreover have "v4_address (map ascii_lower ip) = Some (v4_word bs)" using Some by (simp add: v4) (simp add: v4_address_def)
    ultimately show ?thesis using Some by (simp add: classifyIPv4_exact address_of_def v4_address_def)
  next
    case None
    then have addr: "address_of ip = map_option V6 (v6_address ?bare)" by (simp add: address_of_def v4_address_def)
    show ?thesis
    proof (cases "v6_parse ?bare")
      case (Some gs)
      then have low: "to_lower u (withoutZone ip) = map ascii_lower ?bare" using assms by (simp add: withoutZone_bare)
      have "v4_parse ?bare = None" using v4_not_v6 Some by (metis option.exhaust option.discI)
      moreover have "takeWhile (\<lambda>c. c \<noteq> percent) ?bare = ?bare" by (auto simp: takeWhile_eq_all_conv dest: set_takeWhileD)
      moreover have "dropWhile (\<lambda>c. c \<noteq> percent) (map ascii_lower ?bare) = []"
        by (auto simp: lower_kept dest: set_takeWhileD)
      ultimately have "classifyAddress u ip = Some (classifyIPv6 (map ascii_lower ?bare))"
        using Some by (simp add: classifyAddress_def low isIPv4_def isIPv6_def v4_parse_lower v6_parse_lower cut del: dropWhile_eq_Nil_conv)
      moreover have "v6_address (map ascii_lower ?bare) = Some (v6_word gs)" using Some by (simp add: v6) (simp add: v6_address_def)
      ultimately show ?thesis using Some by (simp add: addr classifyIPv6_exact v6_address_def)
    next
      case noaddr: None
      then have "to_lower u (withoutZone ip) = map ascii_lower ip" using assms by (simp add: withoutZone_bare)
      then show ?thesis
        using None noaddr by (simp add: classifyAddress_def isIPv4_def isIPv6_def v4_parse_lower v6_parse_lower cut addr v6_address_def)
    qed
  qed
qed

text \<open>
  C26. The classifier is exact: it refuses or admits a text by the address it stands for, and only texts of addresses.
  An IPv4 address is refused with the reason of the first special-purpose range it lies in and public in none
  of them. An IPv6 address that carries an IPv4 one is judged by that, unless a range of its own refuses it;
  any other is public within 2000::/3 only. It does not matter how the text spells the address: the case
  of its digits, where the zeros are compressed, whether its end is dotted, or a zone.
\<close>

theorem classify_exact:
  assumes "to_lower u (withoutZone ip) = map ascii_lower (withoutZone ip)"
  shows "classifyAddress u ip = map_option class_of_address (address_of ip)"
  by (rule classify_reads[OF assms])

text \<open>An address with a dotted end inside a NAT64 prefix.\<close>

lemma sample_address: "address_of (js ''64:FF9B::10.0.0.1'') = Some (V6 0x0064ff9b00000000000000000a000001)"
  by (simp add: address_of_def v4_address_def v6_address_def v6_word_def v6_parse_def v6_groups_def v6_group_def v6_quad_def
      is_hex_def hex_value_def hex_digit_def read_v4 replicate_eval)

theorem classify_exact_witness:
  "classifyAddress ascii_unicode (js ''64:FF9B::10.0.0.1'') = Some (RefusedAddress PrivateNet)"
proof -
  have "class6 0x0064ff9b00000000000000000a000001 = RefusedAddress PrivateNet"
    by (simp add: class6_def in_ranges_def ranges6_def inner_v4_def class4_def ranges4_def word_le_nat_alt[of _ 1])
  then show ?thesis by (subst classify_exact) (simp_all add: ascii_unicode_def sample_address)
qed

end
