(* ===== verification/Net_Guard.thy ===== *)
theory Net_Guard
  imports Net_Address_Exact
begin

text \<open>
  The guard of outgoing connections (\<open>net/upstream-guard.ts\<close>, \<open>upstream-guard-errors.ts\<close>) and the screening of
  the headers of incoming requests (\<open>net/origin-host.ts\<close>). The resolver and \<open>new URL\<close> are arguments.
\<close>

section \<open>Refusals\<close>

datatype upstream_refusal = AddressRefused address_refusal | SchemeRefused | PortRefused

datatype address_source = FromLiteral | FromResolved

record refused_error =
  re_host :: jstr
  re_reason :: upstream_refusal
  re_message :: jstr

fun address_refusal_str :: "address_refusal \<Rightarrow> jstr" where
  "address_refusal_str Loopback = js ''loopback''"
| "address_refusal_str PrivateNet = js ''private''"
| "address_refusal_str LinkLocal = js ''link-local''"
| "address_refusal_str SharedNet = js ''shared''"
| "address_refusal_str Unspecified = js ''unspecified''"
| "address_refusal_str MulticastNet = js ''multicast''"
| "address_refusal_str ReservedNet = js ''reserved''"
| "address_refusal_str Documentation = js ''documentation''"

definition articleFor :: "jstr \<Rightarrow> jstr" where
  "articleFor word = (if word \<noteq> [] \<and> hd word \<in> set (js ''aeiou'') then js ''an'' else js ''a'')"

definition tenant_scope :: jstr where
  "tenant_scope = js ''this install reaches only public https servers (tenant mode)''"

definition scheme_scope :: jstr where
  "scheme_scope = js ''this install reaches only https servers (tenant mode)''"

definition port_scope :: jstr where
  "port_scope = js ''this install reaches only port 443 (tenant mode)''"

fun explain :: "upstream_refusal \<Rightarrow> address_source \<Rightarrow> jstr" where
  "explain SchemeRefused source = scheme_scope"
| "explain PortRefused source = port_scope"
| "explain (AddressRefused reason) source =
     (let r = address_refusal_str reason
      in (case source of FromLiteral \<Rightarrow> js ''it is'' | FromResolved \<Rightarrow> js ''it resolves to'') @ js '' '' @ articleFor r @
         js '' '' @ r @ js '' address; '' @ tenant_scope)"

definition refused_address :: "jstr \<Rightarrow> upstream_refusal \<Rightarrow> address_source \<Rightarrow> refused_error" where
  "refused_address host reason source =
     \<lparr>re_host = host, re_reason = reason,
      re_message = js ''refused to connect to '' @ host @ js '': '' @ explain reason source\<rparr>"

section \<open>The guard\<close>

record guard_url =
  gu_protocol :: jstr
  gu_hostname :: jstr
  gu_port :: jstr

definition withoutBrackets :: "jstr \<Rightarrow> jstr" where
  "withoutBrackets hostname =
     (if hostname \<noteq> [] \<and> hd hostname = unit_of (CHR ''['') \<and> last hostname = unit_of (CHR '']'')
      then butlast (tl hostname) else hostname)"

definition is_ip :: "jstr \<Rightarrow> bool" where
  "is_ip t \<longleftrightarrow> isIPv4 t \<or> isIPv6 t"

text \<open>The error the code throws, if any.\<close>

definition checkUrl :: "unicode \<Rightarrow> guard_url \<Rightarrow> refused_error option" where
  "checkUrl u url =
     (let host = withoutBrackets (gu_hostname url)
      in if gu_protocol url \<noteq> js ''https:'' then Some (refused_address host SchemeRefused FromResolved)
         else
           case (if is_ip host then classifyAddress u host else None) of
             Some (RefusedAddress reason) \<Rightarrow> Some (refused_address host (AddressRefused reason) FromLiteral)
           | _ \<Rightarrow> if gu_port url \<noteq> [] then Some (refused_address host PortRefused FromResolved) else None)"

text \<open>An entry of a resolver's answer, and what the guard hands on.\<close>

record lookup_address =
  la_address :: jstr
  la_family :: nat

datatype 'e lookup_error = ResolverError 'e | NotFound jstr | GuardRefused refused_error

datatype 'e lookup_result =
    LookupFailed "'e lookup_error"
  | LookupAll "lookup_address list"
  | LookupOne jstr nat

fun firstRefusal :: "unicode \<Rightarrow> lookup_address list \<Rightarrow> address_refusal option" where
  "firstRefusal u [] = None"
| "firstRefusal u (a # as) =
     (if \<not> is_ip (la_address a) then Some ReservedNet
      else case classifyAddress u (la_address a) of
             Some (RefusedAddress reason) \<Rightarrow> Some reason
           | _ \<Rightarrow> firstRefusal u as)"

definition deliver :: "bool \<Rightarrow> lookup_address \<Rightarrow> lookup_address list \<Rightarrow> 'e lookup_result" where
  "deliver wants_all first addresses =
     (if wants_all then LookupAll addresses else LookupOne (la_address first) (la_family first))"

text \<open>The outcome of \<open>resolveAll\<close>: an error, thrown or reported, or the addresses.\<close>

definition guardedLookup :: "unicode \<Rightarrow> jstr \<Rightarrow> bool \<Rightarrow> 'e + lookup_address list \<Rightarrow> 'e lookup_result" where
  "guardedLookup u hostname wants_all answer =
     (case answer of
        Inl e \<Rightarrow> LookupFailed (ResolverError e)
      | Inr [] \<Rightarrow> LookupFailed (NotFound hostname)
      | Inr (first # rest) \<Rightarrow>
          (case firstRefusal u (first # rest) of
             Some reason \<Rightarrow> LookupFailed (GuardRefused (refused_address hostname (AddressRefused reason) FromResolved))
           | None \<Rightarrow> deliver wants_all first (first # rest)))"

text \<open>The texts of the addresses a socket may dial after the lookup.\<close>

fun handed_out :: "'e lookup_result \<Rightarrow> jstr list" where
  "handed_out (LookupFailed e) = []"
| "handed_out (LookupAll as) = map la_address as"
| "handed_out (LookupOne a f) = [a]"

section \<open>Origin and host\<close>

record web_url =
  wu_protocol :: jstr
  wu_username :: jstr
  wu_password :: jstr
  wu_hostname :: jstr
  wu_port :: jstr
  wu_pathname :: jstr
  wu_search :: jstr
  wu_hash :: jstr

definition localhost_hostnames :: "jstr list" where
  "localhost_hostnames = map js [''127.0.0.1'', ''localhost'', ''::1'', ''[::1]'']"

definition isRejectedOriginFlagValue :: "jstr \<Rightarrow> bool" where
  "isRejectedOriginFlagValue v \<longleftrightarrow> v = js ''null''"

definition isOriginAllowed :: "(jstr \<Rightarrow> web_url option) \<Rightarrow> jstr option \<Rightarrow> jstr list \<Rightarrow> bool" where
  "isOriginAllowed parse_url originHeader extraAllowed \<longleftrightarrow>
     (case originHeader of
        None \<Rightarrow> True
      | Some origin \<Rightarrow>
          if origin \<in> set extraAllowed then True
          else case parse_url origin of
                 None \<Rightarrow> False
               | Some parsed \<Rightarrow>
                   if wu_protocol parsed \<noteq> js ''http:'' \<and> wu_protocol parsed \<noteq> js ''https:'' then False
                   else wu_hostname parsed \<in> set localhost_hostnames)"

record host_options =
  ho_boundHost :: jstr
  ho_port :: nat
  ho_extra :: "jstr list"

record parsed_host =
  ph_hostname :: jstr
  ph_port :: nat

definition http_default_port :: nat where
  "http_default_port = 80"

definition parseHostHeader :: "(jstr \<Rightarrow> web_url option) \<Rightarrow> jstr \<Rightarrow> parsed_host option" where
  "parseHostHeader parse_url header =
     (if unit_of (CHR 0x2f) \<in> set header \<or> (header \<noteq> [] \<and> last header = colon) then None
      else case parse_url (js ''http://'' @ header) of
             None \<Rightarrow> None
           | Some p \<Rightarrow>
               if wu_username p = [] \<and> wu_password p = [] \<and> wu_pathname p = js ''/'' \<and> wu_search p = [] \<and> wu_hash p = []
               then Some \<lparr>ph_hostname = wu_hostname p,
                      ph_port = (if wu_port p = [] then http_default_port else decimal_value (wu_port p))\<rparr>
               else None)"

definition normalizeHostname :: "unicode \<Rightarrow> (jstr \<Rightarrow> web_url option) \<Rightarrow> jstr \<Rightarrow> jstr" where
  "normalizeHostname u parse_url host =
     (let lowered = to_lower u host
      in if colon \<notin> set lowered then lowered
         else
           (let bare = withoutBrackets lowered
            in case parse_url (js ''http://['' @ bare @ js '']'') of
                 Some p \<Rightarrow> wu_hostname p
               | None \<Rightarrow> if hd lowered = unit_of (CHR ''['') then lowered else js ''['' @ lowered @ js '']''))"

definition wildcard_bind_hostnames :: "jstr list" where
  "wildcard_bind_hostnames = map js [''0.0.0.0'', ''[::]'']"

definition isWildcardBindHost :: "unicode \<Rightarrow> (jstr \<Rightarrow> web_url option) \<Rightarrow> jstr \<Rightarrow> bool" where
  "isWildcardBindHost u parse_url host \<longleftrightarrow> normalizeHostname u parse_url host \<in> set wildcard_bind_hostnames"

definition isHostAllowed :: "unicode \<Rightarrow> (jstr \<Rightarrow> web_url option) \<Rightarrow> jstr option \<Rightarrow> host_options \<Rightarrow> bool" where
  "isHostAllowed u parse_url hostHeader opts \<longleftrightarrow>
     (case hostHeader of
        None \<Rightarrow> False
      | Some header \<Rightarrow>
          (let headerLowered = to_lower u header
           in if \<exists>e \<in> set (ho_extra opts). to_lower u e = headerLowered then True
              else case parseHostHeader parse_url header of
                     None \<Rightarrow> False
                   | Some parsed \<Rightarrow>
                       if ph_port parsed \<noteq> ho_port opts then False
                       else if ph_hostname parsed \<in> set localhost_hostnames then True
                       else if isWildcardBindHost u parse_url (ho_boundHost opts) then False
                       else ph_hostname parsed = normalizeHostname u parse_url (ho_boundHost opts)))"

section \<open>What is dialed\<close>

text \<open>A globally reachable address: outside every special-purpose range, with whatever it carries.\<close>

definition outside :: "('a::linorder \<times> 'a \<times> 'r) list \<Rightarrow> 'a \<Rightarrow> bool" where
  "outside rs a \<longleftrightarrow> (\<forall>(lo, hi, r) \<in> set rs. a < lo \<or> hi < a)"

fun global_address :: "ip_address \<Rightarrow> bool" where
  "global_address (V4 a) \<longleftrightarrow> outside ranges4 a"
| "global_address (V6 a) \<longleftrightarrow> outside ranges6 a \<and>
     (case inner_v4 a of
        Some b \<Rightarrow> outside ranges4 b
      | None \<Rightarrow> 0x20000000000000000000000000000000 \<le> a \<and> a \<le> 0x3fffffffffffffffffffffffffffffff)"

lemma in_ranges_outside: "in_ranges rs a = None \<longleftrightarrow> outside rs a"
  by (auto simp: in_ranges_def outside_def find_None_iff not_le)

lemma class4_public: "class4 a = PublicAddress \<longleftrightarrow> outside ranges4 a"
  by (simp add: class4_def in_ranges_outside[symmetric] split: option.split)

lemma class_public: "class_of_address a = PublicAddress \<longleftrightarrow> global_address a"
proof (cases a)
  case (V6 b)
  then show ?thesis
    by (cases "in_ranges ranges6 b"; cases "inner_v4 b") (auto simp: class6_def class4_public in_ranges_outside[symmetric])
qed (simp add: class4_public)

lemma is_ip_address: "is_ip t \<Longrightarrow> address_of t \<noteq> None"
  by (auto simp: is_ip_def isIPv4_def isIPv6_def address_of_def v4_address_def v6_address_def split: option.split)

definition dialable :: "jstr \<Rightarrow> bool" where
  "dialable t \<longleftrightarrow> is_ip t \<and> (\<exists>a. address_of t = Some a \<and> global_address a)"

text \<open>Texts whose letters the runtime lowers as ASCII does, which the digits of an address are.\<close>

definition lowers_plainly :: "unicode \<Rightarrow> jstr \<Rightarrow> bool" where
  "lowers_plainly u t \<longleftrightarrow> to_lower u (withoutZone t) = map ascii_lower (withoutZone t)"

lemma classified_dialable:
  assumes "lowers_plainly u t" and "is_ip t"
  shows "classifyAddress u t = Some PublicAddress \<and> dialable t \<or> (\<exists>r. classifyAddress u t = Some (RefusedAddress r)) \<and> \<not> dialable t"
proof -
  obtain a where a: "address_of t = Some a" using is_ip_address[OF assms(2)] by blast
  have "classifyAddress u t = Some (class_of_address a)"
    using classify_reads[of u t] assms(1) by (simp add: lowers_plainly_def a)
  then show ?thesis
    using assms(2) class_public[of a] by (cases "class_of_address a") (auto simp: dialable_def a)
qed

lemma firstRefusal_None:
  "\<forall>a \<in> set as. lowers_plainly u (la_address a) \<Longrightarrow> firstRefusal u as = None \<longleftrightarrow> (\<forall>a \<in> set as. dialable (la_address a))"
proof (induction as)
  case (Cons a as)
  show ?case
  proof (cases "is_ip (la_address a)")
    case True
    from classified_dialable[OF _ this, of u] Cons True show ?thesis by auto
  qed (simp add: dialable_def)
qed simp


text \<open>
  C28. A URL passes the guard exactly when its scheme is https, it names no port, and a literal address in it is a
  global one.
\<close>

theorem url_admitted_iff:
  assumes "lowers_plainly u (withoutBrackets (gu_hostname url))"
  shows "checkUrl u url = None \<longleftrightarrow>
    gu_protocol url = js ''https:'' \<and> gu_port url = [] \<and>
    (is_ip (withoutBrackets (gu_hostname url)) \<longrightarrow> dialable (withoutBrackets (gu_hostname url)))"
  using classified_dialable[OF assms] by (auto simp: checkUrl_def Let_def)

text \<open>A name that resolves to a public and to a private address.\<close>

lemma sample_ipv4: "address_of (js ''93.184.216.34'') = Some (V4 0x5db8d822)" "address_of (js ''10.0.0.1'') = Some (V4 0x0a000001)"
  by (simp_all add: address_of_def v4_address_def v4_word_def read_v4)

lemma sample_global: "global_address (V4 0x5db8d822)" "\<not> global_address (V4 0x0a000001)"
  by (simp_all add: outside_def ranges4_def)

lemma sample_dialable: "dialable (js ''93.184.216.34'')" "\<not> dialable (js ''10.0.0.1'')"
proof -
  have "is_ip (js ''93.184.216.34'')" "is_ip (js ''10.0.0.1'')" by (simp_all add: is_ip_def isIPv4_def read_v4)
  then show "dialable (js ''93.184.216.34'')" "\<not> dialable (js ''10.0.0.1'')"
    using sample_global by (simp_all add: dialable_def sample_ipv4 del: global_address.simps)
qed


theorem url_admitted_iff_witness:
  "checkUrl ascii_unicode \<lparr>gu_protocol = js ''https:'', gu_hostname = js ''10.0.0.1'', gu_port = []\<rparr> \<noteq> None"
proof -
  have brackets: "withoutBrackets (js ''10.0.0.1'') = js ''10.0.0.1''" by (simp add: withoutBrackets_def js_unfold)
  have ip: "is_ip (js ''10.0.0.1'')" by (simp add: is_ip_def isIPv4_def read_v4)
  show ?thesis
    by (subst url_admitted_iff) (simp_all add: lowers_plainly_def ascii_unicode_def brackets ip sample_dialable)
qed

section \<open>Who may be asked for\<close>

text \<open>
  Whatever a page has its name resolve to, the host of an accepted request is a local name, the address the
  server is bound to, or a host the administrator listed.
\<close>

lemma allowed_host_known:
  assumes "isHostAllowed u parse_url (Some header) opts"
  shows "(\<exists>e \<in> set (ho_extra opts). to_lower u e = to_lower u header) \<or>
    (\<exists>p. parseHostHeader parse_url header = Some p \<and> ph_port p = ho_port opts \<and>
       (ph_hostname p \<in> set localhost_hostnames \<or>
        ph_hostname p = normalizeHostname u parse_url (ho_boundHost opts) \<and> ph_hostname p \<notin> set wildcard_bind_hostnames))"
  using assms by (auto simp: isHostAllowed_def Let_def isWildcardBindHost_def split: if_splits option.splits)

end
