(* ===== verification/Policy_File.thy ===== *)
theory Policy_File
  imports Json Machine
begin

text \<open>
  The write path of the policy file (\<open>policy/edit/policy-file.ts\<close>): compare-and-swap under a lock file that
  any number of processes contend for. The disk holds the policy's text and the age of the lock; every call
  that touches it is one step of a writer, so that a run is any interleaving of them, with failing calls and
  crashes. Loading, validating and fingerprinting a document are arguments.
\<close>

section \<open>Disk and writers\<close>

record policy_env =
  pe_path :: jstr
  pe_load :: "jstr \<Rightarrow> jstr list + jstr"
  pe_check :: "json \<Rightarrow> jstr list + jstr"
  pe_stringify :: "json \<Rightarrow> jstr"

record policy_disk =
  pd_policy :: "jstr option"
  pd_lock :: "int option"

datatype write_result =
    Written "jstr option" jstr
  | WriteConflict "jstr option"
  | WriteFailed "jstr list"

text \<open>The call a writer makes next; \<open>Settled\<close> once its promise is.\<close>

datatype writer_pc =
    TryLock | StatLock | BreakLock | DropParked | RetryLock | ReadForeign
  | ReadCurrent | WriteTemp | SwapIn | DropTemp jstr | Unlock write_result
  | Settled write_result | Crashed

record file_writer =
  fw_expected :: "jstr option"
  fw_document :: json
  fw_pc :: writer_pc

record policy_file =
  pf_disk :: policy_disk
  pf_writers :: "file_writer list"

text \<open>
  A write begins; writer \<open>n\<close> makes its next call at a time, which fails for another reason than the presence
  or absence of the file when a cause is given; writer \<open>n\<close> dies.
\<close>

datatype file_event =
    StartWrite json "jstr option"
  | Acts nat int "jstr option"
  | Dies nat

datatype file_output =
    Replaced "jstr option" "jstr option" jstr
  | Answered nat write_result

definition policy_lock_stale_ms :: int where
  "policy_lock_stale_ms = 10000"

definition dquoted :: "jstr \<Rightarrow> jstr" where
  "dquoted s = [34] @ s @ [34]"

definition cannot :: "string \<Rightarrow> policy_env \<Rightarrow> jstr \<Rightarrow> jstr" where
  "cannot verb env cause = js ''cannot '' @ js verb @ js '' policy file '' @ dquoted (pe_path env) @ js '': '' @ cause"

section \<open>The calls\<close>

text \<open>The hash of the policy in the file, \<open>None\<close> without a file, or why it could not be loaded.\<close>

definition readPolicyFileForEdit :: "policy_env \<Rightarrow> policy_disk \<Rightarrow> jstr option \<Rightarrow> jstr list + jstr option" where
  "readPolicyFileForEdit env d failed =
     (case failed of
        Some cause \<Rightarrow> Inl [cannot ''read'' env cause]
      | None \<Rightarrow> (case pd_policy d of None \<Rightarrow> Inr None | Some t \<Rightarrow> map_sum id Some (pe_load env t)))"

definition lock_failed :: "policy_env \<Rightarrow> jstr \<Rightarrow> writer_pc" where
  "lock_failed env cause = Settled (WriteFailed [cannot ''lock'' env cause])"

definition tryCreateLock :: "policy_env \<Rightarrow> int \<Rightarrow> jstr option \<Rightarrow> policy_disk \<Rightarrow> writer_pc \<Rightarrow> writer_pc \<times> policy_disk" where
  "tryCreateLock env now failed d taken =
     (case failed of
        Some cause \<Rightarrow> (lock_failed env cause, d)
      | None \<Rightarrow> (case pd_lock d of Some _ \<Rightarrow> (taken, d) | None \<Rightarrow> (ReadCurrent, d\<lparr>pd_lock := Some now\<rparr>)))"

definition stat_lock :: "policy_env \<Rightarrow> int \<Rightarrow> jstr option \<Rightarrow> policy_disk \<Rightarrow> writer_pc" where
  "stat_lock env now failed d =
     (case failed of
        Some cause \<Rightarrow> lock_failed env cause
      | None \<Rightarrow>
          (case pd_lock d of
             None \<Rightarrow> RetryLock
           | Some mtime \<Rightarrow> if now - mtime < policy_lock_stale_ms then ReadForeign else BreakLock))"

definition breakStaleLock :: "policy_env \<Rightarrow> jstr option \<Rightarrow> policy_disk \<Rightarrow> writer_pc \<times> policy_disk" where
  "breakStaleLock env failed d =
     (case failed of
        Some cause \<Rightarrow> (lock_failed env cause, d)
      | None \<Rightarrow> (case pd_lock d of None \<Rightarrow> (RetryLock, d) | Some _ \<Rightarrow> (DropParked, d\<lparr>pd_lock := None\<rparr>)))"

definition lockedByOther :: "policy_env \<Rightarrow> jstr option \<Rightarrow> policy_disk \<Rightarrow> write_result" where
  "lockedByOther env failed d =
     (case readPolicyFileForEdit env d failed of Inl errors \<Rightarrow> WriteFailed errors | Inr current \<Rightarrow> WriteConflict current)"

definition writeUnderLock :: "policy_env \<Rightarrow> jstr option \<Rightarrow> policy_disk \<Rightarrow> file_writer \<Rightarrow> writer_pc" where
  "writeUnderLock env failed d w =
     (case readPolicyFileForEdit env d failed of
        Inl errors \<Rightarrow> Unlock (WriteFailed errors)
      | Inr current \<Rightarrow>
          if current \<noteq> fw_expected w then Unlock (WriteConflict current)
          else case pe_check env (fw_document w) of
                 Inl errors \<Rightarrow> Unlock (WriteFailed errors)
               | Inr _ \<Rightarrow> WriteTemp)"

definition new_text :: "policy_env \<Rightarrow> file_writer \<Rightarrow> jstr" where
  "new_text env w = pe_stringify env (fw_document w) @ [10]"

definition written_by :: "policy_env \<Rightarrow> file_writer \<Rightarrow> write_result" where
  "written_by env w =
     Written (fw_expected w) (case pe_check env (fw_document w) of Inr h \<Rightarrow> h | Inl _ \<Rightarrow> [])"

text \<open>The next call of a writer: where it goes on, the disk behind it, and what the call does to the policy.\<close>

definition writer_acts ::
  "policy_env \<Rightarrow> nat \<Rightarrow> int \<Rightarrow> jstr option \<Rightarrow> policy_disk \<Rightarrow> file_writer \<Rightarrow> writer_pc \<times> policy_disk \<times> file_output list" where
  "writer_acts env n now failed d w =
     (case fw_pc w of
        TryLock \<Rightarrow> (case tryCreateLock env now failed d StatLock of (pc, d') \<Rightarrow> (pc, d', []))
      | StatLock \<Rightarrow> (stat_lock env now failed d, d, [])
      | BreakLock \<Rightarrow> (case breakStaleLock env failed d of (pc, d') \<Rightarrow> (pc, d', []))
      | DropParked \<Rightarrow> (RetryLock, d, [])
      | RetryLock \<Rightarrow> (case tryCreateLock env now failed d ReadForeign of (pc, d') \<Rightarrow> (pc, d', []))
      | ReadForeign \<Rightarrow> (Settled (lockedByOther env failed d), d, [])
      | ReadCurrent \<Rightarrow> (writeUnderLock env failed d w, d, [])
      | WriteTemp \<Rightarrow> (case failed of Some cause \<Rightarrow> DropTemp cause | None \<Rightarrow> SwapIn, d, [])
      | SwapIn \<Rightarrow>
          (case failed of
             Some cause \<Rightarrow> (DropTemp cause, d, [])
           | None \<Rightarrow> (Unlock (written_by env w), d\<lparr>pd_policy := Some (new_text env w)\<rparr>,
                       [Replaced (fw_expected w) (pd_policy d) (new_text env w)]))
      | DropTemp cause \<Rightarrow> (Unlock (WriteFailed [cannot ''write'' env cause]), d, [])
      | Unlock r \<Rightarrow> (Settled r, case failed of None \<Rightarrow> d\<lparr>pd_lock := None\<rparr> | Some _ \<Rightarrow> d, [])
      | Settled r \<Rightarrow> (Settled r, d, [])
      | Crashed \<Rightarrow> (Crashed, d, []))"

definition answer_of :: "nat \<Rightarrow> writer_pc \<Rightarrow> writer_pc \<Rightarrow> file_output list" where
  "answer_of n old new =
     (case new of Settled r \<Rightarrow> if old = Settled r then [] else [Answered n r] | _ \<Rightarrow> [])"

definition policy_file_step :: "policy_env \<Rightarrow> policy_file \<Rightarrow> file_event \<Rightarrow> policy_file \<times> file_output list" where
  "policy_file_step env s e =
     (case e of
        StartWrite doc expected \<Rightarrow>
          (s\<lparr>pf_writers := pf_writers s @ [\<lparr>fw_expected = expected, fw_document = doc, fw_pc = TryLock\<rparr>]\<rparr>, [])
      | Acts n now failed \<Rightarrow>
          if n < length (pf_writers s) then
            (let w = pf_writers s ! n
             in case writer_acts env n now failed (pf_disk s) w of
                  (pc, d, outs) \<Rightarrow>
                    (s\<lparr>pf_disk := d, pf_writers := (pf_writers s)[n := w\<lparr>fw_pc := pc\<rparr>]\<rparr>, outs @ answer_of n (fw_pc w) pc))
          else (s, [])
      | Dies n \<Rightarrow>
          if n < length (pf_writers s) then
            (s\<lparr>pf_writers := (pf_writers s)[n := (pf_writers s ! n)\<lparr>fw_pc := Crashed\<rparr>]\<rparr>, [])
          else (s, []))"

section \<open>Holding the lock\<close>

fun in_section :: "writer_pc \<Rightarrow> bool" where
  "in_section ReadCurrent = True"
| "in_section WriteTemp = True"
| "in_section SwapIn = True"
| "in_section (DropTemp _) = True"
| "in_section (Unlock _) = True"
| "in_section _ = False"

definition holders :: "policy_file \<Rightarrow> nat set" where
  "holders s = {n. n < length (pf_writers s) \<and> in_section (fw_pc (pf_writers s ! n))}"

definition someone_holds :: "policy_file \<Rightarrow> bool" where
  "someone_holds s \<longleftrightarrow> list_ex (\<lambda>w. in_section (fw_pc w)) (pf_writers s)"

lemma someone_holds_iff: "someone_holds s \<longleftrightarrow> holders s \<noteq> {}"
  by (auto simp: someone_holds_def holders_def list_ex_length)

text \<open>A writer takes a lock away while another one works under it.\<close>

definition steals :: "policy_file \<Rightarrow> file_event \<Rightarrow> bool" where
  "steals s e \<longleftrightarrow>
     (case e of
        Acts n now failed \<Rightarrow> n < length (pf_writers s) \<and> fw_pc (pf_writers s ! n) = BreakLock \<and> someone_holds s
      | _ \<Rightarrow> False)"

fun no_theft :: "policy_env \<Rightarrow> policy_file \<Rightarrow> file_event list \<Rightarrow> bool" where
  "no_theft env s [] \<longleftrightarrow> True"
| "no_theft env s (e # es) \<longleftrightarrow> \<not> steals s e \<and> no_theft env (fst (policy_file_step env s e)) es"

definition guarded_step :: "policy_env \<Rightarrow> policy_file \<Rightarrow> file_event \<Rightarrow> policy_file \<times> file_output list" where
  "guarded_step env s e = (if steals s e then (s, []) else policy_file_step env s e)"

lemma run_guarded: "no_theft env s es \<Longrightarrow> run (guarded_step env) s es = run (policy_file_step env) s es"
  by (induction es arbitrary: s) (simp_all add: guarded_step_def split_beta)

text \<open>The hash of what the file held, as its reader saw it.\<close>

definition matches_hash :: "policy_env \<Rightarrow> jstr option \<Rightarrow> jstr option \<Rightarrow> bool" where
  "matches_hash env text hash \<longleftrightarrow>
     (case text of None \<Rightarrow> hash = None | Some t \<Rightarrow> \<exists>h. pe_load env t = Inr h \<and> hash = Some h)"

definition locked_ok :: "policy_env \<Rightarrow> policy_file \<Rightarrow> bool" where
  "locked_ok env s \<longleftrightarrow>
     (\<forall>n \<in> holders s. \<forall>m \<in> holders s. n = m) \<and>
     (holders s \<noteq> {} \<longrightarrow> pd_lock (pf_disk s) \<noteq> None) \<and>
     (\<forall>n < length (pf_writers s). fw_pc (pf_writers s ! n) \<in> {WriteTemp, SwapIn} \<longrightarrow>
        matches_hash env (pd_policy (pf_disk s)) (fw_expected (pf_writers s ! n)))"

text \<open>An atomic register: a write succeeds on the very content it was made from.\<close>

definition cas_register :: "policy_env \<Rightarrow> jstr option \<Rightarrow> file_output \<Rightarrow> jstr option option" where
  "cas_register env content out =
     (case out of
        Replaced expected old new \<Rightarrow>
          if old = content \<and> matches_hash env content expected then Some (Some new) else None
      | Answered n r \<Rightarrow> Some content)"

lemma map_sum_Inr: "map_sum f g x = Inr y \<longleftrightarrow> (\<exists>z. x = Inr z \<and> y = g z)"
  by (cases x) auto

section \<open>One writer at a time\<close>

definition moved :: "policy_file \<Rightarrow> nat \<Rightarrow> writer_pc \<Rightarrow> policy_disk \<Rightarrow> policy_file" where
  "moved s n pc d = s\<lparr>pf_disk := d, pf_writers := (pf_writers s)[n := (pf_writers s ! n)\<lparr>fw_pc := pc\<rparr>]\<rparr>"

lemma moved_pc:
  "n < length (pf_writers s) \<Longrightarrow> m < length (pf_writers s) \<Longrightarrow>
     fw_pc (pf_writers (moved s n pc d) ! m) = (if m = n then pc else fw_pc (pf_writers s ! m))"
  "n < length (pf_writers s) \<Longrightarrow> fw_expected (pf_writers (moved s n pc d) ! m) = fw_expected (pf_writers s ! m)"
  "length (pf_writers (moved s n pc d)) = length (pf_writers s)" "pf_disk (moved s n pc d) = d"
  by (auto simp: moved_def nth_list_update)

lemma holders_moved:
  "n < length (pf_writers s) \<Longrightarrow>
     holders (moved s n pc d) = (if in_section pc then insert n (holders s) else holders s - {n})"
  by (auto simp: holders_def moved_pc split: if_splits)

lemma locked_ok_moved:
  assumes ok: "locked_ok env s" and n: "n < length (pf_writers s)"
    and enters: "in_section pc \<Longrightarrow> n \<notin> holders s \<Longrightarrow> holders s = {}"
    and lock: "in_section pc \<or> holders s - {n} \<noteq> {} \<Longrightarrow> pd_lock d \<noteq> None"
    and policy: "pd_policy d \<noteq> pd_policy (pf_disk s) \<Longrightarrow> n \<in> holders s"
    and ready: "pc \<in> {WriteTemp, SwapIn} \<Longrightarrow> matches_hash env (pd_policy d) (fw_expected (pf_writers s ! n))"
  shows "locked_ok env (moved s n pc d)"
proof -
  have one: "\<forall>a \<in> holders s. \<forall>b \<in> holders s. a = b" using ok by (simp add: locked_ok_def)
  have "\<forall>a \<in> holders (moved s n pc d). \<forall>b \<in> holders (moved s n pc d). a = b"
    using one enters by (auto simp: holders_moved[OF n])
  moreover have "holders (moved s n pc d) \<noteq> {} \<longrightarrow> pd_lock (pf_disk (moved s n pc d)) \<noteq> None"
    using lock by (auto simp: holders_moved[OF n] moved_pc(4) split: if_splits)
  moreover have "matches_hash env (pd_policy d) (fw_expected (pf_writers s ! m))"
    if m: "m < length (pf_writers s)" "m \<noteq> n" "fw_pc (pf_writers s ! m) \<in> {WriteTemp, SwapIn}" for m
  proof -
    have "m \<in> holders s" using m by (auto simp: holders_def)
    then have "pd_policy d = pd_policy (pf_disk s)" using policy one m(2) by blast
    then show ?thesis using ok m by (auto simp: locked_ok_def)
  qed
  ultimately show ?thesis
    using ready n unfolding locked_ok_def by (auto simp: moved_pc split: if_splits)
qed

lemma locked_okD:
  assumes "locked_ok env s" and "n < length (pf_writers s)"
  shows "pd_lock (pf_disk s) = None \<Longrightarrow> holders s = {}"
    and "in_section (fw_pc (pf_writers s ! n)) \<Longrightarrow> holders s = {n} \<and> pd_lock (pf_disk s) \<noteq> None"
    and "fw_pc (pf_writers s ! n) \<in> {WriteTemp, SwapIn} \<Longrightarrow>
      matches_hash env (pd_policy (pf_disk s)) (fw_expected (pf_writers s ! n))"
  using assms by (auto simp: locked_ok_def holders_def)

lemma writer_acts_ok:
  assumes ok: "locked_ok env s" and n: "n < length (pf_writers s)" and honest: "\<not> steals s (Acts n now failed)"
    and acts: "writer_acts env n now failed (pf_disk s) (pf_writers s ! n) = (pc, d, outs)"
  shows "locked_ok env (moved s n pc d)"
proof (rule locked_ok_moved[OF ok n])
  obtain p where p: "fw_pc (pf_writers s ! n) = p" by simp
  note D = locked_okD[OF ok n, unfolded p] and A = acts[unfolded writer_acts_def p]
  have hold: "n \<in> holders s \<longleftrightarrow> in_section p" using n p by (simp add: holders_def)
  show "holders s = {}" if "in_section pc" "n \<notin> holders s"
    using that A D(1) unfolding hold
    by (cases p) (auto simp: tryCreateLock_def stat_lock_def breakStaleLock_def lock_failed_def split: option.splits if_splits)
  show "pd_lock d \<noteq> None" if "in_section pc \<or> holders s - {n} \<noteq> {}"
    using that A D(1,2) honest n
    by (cases p) (auto simp: tryCreateLock_def stat_lock_def breakStaleLock_def lock_failed_def steals_def someone_holds_iff p
        split: option.splits if_splits)
  show "n \<in> holders s" if "pd_policy d \<noteq> pd_policy (pf_disk s)"
    using that A unfolding hold
    by (cases p) (auto simp: tryCreateLock_def breakStaleLock_def split: option.splits if_splits)
  show "matches_hash env (pd_policy d) (fw_expected (pf_writers s ! n))" if "pc \<in> {WriteTemp, SwapIn}"
    using that A D(3)
    by (cases p) (auto simp: tryCreateLock_def stat_lock_def breakStaleLock_def lock_failed_def writeUnderLock_def
        readPolicyFileForEdit_def matches_hash_def map_sum_Inr split: option.splits if_splits sum.splits)
qed

lemma guarded_step_cases:
  assumes "guarded_step env s e = (s', outs)"
  obtains (idle) "s' = s" "outs = []"
    | (starts) doc expected where "s' = s\<lparr>pf_writers := pf_writers s @ [\<lparr>fw_expected = expected, fw_document = doc, fw_pc = TryLock\<rparr>]\<rparr>"
        "outs = []"
    | (acts) n now failed pc d changes where "e = Acts n now failed" "n < length (pf_writers s)" "\<not> steals s (Acts n now failed)"
        "writer_acts env n now failed (pf_disk s) (pf_writers s ! n) = (pc, d, changes)" "s' = moved s n pc d"
        "outs = changes @ answer_of n (fw_pc (pf_writers s ! n)) pc"
    | (dies) n where "n < length (pf_writers s)" "s' = moved s n Crashed (pf_disk s)" "outs = []"
proof -
  consider "steals s e" | "\<not> steals s e" by blast
  then show ?thesis
  proof cases
    case 1
    with assms idle show ?thesis by (simp add: guarded_step_def)
  next
    case 2
    then have step: "policy_file_step env s e = (s', outs)" using assms by (simp add: guarded_step_def)
    show ?thesis
    proof (cases e)
      case (StartWrite doc expected)
      with step starts show ?thesis by (auto simp: policy_file_step_def)
    next
      case (Acts n now failed)
      show ?thesis
      proof (cases "n < length (pf_writers s)")
        case True
        obtain pc d changes where w: "writer_acts env n now failed (pf_disk s) (pf_writers s ! n) = (pc, d, changes)"
          by (metis prod_cases3)
        then have "s' = moved s n pc d" "outs = changes @ answer_of n (fw_pc (pf_writers s ! n)) pc"
          using step Acts True by (simp_all add: policy_file_step_def moved_def Let_def)
        from acts[OF Acts True 2[unfolded Acts] w this] show ?thesis .
      next
        case False
        with step Acts idle show ?thesis by (auto simp: policy_file_step_def)
      qed
    next
      case (Dies n)
      show ?thesis
      proof (cases "n < length (pf_writers s)")
        case True
        then have "s' = moved s n Crashed (pf_disk s)" "outs = []"
          using step Dies by (simp_all add: policy_file_step_def moved_def)
        with True dies show ?thesis by blast
      next
        case False
        with step Dies idle show ?thesis by (simp add: policy_file_step_def)
      qed
    qed
  qed
qed

lemma holders_append: "holders (s\<lparr>pf_writers := pf_writers s @ [w]\<rparr>) = holders s" if "\<not> in_section (fw_pc w)"
  using that by (auto simp: holders_def nth_append less_Suc_eq)

lemma guarded_ok:
  assumes ok: "locked_ok env s"
  shows "locked_ok env (fst (guarded_step env s e))"
proof -
  obtain s' outs where step: "guarded_step env s e = (s', outs)" by fastforce
  from step show ?thesis
  proof (cases rule: guarded_step_cases)
    case idle
    with ok step show ?thesis by simp
  next
    case (starts doc expected)
    with ok have "locked_ok env s'" by (auto simp: locked_ok_def holders_append nth_append less_Suc_eq)
    with step show ?thesis by simp
  next
    case (acts n now failed pc d changes)
    with writer_acts_ok[OF ok acts(2,3,4)] step show ?thesis by simp
  next
    case (dies n)
    have "locked_ok env (moved s n Crashed (pf_disk s))"
      using locked_ok_moved[OF ok dies(1), of Crashed "pf_disk s"] ok by (auto simp: locked_ok_def)
    with dies step show ?thesis by simp
  qed
qed

lemma answers_keep: "spec_run (cas_register env) c (answer_of n old new) = Some c"
  by (auto simp: answer_of_def cas_register_def split: writer_pc.split)

lemma writer_acts_register:
  assumes ok: "locked_ok env s" and n: "n < length (pf_writers s)"
    and acts: "writer_acts env n now failed (pf_disk s) (pf_writers s ! n) = (pc, d, changes)"
  shows "spec_run (cas_register env) (pd_policy (pf_disk s)) changes = Some (pd_policy d)"
proof -
  obtain p where p: "fw_pc (pf_writers s ! n) = p" by simp
  note D = locked_okD(3)[OF ok n, unfolded p] and A = acts[unfolded writer_acts_def p]
  from D A show ?thesis
    by (cases p) (auto simp: cas_register_def tryCreateLock_def breakStaleLock_def split: option.splits)
qed

interpretation policy_lock: refined_machine "guarded_step env" "locked_ok env" "cas_register env" "\<lambda>s. pd_policy (pf_disk s)" for env
proof (unfold_locales, goal_cases)
  case (1 s e)
  then show ?case by (rule guarded_ok)
next
  case (2 s e)
  obtain s' outs where step: "guarded_step env s e = (s', outs)" by fastforce
  from step show ?case
  proof (cases rule: guarded_step_cases)
    case (acts n now failed pc d changes)
    then show ?thesis
      using writer_acts_register[OF 2 acts(2,4)] unfolding step
      by (simp add: spec_run_append answers_keep moved_pc)
  qed (simp_all add: step moved_def)
qed

text \<open>
  C0. As long as no writer takes a lock away under which another one works, the writes of the policy file are
  those of an atomic compare-and-swap register, in whatever order the calls of the writers interleave,
  whichever of them fail and whichever writers crash: every replacement finds in the file the very policy
  its writer was given the hash of, and what was there is what the replacement before it left.
\<close>

theorem policy_writes_are_cas:
  assumes "no_theft env \<lparr>pf_disk = d, pf_writers = []\<rparr> es"
  shows "spec_run (cas_register env) (pd_policy d) (snd (run (policy_file_step env) \<lparr>pf_disk = d, pf_writers = []\<rparr> es)) =
    Some (pd_policy (pf_disk (fst (run (policy_file_step env) \<lparr>pf_disk = d, pf_writers = []\<rparr> es))))"
proof -
  have "locked_ok env \<lparr>pf_disk = d, pf_writers = []\<rparr>" by (simp add: locked_ok_def holders_def)
  from policy_lock.run_refines[OF this, of es] run_guarded[OF assms] show ?thesis by simp
qed

section \<open>A lock that looks stale\<close>

text \<open>
  Policies that are their own hash. Two writers find the lock of a third that died. Both see it stale before
  either breaks it: the second takes away the lock the first has made since.
\<close>

definition sample_policy_env :: policy_env where
  "sample_policy_env = \<lparr>pe_path = js ''p'', pe_load = Inr, pe_check = (\<lambda>v. case v of JStr t \<Rightarrow> Inr (t @ [10]) | _ \<Rightarrow> Inl []),
     pe_stringify = (\<lambda>v. case v of JStr t \<Rightarrow> t | _ \<Rightarrow> [])\<rparr>"

definition stale_disk :: policy_disk where
  "stale_disk = \<lparr>pd_policy = Some [97], pd_lock = Some 0\<rparr>"

definition does :: "nat \<Rightarrow> nat \<Rightarrow> file_event list" where
  "does n k = replicate k (Acts n 20000 None)"

definition race :: "file_event list" where
  "race = [StartWrite (JStr [98]) (Some [97]), StartWrite (JStr [99]) (Some [97])] @ does 0 2 @ does 1 2 @ does 0 3 @ does 1 3 @
     does 0 1 @ does 1 1 @ does 0 3 @ does 1 3"

definition alone :: "file_event list" where
  "alone = [StartWrite (JStr [98]) (Some [97])] @ does 0 9"

text \<open>
  A stale lock does not keep two writers apart: both are told that their edit of the same policy was
  written, and the first edit is lost.
\<close>

lemma stale_lock_loses_update:
  "\<exists>es. let (s, outs) = run (policy_file_step sample_policy_env) \<lparr>pf_disk = stale_disk, pf_writers = []\<rparr> es
     in Answered 0 (Written (Some [97]) [98, 10]) \<in> set outs \<and> Answered 1 (Written (Some [97]) [99, 10]) \<in> set outs \<and>
        pd_policy (pf_disk s) = Some [99, 10] \<and> Replaced (Some [97]) (Some [98, 10]) [99, 10] \<in> set outs"
  by (rule exI[of _ race]) code_simp

theorem policy_writes_are_cas_witness:
  "spec_run (cas_register sample_policy_env) (Some [97])
     (snd (run (policy_file_step sample_policy_env) \<lparr>pf_disk = stale_disk, pf_writers = []\<rparr> alone)) = Some (Some [98, 10])"
proof -
  have "no_theft sample_policy_env \<lparr>pf_disk = stale_disk, pf_writers = []\<rparr> alone"
    and "pd_policy (pf_disk (fst (run (policy_file_step sample_policy_env) \<lparr>pf_disk = stale_disk, pf_writers = []\<rparr> alone))) = Some [98, 10]"
    by code_simp+
  with policy_writes_are_cas[of sample_policy_env stale_disk alone] show ?thesis by (simp add: stale_disk_def)
qed

section \<open>A write ends\<close>

text \<open>How many more calls a writer makes at most.\<close>

fun calls_left :: "writer_pc \<Rightarrow> nat" where
  "calls_left TryLock = 10"
| "calls_left StatLock = 9"
| "calls_left BreakLock = 8"
| "calls_left DropParked = 7"
| "calls_left RetryLock = 6"
| "calls_left ReadCurrent = 5"
| "calls_left WriteTemp = 4"
| "calls_left SwapIn = 3"
| "calls_left (DropTemp _) = 2"
| "calls_left (Unlock _) = 1"
| "calls_left ReadForeign = 1"
| "calls_left _ = 0"

lemma writer_acts_less:
  assumes "writer_acts env n now failed d w = (pc, d', outs)"
  shows "calls_left pc \<le> calls_left (fw_pc w) - 1"
proof -
  obtain p where p: "fw_pc w = p" by simp
  from assms[unfolded writer_acts_def p] show ?thesis unfolding p
    by (cases p) (auto simp: tryCreateLock_def stat_lock_def breakStaleLock_def lock_failed_def writeUnderLock_def
      split: option.splits if_splits sum.splits)
qed

definition calls_of :: "nat \<Rightarrow> file_event list \<Rightarrow> nat" where
  "calls_of n es = length (filter (\<lambda>e. case e of Acts m _ _ \<Rightarrow> m = n | _ \<Rightarrow> False) es)"

definition ended :: "nat \<Rightarrow> policy_file \<Rightarrow> bool" where
  "ended n s \<longleftrightarrow> calls_left (fw_pc (pf_writers s ! n)) = 0"

lemma step_calls_left:
  assumes "n < length (pf_writers s)"
  shows "n < length (pf_writers (fst (policy_file_step env s e))) \<and>
    calls_left (fw_pc (pf_writers (fst (policy_file_step env s e)) ! n)) \<le> calls_left (fw_pc (pf_writers s ! n)) - calls_of n [e]"
proof (cases e)
  case (StartWrite doc expected)
  with assms show ?thesis by (simp add: policy_file_step_def calls_of_def nth_append)
next
  case (Dies m)
  with assms show ?thesis by (simp add: policy_file_step_def calls_of_def nth_list_update)
next
  case (Acts m now failed)
  show ?thesis
  proof (cases "m < length (pf_writers s)")
    case True
    obtain pc d outs where w: "writer_acts env m now failed (pf_disk s) (pf_writers s ! m) = (pc, d, outs)"
      by (metis prod_cases3)
    have "calls_left pc \<le> calls_left (fw_pc (pf_writers s ! m)) - 1" by (rule writer_acts_less[OF w])
    then show ?thesis using assms True w by (auto simp: Acts policy_file_step_def calls_of_def nth_list_update Let_def)
  next
    case False
    with assms show ?thesis by (auto simp: Acts policy_file_step_def calls_of_def)
  qed
qed

text \<open>
  C0. A write never waits: after ten calls of its own at the latest it has an answer, whatever the other writers
  do, however often they come in between, and whatever fails.
\<close>

theorem write_ends:
  assumes "n < length (pf_writers s)" and "calls_left (fw_pc (pf_writers s ! n)) \<le> calls_of n es"
  shows "ended n (fst (run (policy_file_step env) s es))"
  using assms
proof (induction es arbitrary: s)
  case (Cons e es)
  note step = step_calls_left[OF Cons.prems(1), of env e]
  have "calls_of n (e # es) = calls_of n [e] + calls_of n es" by (simp add: calls_of_def)
  with step Cons.prems(2) have "calls_left (fw_pc (pf_writers (fst (policy_file_step env s e)) ! n)) \<le> calls_of n es" by linarith
  with Cons.IH[of "fst (policy_file_step env s e)"] step show ?case by (simp add: split_beta)
qed (simp add: ended_def calls_of_def)

theorem write_ends_witness:
  "ended 0 (fst (run (policy_file_step sample_policy_env)
     \<lparr>pf_disk = stale_disk, pf_writers = [\<lparr>fw_expected = None, fw_document = JNull, fw_pc = TryLock\<rparr>]\<rparr> (does 0 10)))"
  by (rule write_ends) (simp_all add: calls_of_def does_def)

end
