(* ===== verification/Spec2Isabelle.thy ===== *)
theory Spec2Isabelle
  imports Policy_Classify Policy_Effective Inventory_Safety Approval_Safety Framing Protocol_Safety
    Pool_Names_Safety Correlator_Safety Pool_Children_Safety Agent_Scope_Safety Method_Grants Tool_Use_Safety
    Gate_Errors Gate_Router_Safety Journal_Writer_Safety File_Access_Safety Net_Guard Policy_File
begin

text \<open>
  A verification development for mcpcut, a proxy between an agent's MCP client and its MCP servers: it
  decides every tool call by a policy, holds calls for an administrator's approval or a confirmation by
  the person at the client, quarantines tools whose catalog entry is new or has changed, journals every
  decision, and can join several servers into one.

  \<^bold>\<open>How the parts interact.\<close> Bytes from either side are cut into lines (\<open>protocol/split.ts\<close>) and classified
  (\<open>protocol/classify.ts\<close>). The gate (\<open>proxy/gate-*.ts\<close>) routes each message. A \<open>tools/call\<close> is evaluated
  with the policy (\<open>policy/decide.ts\<close>) on the class of its tool (\<open>policy/classify-tool.ts\<close>), the
  inventory's view of it (\<open>policy/inventory*.ts\<close>, which compares schemas with \<open>policy/schema-diff.ts\<close> and
  \<open>policy/hash.ts\<close> after redaction, \<open>redact/\<close>) and the agent's grants (\<open>agents/\<close>); a call that repeats
  an earlier tool use is answered from what was kept (\<open>proxy/tool-use-answers.ts\<close>); one that needs an
  approval waits for a row of the queue (\<open>policy/approvals/queue*.ts\<close>); a refusal is synthesized
  (\<open>proxy/synthesize.ts\<close>). The pool (\<open>pool/\<close>) gives its members' tools joint names, correlates their
  answers and starts and stops them.

  \<^bold>\<open>Conventions.\<close> A JavaScript string is a list of 16-bit units (\<open>jstr\<close>), a number a double given by its 64
  bits, an object the list of its own properties in insertion order, a \<open>Map\<close> or \<open>Set\<close> a list in insertion
  order (\<open>Json\<close>). Errors and \<open>undefined\<close> are \<open>None\<close> or a constructor of their own. What is not under src/ is
  an argument of the definitions that use it: \<open>JSON.parse\<close>, the text of a number, SHA-256, Unicode
  normalization, \<open>new URL\<close>, the regular expressions of the redactor, random bytes and the clock. Objects
  that are called from many places are machines: a step function on a record of their state, with what
  they emit (\<open>Machine\<close>, whose locale proves invariants once for every machine).

  \<^bold>\<open>Asynchronous code\<close> (\<open>Tasks\<close>). An \<open>async\<close> function runs to its first \<open>await\<close> on the state it finds and
  goes on later on whatever state there is then. A \<open>task\<close> is the rest of such a call; its runs are
  quantified over every reply to every \<open>await\<close> and over every state the code is resumed in, so each
  theorem about a run covers every interleaving with other calls. \<open>wp\<close> is the weakest precondition of all
  those runs; \<open>exec\<close> computes one.

  \<^bold>\<open>Theories and code.\<close>
  \<^item> \<open>Prelude\<close>, \<open>Json\<close>, \<open>Text\<close>, \<open>Machine\<close>, \<open>Tasks\<close>: the shared data, lists as maps, characters, machines
    and asynchronous code.
  \<^item> \<open>Policy_Types\<close> (\<open>policy/schema.ts\<close>), \<open>Policy_Match\<close> (\<open>match.ts\<close>), \<open>Policy_Decide\<close> (\<open>decide.ts\<close>),
    \<open>Policy_Effective\<close> (\<open>effective.ts\<close>, \<open>confirm-in-client.ts\<close>), \<open>Policy_Classify\<close> (\<open>classify-tool.ts\<close>):
    when a call is allowed, that no grant means no call, that the explanation shown to the operator is the
    decision taken, that no annotation of the server makes a tool look less dangerous.
  \<^item> \<open>Schema_Diff\<close> (\<open>policy/schema-diff.ts\<close>), \<open>Canonical_Hash\<close> (\<open>policy/hash.ts\<close>), \<open>Redact\<close> (\<open>redact/\<close>),
    \<open>Inventory\<close> and \<open>Inventory_Safety\<close> (\<open>policy/inventory*.ts\<close>): a change that keeps an \<open>allow\<close> alive is a
    change of wording or a tightening; a tool counts as known only with the fingerprint that was approved.
  \<^item> \<open>Approval_Queue\<close> and \<open>Approval_Safety\<close> (\<open>policy/approvals/queue*.ts\<close>): the tables of the queue refine the
    life of a request, an approval is given only in time, and a reader of changes misses none.
  \<^item> \<open>Codec\<close>, \<open>Framing\<close> (\<open>protocol/split.ts\<close>, \<open>frame.ts\<close>), \<open>Protocol\<close> and \<open>Protocol_Safety\<close>
    (\<open>protocol/classify.ts\<close>, \<open>mcp.ts\<close>, \<open>call-meta.ts\<close>, \<open>mcp-stateless.ts\<close>), \<open>Synthesize\<close>
    (\<open>proxy/synthesize.ts\<close>): framing loses no byte and does not depend on how the stream is cut; mirrored
    headers are printable.
  \<^item> \<open>Agent_Scope\<close>, \<open>Agent_Scope_Safety\<close> (\<open>agents/scope.ts\<close>, \<open>effective.ts\<close>, \<open>resource-match.ts\<close>),
    \<open>Method_Grants\<close> (\<open>agents/method-grants.ts\<close>): what an agent inherits from its groups, what its patterns
    contain, and which methods its grants cover.
  \<^item> \<open>Gate_Ids\<close> (\<open>proxy/id-tracking.ts\<close>), \<open>Tool_Use\<close> and \<open>Tool_Use_Safety\<close> (\<open>proxy/tool-use-answers.ts\<close>),
    \<open>Client_Confirm\<close> (\<open>proxy/client-confirm.ts\<close>): the machines the gate is built on.
  \<^item> \<open>Gate_Base\<close> (\<open>gate-helpers.ts\<close>, \<open>gate-decision-writer.ts\<close>, the state of \<open>gate-core.ts\<close>), \<open>Tool_Catalog\<close>
    (\<open>tool-catalog.ts\<close>, \<open>tools-filter.ts\<close>), \<open>Gate_Delivery\<close> (\<open>gate-delivery*.ts\<close>), \<open>Gate_Approvals\<close>
    (\<open>gate-approvals.ts\<close>, \<open>gate-confirm.ts\<close>), \<open>Gate_Call\<close> (\<open>gate-call.ts\<close>, \<open>gate-decide-input.ts\<close>,
    \<open>gate-guard.ts\<close>), \<open>Gate_Router\<close> (\<open>gate-router.ts\<close>, \<open>gate-cancel.ts\<close>, \<open>gate-method-router.ts\<close>,
    \<open>gate-server-router.ts\<close>): the gate as asynchronous code on one record of state. \<open>Gate_Safety\<close>: a
    forwarded call was decided, approved and confirmed. \<open>Gate_Errors\<close>: an error never forwards.
    \<open>Gate_Router_Safety\<close>: the same for every frame of the client.
  \<^item> \<open>Pool_Names\<close>, \<open>Pool_Names_Safety\<close> (\<open>pool/name-codec.ts\<close>, \<open>route-table.ts\<close>, \<open>merge-lists.ts\<close>,
    \<open>route-request.ts\<close>), \<open>Correlator\<close>, \<open>Correlator_Safety\<close> (\<open>pool/correlator.ts\<close>), \<open>Pool_Children\<close>,
    \<open>Pool_Children_Safety\<close> (\<open>pool/children.ts\<close>): joint names decode to what was encoded, a merged catalog
    holds only its members' entries, an answer is credited only to the member that was asked, and a stopped
    member is not heard any more.
  \<^item> \<open>Journal_Db\<close> (\<open>journal/db.ts\<close>, \<open>chain.ts\<close>, \<open>signing.ts\<close>, \<open>import.ts\<close>), \<open>Journal_Chain\<close>
    (\<open>journal/prune.ts\<close>, \<open>chain-verify.ts\<close>), \<open>Journal_Chain_Safety\<close>: every journal the program can reach
    verifies, pruned or not, a known head pins down every document before it, and a changed or removed row
    is reported where it is. \<open>Journal_Writer\<close>, \<open>Journal_Writer_Safety\<close> (\<open>journal/batch-writer.ts\<close>,
    \<open>sink.ts\<close>): records are settled once and in order, the rows in the journal are those settled with
    success, and a flush ends.
  \<^item> \<open>File_Names\<close> (\<open>files/names.ts\<close>, \<open>identity.ts\<close>, \<open>volume.ts\<close>), \<open>File_Paths\<close> (\<open>paths.ts\<close>), \<open>File_Rights\<close>
    (\<open>rights.ts\<close>, \<open>tool-access.ts\<close>, \<open>tool-context.ts\<close>, \<open>access-checks.ts\<close>), \<open>File_Access\<close>
    (\<open>args-check.ts\<close>, \<open>tool-handlers.ts\<close>), \<open>File_Access_Safety\<close>: the file tools up to the operation on the
    file, on a POSIX platform. An accepted path lies in a root and is the text the agent sent; the deepest
    rule above a file decides and a cut-out wins a tie; the gate's check of a call lets through exactly what
    the agent's rights cover, and the handlers agree with it.
  \<^item> \<open>Net_Address\<close>, \<open>Net_Address_Exact\<close> (\<open>net/address-class.ts\<close>), \<open>Net_Guard\<close> (\<open>net/upstream-guard.ts\<close>,
    \<open>upstream-guard-errors.ts\<close>, \<open>origin-host.ts\<close>): the classifier decides by the number an address stands for,
    whatever its spelling, and the guard dials global addresses only.
  \<^item> \<open>Policy_File\<close> (\<open>policy/edit/policy-file.ts\<close>): the writes of the policy file under its lock are
    compare-and-swap as long as no lock is taken from a live writer, which two breakers of a stale lock can do.
  \<^item> This theory: a file call the gate forwards has its rights.

  \<^bold>\<open>Bounds.\<close> Caps are the code's. \<open>decideToolCall\<close> takes the number of times a call that joined a running one
  may be decided anew; the theorems hold for every number, and a call that is out of rounds has no verdict,
  as one that is still waiting has none.

  \<^bold>\<open>Not modelled.\<close> The composition of the pool (\<open>multiplexer.ts\<close>, \<open>fanout.ts\<close>, \<open>initialize.ts\<close>, the watches):
  next. Progress and heartbeat timers of held calls: they send notifications and change no state of the
  gate. Of the file tools, the names of Windows and what happens behind the checks: opening, hashing and
  moving files, the trash, the search index; a check reads one state of the file system. Parsing and storing
  of policies, agents and groups (zod schemas, files, locks), the opening of databases, transports, child
  processes, network clients, the vault's cryptography and the command line, terminal and web interfaces:
  input and output around what is modelled, most of it calls of libraries.
\<close>

section \<open>File tools behind the gate\<close>

text \<open>A call of \<open>read_file\<close> that needs an approval, gets it, and passes the check of its arguments.\<close>

definition sample_file_env :: gate_env where
  "sample_file_env = Gate_Safety.sample_env\<lparr>ge_checks_args := True\<rparr>"

definition sample_file_call :: gate_call where
  "sample_file_call = \<lparr>gc_id = IdStr (js ''1''), gc_call = \<lparr>tc_name = js ''read_file'', tc_args = JNull,
     tc_meta = \<lparr>cm_progress_token = None, cm_tool_use_id = None\<rparr>\<rparr>\<rparr>"

definition sample_file_replies :: "(gate_reply \<times> gate) list" where
  "sample_file_replies = (ArgsReply None, sample_gate) # sample_replies"

lemma sample_file_facts: "factsOf sample_file_env sample_gate sample_file_call \<noteq> None"
  by code_simp

lemma sample_file_decision:
  "d_outcome (call_decision sample_file_env sample_gate (the (factsOf sample_file_env sample_gate sample_file_call))) = RequireApproval"
  by code_simp

lemma sample_file_steps:
  "\<not> confirm_isRequired sample_file_env sample_gate tool"
  "admit sample_file_env sample_file_call facts sample_gate = (Go None, sample_gate, [])"
  "gt_loaded sample_gate" "ge_checks_args sample_file_env" "gc_id sample_file_call \<noteq> IdNull" "gt_admitted sample_gate = 0"
  "gt_closed sample_gate = False" "gt_cancelled sample_gate = []" "ge_fail_closed sample_file_env"
  "gt_guard sample_gate = createAnswerGuard"
  by (simp_all add: confirm_isRequired_def sample_file_env_def Gate_Safety.sample_env_def sample_gate_def sample_file_call_def
      isConfirmInClient_def server_entry_def admit_def call_tool_use_def)

lemma sample_file_run:
  "snd (exec (gated_call (Suc 0) sample_file_env sample_file_call) sample_gate sample_file_replies) = Finished Forward"
proof -
  obtain facts where facts: "factsOf sample_file_env sample_gate sample_file_call = Some facts" using sample_file_facts by blast
  moreover obtain d where d: "call_decision sample_file_env sample_gate facts = d" by simp
  moreover have "d_outcome d = RequireApproval" using sample_file_decision by (simp add: facts d)
  ultimately show ?thesis
    by (simp add: call_runs sample_file_steps sample_file_replies_def sample_replies_def isAnswered_def createAnswerGuard_def end_wait_def endWait_def)
qed

text \<open>
  C3. A file call that reaches the file server has its rights. If the gate asks for the check of the arguments, the
  answers it gets are those of the check of the file module on some state of the file system, the roots and
  the agent's rules, and the gate forwards the call, then on one of those states every path the call names
  was accepted, with all the rights the call needs, a move carries no right along, and nothing that holds a
  separately granted folder is moved or deleted.
\<close>

theorem forwarded_file_call_granted:
  assumes "exec (gated_call n env call) g replies = (tr, Finished Forward)"
    and "ge_checks_args env"
    and "needsOf parse_args (tc_name (gc_call call)) (tc_args (gc_call call)) = Some needs" and "needs \<noteq> []"
    and "\<And>x s. Awaited (CheckArgs call) (ArgsReply x) s \<in> set tr \<Longrightarrow>
      \<exists>(files, roots, rules) \<in> states.
        x = createFilesArgsCheck files parse_args (Some (roots, rules)) (tc_name (gc_call call)) (tc_args (gc_call call))"
  shows "\<exists>(files, roots, rules) \<in> states. \<exists>prepared resolved. prepareRules files rules = Inr prepared \<and>
    map fst resolved = needs \<and> access_ok files (contextFor files roots rules) prepared resolved"
proof -
  have "decided_in env call g tr" using forwarded_decided[OF assms(1)] by simp
  then obtain s where "Awaited (CheckArgs call) (ArgsReply None) s \<in> set tr"
    using assms(2) by (auto simp: decided_in_def args_passed_def)
  from assms(5)[OF this] obtain files roots rules where st: "(files, roots, rules) \<in> states"
    "createFilesArgsCheck files parse_args (Some (roots, rules)) (tc_name (gc_call call)) (tc_args (gc_call call)) = None"
    by auto
  from st files_check_iff[OF assms(3,4), of files roots rules] show ?thesis by (intro bexI[OF _ st(1)]) auto
qed

theorem forwarded_file_call_granted_witness:
  "\<exists>prepared resolved. prepareRules sample_files [sample_file_rule] = Inr prepared \<and>
     map fst resolved = [FixedNeed (js ''/r/f'') [FileRead] False] \<and>
     access_ok sample_files (contextFor sample_files [js ''/r''] [sample_file_rule]) prepared resolved"
proof -
  let ?run = "exec (gated_call (Suc 0) sample_file_env sample_file_call) sample_gate sample_file_replies"
  have run: "?run = (fst ?run, Finished Forward)" using sample_file_run by (metis prod.collapse)
  have asked: "x = None" if "Awaited (CheckArgs sample_file_call) (ArgsReply x) s \<in> set (fst ?run)" for x s
    using exec_awaited[OF that] by (auto simp: sample_file_replies_def sample_replies_def)
  have "\<exists>(files, roots, rules) \<in> {(sample_files, [js ''/r''], [sample_file_rule])}.
      \<exists>prepared resolved. prepareRules files rules = Inr prepared \<and>
        map fst resolved = [FixedNeed (js ''/r/f'') [FileRead] False] \<and>
        access_ok files (contextFor files roots rules) prepared resolved"
  proof (rule forwarded_file_call_granted[OF run])
    show "ge_checks_args sample_file_env" by (simp add: sample_file_env_def)
    show "needsOf sample_args (tc_name (gc_call sample_file_call)) (tc_args (gc_call sample_file_call)) =
        Some [FixedNeed (js ''/r/f'') [FileRead] False]"
      using sample_needs by (simp add: sample_file_call_def)
  qed (use asked sample_check in \<open>auto simp: sample_file_call_def\<close>)
  then show ?thesis by simp
qed

end
